theory Spec2Isabelle
  imports Main "HOL-Library.Word"
begin

section \<open>JavaScript statements, exceptions and values\<close>

text \<open>
  Host-side code runs as a sequence of tasks on one event loop. A statement is a state
  transformer that may end with a thrown exception; the state it reached is kept either
  way, as JavaScript does not roll mutations back.
\<close>

datatype exn = Exn string

type_synonym 's stmt = "'s \<Rightarrow> exn option \<times> 's"

definition js_skip :: "'s stmt" where
  "js_skip s = (None, s)"

definition js_throw :: "exn \<Rightarrow> 's stmt" where
  "js_throw e s = (Some e, s)"

definition js_assign :: "('s \<Rightarrow> 's) \<Rightarrow> 's stmt" where
  "js_assign f s = (None, f s)"

definition js_seq :: "'s stmt \<Rightarrow> 's stmt \<Rightarrow> 's stmt" where
  "js_seq a b s = (case a s of (None, s') \<Rightarrow> b s' | (Some e, s') \<Rightarrow> (Some e, s'))"

fun js_block :: "'s stmt list \<Rightarrow> 's stmt" where
  "js_block [] = js_skip"
| "js_block (a # as) = js_seq a (js_block as)"

definition js_try :: "'s stmt \<Rightarrow> (exn \<Rightarrow> 's stmt) \<Rightarrow> 's stmt" where
  "js_try body handler s =
     (case body s of (None, s') \<Rightarrow> (None, s') | (Some e, s') \<Rightarrow> handler e s')"

definition js_when :: "bool \<Rightarrow> 's stmt \<Rightarrow> 's stmt" where
  "js_when c a = (if c then a else js_skip)"

definition js_cond :: "('s \<Rightarrow> bool) \<Rightarrow> 's stmt \<Rightarrow> 's stmt \<Rightarrow> 's stmt" where
  "js_cond c a b s = (if c s then a s else b s)"

text \<open>\<open>p.finally(f)\<close>: \<open>f\<close> runs whether \<open>p\<close> was fulfilled or rejected; the rejection
  of \<open>p\<close> is passed on unless \<open>f\<close> throws itself.\<close>

definition js_finally :: "'s stmt \<Rightarrow> 's stmt \<Rightarrow> 's stmt" where
  "js_finally p f s =
     (case p s of (r, s') \<Rightarrow>
        (case f s' of (None, s'') \<Rightarrow> (r, s'') | (Some e, s'') \<Rightarrow> (Some e, s'')))"

text \<open>An optional string field of a message or event; \<open>None\<close> is \<open>undefined\<close>/\<open>null\<close>.
  A text is held as its UTF-8 encoding, so that \<open>length\<close> is what
  \<open>new TextEncoder().encode(s).length\<close> counts.\<close>

definition truthy :: "string option \<Rightarrow> bool" where
  "truthy v = (case v of None \<Rightarrow> False | Some s \<Rightarrow> s \<noteq> [])"

definition or_else :: "string option \<Rightarrow> string \<Rightarrow> string" where
  "or_else v d = (case v of None \<Rightarrow> d | Some s \<Rightarrow> (if s = [] then d else s))"

definition byteLength :: "string \<Rightarrow> nat" where
  "byteLength s = length s"

fun join_space :: "string list \<Rightarrow> string" where
  "join_space [] = []"
| "join_space [a] = a"
| "join_space (a # b # cs) = a @ '' '' @ join_space (b # cs)"

definition digit_char :: "nat \<Rightarrow> char" where
  "digit_char d = char_of (48 + d)"

fun string_of_nat :: "nat \<Rightarrow> string" where
  "string_of_nat n =
     (if n < 10 then [digit_char n] else string_of_nat (n div 10) @ [digit_char (n mod 10)])"

declare string_of_nat.simps [simp del]

text \<open>It prints the number a template literal prints for every integer below \<open>10\<^sup>2\<^sup>1\<close>;
  from there on JavaScript switches to exponent notation. Only the text of the timeout
  message depends on it.\<close>

section \<open>Run events (virtualizer.js)\<close>

record payload =
  p_text :: "string option"
  p_level :: "string option"
  p_message :: "string option"
  p_stack :: "string option"
  p_value :: "string option"

definition no_payload :: payload where
  "no_payload = \<lparr>p_text = None, p_level = None, p_message = None, p_stack = None, p_value = None\<rparr>"

record event =
  ev_type :: string
  ev_runId :: string
  ev_language :: string
  ev_payload :: payload

text \<open>The consumer behind the \<open>onEvent\<close> callback. Of what it does with an event, the
  runner can notice two things: whether it calls the \<open>stop\<close> it got from \<open>runCode\<close>
  while it handles the event, and whether it throws. Both may depend on the events it
  was called with before.\<close>

record reaction =
  r_stops :: bool
  r_throws :: "exn option"

type_synonym consumer = "event list \<Rightarrow> event \<Rightarrow> reaction"

text \<open>A callback as the host code sees it: a function that is called with an event.\<close>

type_synonym 's callback = "event \<Rightarrow> 's stmt"

record run_options =
  o_language :: "string option"
  o_code :: "string option"
  o_timeoutMs :: "nat option"
  o_maxLogBytes :: "nat option"
  o_indexURL :: "string option"

text \<open>The values of \<open>Math.random().toString(36).slice(2)\<close> and of the session tokens
  drawn during one invocation.\<close>

record randoms =
  rnd_run :: string
  rnd_js_run :: string
  rnd_js_token :: string
  rnd_py_token :: string
  rnd_py_run :: string

record run_env =
  language :: string
  code :: string
  timeoutMs :: nat
  maxLogBytes :: nat
  indexURL :: "string option"
  runId :: string

definition default_opt :: "'a option \<Rightarrow> 'a \<Rightarrow> 'a" where
  "default_opt v d = (case v of None \<Rightarrow> d | Some x \<Rightarrow> x)"

definition resolve_options :: "run_options option \<Rightarrow> randoms \<Rightarrow> run_env" where
  "resolve_options options rnd =
     (let opts = default_opt options
            \<lparr>o_language = None, o_code = None, o_timeoutMs = None, o_maxLogBytes = None,
             o_indexURL = None\<rparr>;
          lang = default_opt (o_language opts) ''javascript''
      in \<lparr>language = lang,
          code = default_opt (o_code opts) [],
          timeoutMs = default_opt (o_timeoutMs opts) 5000,
          maxLogBytes = default_opt (o_maxLogBytes opts) (64 * 1024),
          indexURL = o_indexURL opts,
          runId = lang @ ''_'' @ rnd_run rnd\<rparr>)"

record outer =
  delivered :: "event list"
  totalLogBytes :: nat
  truncatedNotified :: bool

definition mk_event :: "run_env \<Rightarrow> string \<Rightarrow> payload \<Rightarrow> event" where
  "mk_event env type pl =
     \<lparr>ev_type = type, ev_runId = runId env, ev_language = language env, ev_payload = pl\<rparr>"

text \<open>One call of the consumer's callback: the event is delivered (and recorded in
  \<open>delivered\<close>), the consumer may call \<open>stop\<close>, and it returns or throws. Before
  \<open>runCode\<close> has returned the consumer holds no \<open>stop\<close> yet; \<open>js_skip\<close> stands for it
  then.\<close>

definition call_consumer :: "consumer \<Rightarrow> ('a outer_scheme) stmt \<Rightarrow> ('a outer_scheme) callback" where
  "call_consumer consumer stop ev s =
     (let r = consumer (delivered s) ev in
      js_block [
        js_assign (\<lambda>st. st\<lparr>delivered := delivered st @ [ev]\<rparr>),
        js_when (r_stops r) stop,
        (case r_throws r of None \<Rightarrow> js_skip | Some e \<Rightarrow> js_throw e)] s)"

definition emit ::
  "('a outer_scheme) callback \<Rightarrow> run_env \<Rightarrow> string \<Rightarrow> payload \<Rightarrow> ('a outer_scheme) stmt" where
  "emit onEvent env type pl = js_try (onEvent (mk_event env type pl)) (\<lambda>_. js_skip)"

definition budgetedEmit ::
  "('a outer_scheme) callback \<Rightarrow> run_env \<Rightarrow> string \<Rightarrow> string option \<Rightarrow> string \<Rightarrow> ('a outer_scheme) stmt" where
  "budgetedEmit onEvent env type text level =
     (let s = or_else text []; bytes = byteLength s in
      js_cond (\<lambda>st. totalLogBytes st + bytes \<le> maxLogBytes env)
        (js_block [
           js_assign (\<lambda>st. st\<lparr>totalLogBytes := totalLogBytes st + bytes\<rparr>),
           emit onEvent env type (no_payload\<lparr>p_text := Some s, p_level := Some level\<rparr>)])
        (js_cond (\<lambda>st. \<not> truncatedNotified st)
           (js_block [
              js_assign (\<lambda>st. st\<lparr>truncatedNotified := True\<rparr>),
              emit onEvent env ''log''
                (no_payload\<lparr>p_level := Some ''warn'', p_text := Some ''[output truncated]''\<rparr>)])
           js_skip))"

section \<open>The sandboxed JavaScript runner (sandboxRunner, runJavaScript)\<close>

record js_options =
  jo_timeoutMs :: "nat option"
  jo_maxLogBytes :: "nat option"

record js_env =
  js_runId :: string
  js_token :: string
  js_code :: string
  js_timeoutMs :: nat
  js_maxLogBytes :: nat

definition js_resolve :: "string \<Rightarrow> js_options \<Rightarrow> randoms \<Rightarrow> js_env" where
  "js_resolve c options rnd =
     \<lparr>js_runId = ''js_'' @ rnd_js_run rnd,
      js_token = rnd_js_token rnd,
      js_code = c,
      js_timeoutMs = default_opt (jo_timeoutMs options) 3000,
      js_maxLogBytes = default_opt (jo_maxLogBytes options) (64 * 1024)\<rparr>"

text \<open>An event of the runner, as handed to the \<open>onEvent\<close> argument of \<open>runJavaScript\<close>.\<close>

record js_event =
  j_type :: string
  j_runId :: string
  j_payload :: payload

text \<open>The data of a \<open>message\<close> event on the host window.\<close>

record win_data =
  d_runner :: bool
  d_token :: "string option"
  d_type :: "string option"
  d_args :: "string list option"
  d_level :: "string option"
  d_message :: "string option"
  d_stack :: "string option"

text \<open>A message posted into the iframe.\<close>

record exec_msg =
  x_type :: string
  x_code :: string
  x_token :: string

record js_host = outer +
  js_finished :: bool
  js_totalLogBytes :: nat
  js_truncatedNotified :: bool
  js_listening :: bool
  js_iframe :: bool
  js_timer :: "nat option"
  js_posted :: "exec_msg list"

definition js_emit ::
  "(js_event \<Rightarrow> js_host stmt) \<Rightarrow> js_env \<Rightarrow> string \<Rightarrow> payload \<Rightarrow> js_host stmt" where
  "js_emit onEvent jenv type pl =
     js_try (onEvent \<lparr>j_type = type, j_runId = js_runId jenv, j_payload = pl\<rparr>) (\<lambda>_. js_skip)"

definition cleanup :: "js_host stmt" where
  "cleanup = js_block [
     js_assign (\<lambda>st. st\<lparr>js_listening := False\<rparr>),
     js_try (js_assign (\<lambda>st. st\<lparr>js_iframe := False\<rparr>)) (\<lambda>_. js_skip)]"

definition clearTimeout_js :: "js_host stmt" where
  "clearTimeout_js = js_assign (\<lambda>st. st\<lparr>js_timer := None\<rparr>)"

definition handleMsg ::
  "(js_event \<Rightarrow> js_host stmt) \<Rightarrow> js_env \<Rightarrow> win_data option \<Rightarrow> js_host stmt" where
  "handleMsg onEvent jenv e =
     (case e of
        None \<Rightarrow> js_skip
      | Some data \<Rightarrow>
          if \<not> d_runner data \<or> d_token data \<noteq> Some (js_token jenv) then js_skip
          else js_cond js_finished js_skip
            (if d_type data = Some ''log'' then
               (let text = join_space (default_opt (d_args data) []);
                    bytes = byteLength text in
                js_cond (\<lambda>st. js_totalLogBytes st + bytes \<le> js_maxLogBytes jenv)
                  (js_block [
                     js_assign (\<lambda>st. st\<lparr>js_totalLogBytes := js_totalLogBytes st + bytes\<rparr>),
                     js_emit onEvent jenv ''log''
                       (no_payload\<lparr>p_level := Some (or_else (d_level data) ''log''),
                                   p_text := Some text\<rparr>)])
                  (js_cond (\<lambda>st. \<not> js_truncatedNotified st)
                     (js_block [
                        js_assign (\<lambda>st. st\<lparr>js_truncatedNotified := True\<rparr>),
                        js_emit onEvent jenv ''log''
                          (no_payload\<lparr>p_level := Some ''warn'',
                                      p_text := Some ''[output truncated]''\<rparr>)])
                     js_skip))
             else if d_type data = Some ''error'' then
               js_block [
                 js_emit onEvent jenv ''error''
                   (no_payload\<lparr>p_message := d_message data, p_stack := d_stack data\<rparr>),
                 js_assign (\<lambda>st. st\<lparr>js_finished := True\<rparr>),
                 clearTimeout_js,
                 cleanup]
             else if d_type data = Some ''start'' then
               js_emit onEvent jenv ''start'' no_payload
             else if d_type data = Some ''done'' then
               js_block [
                 js_emit onEvent jenv ''done'' no_payload,
                 js_assign (\<lambda>st. st\<lparr>js_finished := True\<rparr>),
                 clearTimeout_js,
                 cleanup]
             else js_skip))"

definition js_timer_callback :: "(js_event \<Rightarrow> js_host stmt) \<Rightarrow> js_env \<Rightarrow> js_host stmt" where
  "js_timer_callback onEvent jenv =
     js_cond (\<lambda>st. \<not> js_finished st)
       (js_block [
          js_emit onEvent jenv ''timeout''
            (no_payload\<lparr>p_message :=
               Some (''Execution timed out after '' @ string_of_nat (js_timeoutMs jenv) @ ''ms'')\<rparr>),
          js_assign (\<lambda>st. st\<lparr>js_finished := True\<rparr>),
          cleanup])
       js_skip"

definition js_stop :: "js_host stmt" where
  "js_stop = js_block [clearTimeout_js, cleanup]"

text \<open>\<open>execute\<close>: once the iframe is removed its \<open>contentWindow\<close> is \<open>null\<close>, the call
  throws and the \<open>try\<close> swallows it.\<close>

definition execute :: "js_env \<Rightarrow> js_host stmt" where
  "execute jenv =
     js_try
       (js_cond js_iframe
          (js_assign (\<lambda>st. st\<lparr>js_posted := js_posted st @
             [\<lparr>x_type = ''execute'', x_code = js_code jenv, x_token = js_token jenv\<rparr>]\<rparr>))
          (js_throw (Exn ''TypeError'')))
       (\<lambda>_. js_skip)"

text \<open>The synchronous body of \<open>runJavaScript\<close>: the runner's own \<open>init\<close>, the iframe,
  the window listener and the watchdog timer.\<close>

definition runJavaScript :: "(js_event \<Rightarrow> js_host stmt) \<Rightarrow> js_env \<Rightarrow> js_host stmt" where
  "runJavaScript onEvent jenv = js_block [
     js_emit onEvent jenv ''init'' no_payload,
     js_assign (\<lambda>st. st\<lparr>js_iframe := True\<rparr>),
     js_assign (\<lambda>st. st\<lparr>js_finished := False, js_totalLogBytes := 0,
                         js_truncatedNotified := False\<rparr>),
     js_assign (\<lambda>st. st\<lparr>js_listening := True\<rparr>),
     js_assign (\<lambda>st. st\<lparr>js_timer := Some (js_timeoutMs jenv)\<rparr>)]"

text \<open>The callback \<open>runCode\<close> hands to \<open>runJavaScript\<close> (virtualizer.js, lines 47 to 57).\<close>

definition js_onEvent ::
  "('a outer_scheme) callback \<Rightarrow> run_env \<Rightarrow> js_event \<Rightarrow> ('a outer_scheme) stmt" where
  "js_onEvent onEvent env evt = js_block [
     js_when (j_type evt = ''init'') (emit onEvent env ''init'' no_payload),
     js_when (j_type evt = ''start'') (emit onEvent env ''start'' no_payload),
     js_when (j_type evt = ''log'')
       (js_block [
          budgetedEmit onEvent env ''stdout'' (p_text (j_payload evt))
            (or_else (p_level (j_payload evt)) ''log''),
          emit onEvent env ''log''
            (no_payload\<lparr>p_level := Some (or_else (p_level (j_payload evt)) ''log''),
                        p_text := p_text (j_payload evt)\<rparr>)]),
     js_when (j_type evt = ''error'')
       (emit onEvent env ''error''
          (no_payload\<lparr>p_message := p_message (j_payload evt),
                      p_stack := p_stack (j_payload evt)\<rparr>)),
     js_when (j_type evt = ''done'') (emit onEvent env ''done'' no_payload),
     js_when (j_type evt = ''timeout'')
       (emit onEvent env ''timeout'' (no_payload\<lparr>p_message := p_message (j_payload evt)\<rparr>))]"

section \<open>The Python executor, host side (executor.js, PythonExecutor)\<close>

text \<open>Worker to host, and host to worker; every field may be missing.\<close>

record wmsg =
  m_type :: "string option"
  m_token :: "string option"
  m_runId :: "string option"
  m_text :: "string option"
  m_value :: "string option"
  m_message :: "string option"

record hmsg =
  h_type :: "string option"
  h_token :: "string option"
  h_runId :: "string option"
  h_code :: "string option"
  h_indexURL :: "string option"

definition empty_wmsg :: wmsg where
  "empty_wmsg = \<lparr>m_type = None, m_token = None, m_runId = None, m_text = None,
                  m_value = None, m_message = None\<rparr>"

text \<open>The promise of \<open>py.run(code)\<close>: suspended at the \<open>await\<close>, resumed (its
  continuation queued as a microtask), or run to its end.\<close>

datatype run_promise = AwaitingReady | Resumed | Completed

text \<open>An executor and what its owner holds. The listeners are functions; \<open>'l\<close> names
  them, \<open>py_listeners\<close> is the \<open>Set\<close> in insertion order, and what calling one of them
  with a message does is handed to \<open>worker_onmessage\<close> below.\<close>

record 'l py_executor = outer +
  py_worker :: bool
  py_listeners :: "'l list"
  py_ready :: bool
  py_posted :: "hmsg list"
  py_terminated :: nat
  rc_finished :: bool
  rc_timer :: "nat option"
  rc_run :: run_promise

text \<open>The two callbacks registered on the executor of a \<open>runCode\<close> run, which nothing
  else can reach: the message listener of \<open>runCode\<close>, and the one-shot listener \<open>run\<close>
  waits for \<open>ready\<close> with.\<close>

datatype listener = RunnerListener | ReadyWaiter

type_synonym py_host = "listener py_executor"

definition postMessage_py :: "hmsg \<Rightarrow> 'l py_executor stmt" where
  "postMessage_py m =
     js_cond py_worker (js_assign (\<lambda>st. st\<lparr>py_posted := py_posted st @ [m]\<rparr>))
       (js_throw (Exn ''TypeError''))"

definition ensureWorker :: "run_env \<Rightarrow> randoms \<Rightarrow> 'l py_executor stmt" where
  "ensureWorker env rnd =
     js_cond py_worker js_skip
       (js_block [
          js_assign (\<lambda>st. st\<lparr>py_worker := True\<rparr>),
          postMessage_py
            \<lparr>h_type = Some ''init'', h_token = Some (rnd_py_token rnd), h_runId = None,
             h_code = None,
             h_indexURL = (if truthy (indexURL env) then indexURL env else None)\<rparr>])"

definition onMessage :: "'l \<Rightarrow> 'l py_executor stmt" where
  "onMessage cb =
     js_assign (\<lambda>st. st\<lparr>py_listeners :=
       (if cb \<in> set (py_listeners st) then py_listeners st else py_listeners st @ [cb])\<rparr>)"

definition off :: "'l \<Rightarrow> 'l py_executor stmt" where
  "off cb = js_assign (\<lambda>st. st\<lparr>py_listeners := removeAll cb (py_listeners st)\<rparr>)"

definition dispose :: "'l py_executor stmt" where
  "dispose = js_block [
     js_try (js_assign (\<lambda>st. if py_worker st then st\<lparr>py_terminated := py_terminated st + 1\<rparr> else st))
       (\<lambda>_. js_skip),
     js_assign (\<lambda>st. st\<lparr>py_worker := False\<rparr>),
     js_assign (\<lambda>st. st\<lparr>py_ready := False\<rparr>),
     js_assign (\<lambda>st. st\<lparr>py_listeners := []\<rparr>)]"

text \<open>\<open>run\<close> up to its \<open>await\<close>, and its continuation after the \<open>await\<close>.\<close>

definition run_begin :: "run_env \<Rightarrow> randoms \<Rightarrow> py_host stmt" where
  "run_begin env rnd = js_block [
     ensureWorker env rnd,
     js_cond (\<lambda>st. \<not> py_ready st)
       (js_block [onMessage ReadyWaiter, js_assign (\<lambda>st. st\<lparr>rc_run := AwaitingReady\<rparr>)])
       (js_assign (\<lambda>st. st\<lparr>rc_run := Resumed\<rparr>))]"

definition run_continue :: "run_env \<Rightarrow> randoms \<Rightarrow> py_host stmt" where
  "run_continue env rnd =
     postMessage_py
       \<lparr>h_type = Some ''run'', h_token = Some (rnd_py_token rnd),
        h_runId = Some (''py_'' @ rnd_py_run rnd), h_code = Some (code env), h_indexURL = None\<rparr>"

definition ready_waiter :: "wmsg \<Rightarrow> py_host stmt" where
  "ready_waiter m =
     js_when (m_type m = Some ''ready'')
       (js_block [
          off ReadyWaiter,
          js_assign (\<lambda>st. if rc_run st = AwaitingReady then st\<lparr>rc_run := Resumed\<rparr> else st)])"

text \<open>The listener \<open>runCode\<close> registers (virtualizer.js, lines 64 to 71).\<close>

definition runner_listener ::
  "('a outer_scheme) callback \<Rightarrow> run_env \<Rightarrow> wmsg \<Rightarrow> ('a outer_scheme) stmt" where
  "runner_listener onEvent env msg =
     (if m_type msg = Some ''ready'' then js_skip
      else js_block [
        js_when (m_type msg = Some ''start'') (emit onEvent env ''start'' no_payload),
        js_when (m_type msg = Some ''stdout'')
          (budgetedEmit onEvent env ''stdout'' (m_text msg) ''info''),
        js_when (m_type msg = Some ''stderr'')
          (budgetedEmit onEvent env ''stderr'' (m_text msg) ''warn''),
        js_when (m_type msg = Some ''result'')
          (emit onEvent env ''result'' (no_payload\<lparr>p_value := m_value msg\<rparr>)),
        js_when (m_type msg = Some ''error'')
          (emit onEvent env ''error'' (no_payload\<lparr>p_message := m_message msg\<rparr>))])"

definition call_listener :: "py_host callback \<Rightarrow> run_env \<Rightarrow> listener \<Rightarrow> wmsg \<Rightarrow> py_host stmt" where
  "call_listener onEvent env cb msg =
     (case cb of
        RunnerListener \<Rightarrow> runner_listener onEvent env msg
      | ReadyWaiter \<Rightarrow> ready_waiter msg)"

text \<open>\<open>Set.prototype.forEach\<close> visits the members in insertion order and skips one that
  was deleted before its turn.\<close>

fun forEach :: "('l \<Rightarrow> 'l py_executor stmt) \<Rightarrow> 'l list \<Rightarrow> 'l py_executor stmt" where
  "forEach f [] = js_skip"
| "forEach f (cb # cbs) =
     js_seq (js_cond (\<lambda>st. cb \<in> set (py_listeners st)) (f cb) js_skip) (forEach f cbs)"

text \<open>\<open>this.worker.onmessage\<close> (executor.js, lines 17 to 26), for any listeners:
  \<open>call cb msg\<close> is what the registered function \<open>cb\<close> does when it is called with
  \<open>msg\<close>, which may be anything, throwing and changing the executor included.\<close>

definition worker_onmessage ::
  "('l \<Rightarrow> wmsg \<Rightarrow> 'l py_executor stmt) \<Rightarrow> randoms \<Rightarrow> wmsg option \<Rightarrow> 'l py_executor stmt" where
  "worker_onmessage call rnd e =
     (let msg = default_opt e empty_wmsg in
      if truthy (m_token msg) \<and> m_token msg \<noteq> Some (rnd_py_token rnd) then js_skip
      else js_block [
        js_when (m_type msg = Some ''ready'') (js_assign (\<lambda>st. st\<lparr>py_ready := True\<rparr>)),
        (\<lambda>st. forEach (\<lambda>cb. js_try (call cb msg) (\<lambda>_. js_skip)) (py_listeners st) st)])"

section \<open>The Python branch of runCode (virtualizer.js, lines 62 to 96)\<close>

definition py_timer_callback :: "py_host callback \<Rightarrow> run_env \<Rightarrow> py_host stmt" where
  "py_timer_callback onEvent env =
     js_cond (\<lambda>st. \<not> rc_finished st)
       (js_block [
          emit onEvent env ''timeout''
            (no_payload\<lparr>p_message :=
               Some (''Execution timed out after '' @ string_of_nat (timeoutMs env) @ ''ms'')\<rparr>),
          dispose])
       js_skip"

definition run_finally :: "py_host callback \<Rightarrow> run_env \<Rightarrow> py_host stmt" where
  "run_finally onEvent env =
     js_cond (\<lambda>st. \<not> rc_finished st)
       (js_block [
          js_assign (\<lambda>st. st\<lparr>rc_finished := True\<rparr>),
          js_assign (\<lambda>st. st\<lparr>rc_timer := None\<rparr>),
          emit onEvent env ''done'' no_payload])
       js_skip"

text \<open>The microtasks that follow a host task: once \<open>run\<close> is resumed it posts the
  \<open>run\<close> message and returns, so its promise settles and \<open>finally\<close> runs; \<open>catch\<close>
  swallows a rejection.\<close>

definition microtasks :: "py_host callback \<Rightarrow> run_env \<Rightarrow> randoms \<Rightarrow> py_host stmt" where
  "microtasks onEvent env rnd =
     js_cond (\<lambda>st. rc_run st = Resumed)
       (js_block [
          js_assign (\<lambda>st. st\<lparr>rc_run := Completed\<rparr>),
          js_try (js_finally (run_continue env rnd) (run_finally onEvent env)) (\<lambda>_. js_skip)])
       js_skip"

definition py_stop :: "py_host stmt" where
  "py_stop = js_block [
     js_try (js_assign (\<lambda>st. st\<lparr>rc_timer := None\<rparr>)) (\<lambda>_. js_skip),
     js_try (off RunnerListener) (\<lambda>_. js_skip),
     dispose]"

definition runPython :: "py_host callback \<Rightarrow> run_env \<Rightarrow> randoms \<Rightarrow> py_host stmt" where
  "runPython onEvent env rnd = js_block [
     onMessage RunnerListener,
     js_assign (\<lambda>st. st\<lparr>rc_finished := False\<rparr>),
     js_assign (\<lambda>st. st\<lparr>rc_timer := Some (timeoutMs env)\<rparr>),
     run_begin env rnd,
     microtasks onEvent env rnd]"

section \<open>runCode and the host event loop (virtualizer.js)\<close>

text \<open>What a run holds after \<open>runCode\<close> returned: the JavaScript runner with its iframe,
  the Python executor with its worker, or no isolation context at all.\<close>

datatype run_state = JsRun js_host | PyRun py_host | NoRun outer

definition events :: "run_state \<Rightarrow> event list" where
  "events st = (case st of JsRun h \<Rightarrow> delivered h | PyRun h \<Rightarrow> delivered h | NoRun h \<Rightarrow> delivered h)"

definition js_family :: "string \<Rightarrow> bool" where
  "js_family l = (l = ''javascript'' \<or> l = ''js'' \<or> l = ''typescript'' \<or> l = ''ts'')"

definition py_family :: "string \<Rightarrow> bool" where
  "py_family l = (l = ''python'' \<or> l = ''py'')"

definition jenv_of :: "run_env \<Rightarrow> randoms \<Rightarrow> js_env" where
  "jenv_of env rnd =
     js_resolve (code env)
       \<lparr>jo_timeoutMs = Some (timeoutMs env), jo_maxLogBytes = Some (maxLogBytes env)\<rparr> rnd"

definition js_host_of :: "outer \<Rightarrow> js_host" where
  "js_host_of h =
     \<lparr>delivered = delivered h, totalLogBytes = totalLogBytes h,
      truncatedNotified = truncatedNotified h,
      js_finished = False, js_totalLogBytes = 0, js_truncatedNotified = False,
      js_listening = False, js_iframe = False, js_timer = None, js_posted = []\<rparr>"

text \<open>\<open>new PythonExecutor({ indexURL })\<close>.\<close>

definition py_host_of :: "outer \<Rightarrow> py_host" where
  "py_host_of h =
     \<lparr>delivered = delivered h, totalLogBytes = totalLogBytes h,
      truncatedNotified = truncatedNotified h,
      py_worker = False, py_listeners = [], py_ready = False, py_posted = [],
      py_terminated = 0, rc_finished = False, rc_timer = None, rc_run = AwaitingReady\<rparr>"

definition in_js :: "js_host stmt \<Rightarrow> js_host \<Rightarrow> exn option \<times> run_state" where
  "in_js f h = (case f h of (r, h') \<Rightarrow> (r, JsRun h'))"

definition in_py :: "py_host stmt \<Rightarrow> py_host \<Rightarrow> exn option \<times> run_state" where
  "in_py f h = (case f h of (r, h') \<Rightarrow> (r, PyRun h'))"

definition in_none :: "outer stmt \<Rightarrow> outer \<Rightarrow> exn option \<times> run_state" where
  "in_none f h = (case f h of (r, h') \<Rightarrow> (r, NoRun h'))"

text \<open>\<open>runCode\<close> up to its \<open>return\<close>, and for Python the microtasks that follow it.
  What is emitted before the \<open>return\<close> reaches a consumer that has no \<open>stop\<close> yet.\<close>

definition runCode :: "consumer \<Rightarrow> run_env \<Rightarrow> randoms \<Rightarrow> exn option \<times> run_state" where
  "runCode consumer env rnd =
     (case emit (call_consumer consumer js_skip) env ''init'' no_payload
             \<lparr>delivered = [], totalLogBytes = 0, truncatedNotified = False\<rparr> of
        (Some e, h) \<Rightarrow> (Some e, NoRun h)
      | (None, h) \<Rightarrow>
          if js_family (language env) then
            in_js (runJavaScript (js_onEvent (call_consumer consumer js_skip) env)
                     (jenv_of env rnd)) (js_host_of h)
          else if py_family (language env) then
            in_py (runPython (call_consumer consumer py_stop) env rnd) (py_host_of h)
          else
            in_none (js_block [
              emit (call_consumer consumer js_skip) env ''error''
                (no_payload\<lparr>p_message := Some (''Unsupported language: '' @ language env)\<rparr>),
              emit (call_consumer consumer js_skip) env ''done'' no_payload]) h)"

text \<open>What the host's event loop can run after \<open>runCode\<close> returned: a \<open>message\<close> event
  on the window, the iframe's \<open>load\<close> event, a message from the worker, the expiry of the
  timer, and the consumer calling the returned \<open>stop\<close> as a task of its own. The window
  listener is called while it is registered, and the timer's callback while the timer is
  armed; a message of the worker is handled whenever it arrives, also one that a browser
  would no longer deliver after \<open>terminate\<close>. Creating the iframe and the worker is taken
  to succeed.\<close>

datatype stimulus =
    WindowMessage "win_data option"
  | IframeLoad
  | WorkerMessage "wmsg option"
  | TimerFire
  | StopCall

definition js_task :: "consumer \<Rightarrow> run_env \<Rightarrow> randoms \<Rightarrow> stimulus \<Rightarrow> js_host stmt" where
  "js_task consumer env rnd stim =
     (case stim of
        WindowMessage e \<Rightarrow>
          js_cond js_listening
            (handleMsg (js_onEvent (call_consumer consumer js_stop) env) (jenv_of env rnd) e)
            js_skip
      | IframeLoad \<Rightarrow> execute (jenv_of env rnd)
      | TimerFire \<Rightarrow>
          js_cond (\<lambda>st. js_timer st \<noteq> None)
            (js_block [
               js_assign (\<lambda>st. st\<lparr>js_timer := None\<rparr>),
               js_timer_callback (js_onEvent (call_consumer consumer js_stop) env)
                 (jenv_of env rnd)])
            js_skip
      | StopCall \<Rightarrow> js_stop
      | WorkerMessage _ \<Rightarrow> js_skip)"

definition py_task :: "consumer \<Rightarrow> run_env \<Rightarrow> randoms \<Rightarrow> stimulus \<Rightarrow> py_host stmt" where
  "py_task consumer env rnd stim =
     (case stim of
        WorkerMessage e \<Rightarrow>
          js_block [worker_onmessage (call_listener (call_consumer consumer py_stop) env) rnd e,
                    microtasks (call_consumer consumer py_stop) env rnd]
      | TimerFire \<Rightarrow>
          js_cond (\<lambda>st. rc_timer st \<noteq> None)
            (js_block [
               js_assign (\<lambda>st. st\<lparr>rc_timer := None\<rparr>),
               py_timer_callback (call_consumer consumer py_stop) env])
            js_skip
      | StopCall \<Rightarrow> py_stop
      | WindowMessage _ \<Rightarrow> js_skip
      | IframeLoad \<Rightarrow> js_skip)"

definition task :: "consumer \<Rightarrow> run_env \<Rightarrow> randoms \<Rightarrow> stimulus \<Rightarrow> run_state stmt" where
  "task consumer env rnd stim st =
     (case st of
        JsRun h \<Rightarrow> in_js (js_task consumer env rnd stim) h
      | PyRun h \<Rightarrow> in_py (py_task consumer env rnd stim) h
      | NoRun h \<Rightarrow> (None, NoRun h))"

text \<open>The host tasks in the order they run. An exception that leaves a task is reported
  by the browser and does not stop later tasks; the first component collects them.\<close>

fun tasks ::
  "consumer \<Rightarrow> run_env \<Rightarrow> randoms \<Rightarrow> stimulus list \<Rightarrow> exn list \<times> run_state \<Rightarrow> exn list \<times> run_state"
  where
  "tasks consumer env rnd [] acc = acc"
| "tasks consumer env rnd (stim # stims) (es, st) =
     (case task consumer env rnd stim st of
        (None, st') \<Rightarrow> tasks consumer env rnd stims (es, st')
      | (Some e, st') \<Rightarrow> tasks consumer env rnd stims (es @ [e], st'))"

definition execution ::
  "consumer \<Rightarrow> run_options option \<Rightarrow> randoms \<Rightarrow> stimulus list \<Rightarrow> exn list \<times> run_state" where
  "execution consumer options rnd stims =
     (let env = resolve_options options rnd in
      case runCode consumer env rnd of
        (None, st) \<Rightarrow> tasks consumer env rnd stims ([], st)
      | (Some e, st) \<Rightarrow> tasks consumer env rnd stims ([e], st))"

definition stream :: "consumer \<Rightarrow> run_options option \<Rightarrow> randoms \<Rightarrow> stimulus list \<Rightarrow> event list" where
  "stream consumer options rnd stims = events (snd (execution consumer options rnd stims))"

section \<open>The Pyodide worker (pyWorker.js)\<close>

text \<open>A value thrown in the worker: its \<open>message\<close> property and what \<open>String\<close> makes of it.\<close>

record js_error =
  err_message :: "string option"
  err_string :: string

definition error_text :: "js_error \<Rightarrow> string" where
  "error_text err = or_else (err_message err) (err_string err)"

text \<open>The interpreter is outside the repository. What the worker sees of it: whether
  loading it succeeds, fails or never ends; whether the redirection script raises; and,
  for a program, the non-redirected view of its run: the strings it writes to
  \<open>sys.stdout\<close> and \<open>sys.stderr\<close> in order, and whether it ends with a value
  (\<open>None\<close> for \<open>null\<close>/\<open>undefined\<close>, else its \<open>String\<close>), raises, or never returns.\<close>

datatype std = StdOut | StdErr

datatype py_outcome =
    Returns "(std \<times> string) list" "string option"
  | Raises "(std \<times> string) list" js_error
  | Diverges "(std \<times> string) list"

datatype load_outcome = Loaded | LoadThrows js_error | LoadHangs

record pyodide =
  py_load :: load_outcome
  py_install :: "js_error option"
  py_run :: "string \<Rightarrow> py_outcome"

record worker =
  initialized :: bool
  w_indexURL :: string
  currentToken :: "string option"

definition worker0 :: worker where
  "worker0 = \<lparr>initialized = False,
              w_indexURL = ''https://cdn.jsdelivr.net/pyodide/v0.24.1/full/'',
              currentToken = None\<rparr>"

text \<open>What the worker does while it handles one message, in order.\<close>

datatype action =
    LoadPyodide string
  | ExposeBridge
  | Post wmsg
  | InstallRedirection
  | Evaluate string

datatype ending = Returned | NeverReturns

record handled =
  w_trace :: "action list"
  w_after :: worker
  w_ending :: ending

definition posts :: "action list \<Rightarrow> wmsg list" where
  "posts tr = concat (map (\<lambda>a. case a of Post m \<Rightarrow> [m] | _ \<Rightarrow> []) tr)"

definition wpost :: "string \<Rightarrow> string option \<Rightarrow> string option \<Rightarrow> wmsg" where
  "wpost type tok rid = empty_wmsg\<lparr>m_type := Some type, m_token := tok, m_runId := rid\<rparr>"

text \<open>The handler's outer \<open>catch\<close>.\<close>

definition outer_catch :: "action list \<Rightarrow> worker \<Rightarrow> js_error \<Rightarrow> handled" where
  "outer_catch tr w err =
     \<lparr>w_trace = tr @ [Post ((wpost ''error'' (currentToken w) None)
                            \<lparr>m_message := Some (error_text err)\<rparr>)],
      w_after = w, w_ending = Returned\<rparr>"

definition std_name :: "std \<Rightarrow> string" where
  "std_name k = (case k of StdOut \<Rightarrow> ''stdout'' | StdErr \<Rightarrow> ''stderr'')"

text \<open>The catchers' \<open>write\<close>: an empty string is not forwarded; \<open>postStd\<close> posts the rest.\<close>

definition postStd :: "worker \<Rightarrow> string option \<Rightarrow> std \<times> string \<Rightarrow> action list" where
  "postStd w rid wr =
     (if snd wr = [] then []
      else [Post ((wpost (std_name (fst wr)) (currentToken w) rid)\<lparr>m_text := Some (snd wr)\<rparr>)])"

definition endsWith_slash :: "string \<Rightarrow> bool" where
  "endsWith_slash s = (s \<noteq> [] \<and> last s = CHR ''/'')"

text \<open>\<open>loadPyodideIfNeeded\<close>, then the rest of the handler \<open>k\<close>.\<close>

definition loadPyodideIfNeeded ::
  "pyodide \<Rightarrow> action list \<Rightarrow> worker \<Rightarrow> (action list \<Rightarrow> worker \<Rightarrow> handled) \<Rightarrow> handled" where
  "loadPyodideIfNeeded py tr w k =
     (if initialized w then k tr w
      else (case py_load py of
              Loaded \<Rightarrow> k (tr @ [LoadPyodide (w_indexURL w)]) (w\<lparr>initialized := True\<rparr>)
            | LoadThrows err \<Rightarrow> outer_catch (tr @ [LoadPyodide (w_indexURL w)]) w err
            | LoadHangs \<Rightarrow>
                \<lparr>w_trace = tr @ [LoadPyodide (w_indexURL w)], w_after = w,
                 w_ending = NeverReturns\<rparr>))"

definition self_onmessage :: "pyodide \<Rightarrow> hmsg option \<Rightarrow> worker \<Rightarrow> handled" where
  "self_onmessage py e w0 =
     (let msg = default_opt e
            \<lparr>h_type = None, h_token = None, h_runId = None, h_code = None, h_indexURL = None\<rparr>
      in
      if h_type msg = Some ''init'' then
        (let w1 = (if truthy (h_indexURL msg)
                   then (let u = or_else (h_indexURL msg) [] in
                         w0\<lparr>w_indexURL := (if endsWith_slash u then u else u @ ''/'')\<rparr>)
                   else w0);
             w2 = w1\<lparr>currentToken := (if truthy (h_token msg) then h_token msg else None)\<rparr>
         in loadPyodideIfNeeded py [] w2
              (\<lambda>tr w. \<lparr>w_trace = tr @ [Post (wpost ''ready'' (currentToken w) None)],
                        w_after = w, w_ending = Returned\<rparr>))
      else if h_type msg = Some ''run'' then
        loadPyodideIfNeeded py [] w0
          (\<lambda>tr w.
             if \<not> truthy (h_token msg) \<or> h_token msg \<noteq> currentToken w then
               \<lparr>w_trace = tr, w_after = w, w_ending = Returned\<rparr>
             else
               (let rid = (if truthy (h_runId msg) then h_runId msg else None);
                    tr1 = tr @ [ExposeBridge, Post (wpost ''start'' (currentToken w) rid),
                                InstallRedirection]
                in case py_install py of
                     Some err \<Rightarrow> outer_catch tr1 w err
                   | None \<Rightarrow>
                       (let src = or_else (h_code msg) [];
                            tr2 = tr1 @ [Evaluate src]
                        in case py_run py src of
                             Returns ws v \<Rightarrow>
                               \<lparr>w_trace = tr2 @ concat (map (postStd w rid) ws) @
                                   [Post ((wpost ''result'' (currentToken w) rid)
                                            \<lparr>m_value := Some (default_opt v [])\<rparr>)],
                                w_after = w, w_ending = Returned\<rparr>
                           | Raises ws err \<Rightarrow>
                               \<lparr>w_trace = tr2 @ concat (map (postStd w rid) ws) @
                                   [Post ((wpost ''error'' (currentToken w) rid)
                                            \<lparr>m_message := Some (error_text err)\<rparr>)],
                                w_after = w, w_ending = Returned\<rparr>
                           | Diverges ws \<Rightarrow>
                               \<lparr>w_trace = tr2 @ concat (map (postStd w rid) ws),
                                w_after = w, w_ending = NeverReturns\<rparr>)))
      else \<lparr>w_trace = [], w_after = w0, w_ending = Returned\<rparr>)"

section \<open>The snippet server (server/index.js)\<close>

text \<open>A JavaScript string is a sequence of UTF-16 code units; \<open>.length\<close> counts them.\<close>

type_synonym js_string = "16 word list"

definition js_str :: "string \<Rightarrow> js_string" where
  "js_str s = map (\<lambda>c. of_nat (of_char c)) s"

datatype json =
    JNull
  | JBool bool
  | JNum int
  | JStr js_string
  | JArr "json list"
  | JObj "(js_string \<times> json) list"

text \<open>The three properties the handler destructures from \<open>req.body || {}\<close>; \<open>None\<close> is
  a property that is missing.\<close>

record post_body =
  b_code :: "json option"
  b_language :: "json option"
  b_meta :: "json option"

record snippet =
  s_id :: string
  s_code :: js_string
  s_language :: json
  s_meta :: json
  s_createdAt :: "int option"

text \<open>The object held in the data file, as the list of its own properties in the order
  JavaScript enumerates them: canonical array indices first, ascending, then the other
  keys in the order they were added.\<close>

type_synonym store = "(string \<times> snippet) list"

definition is_digit :: "char \<Rightarrow> bool" where
  "is_digit c = (48 \<le> (of_char c :: nat) \<and> (of_char c :: nat) \<le> 57)"

definition digits_value :: "string \<Rightarrow> nat" where
  "digits_value s = foldl (\<lambda>n c. 10 * n + ((of_char c :: nat) - 48)) 0 s"

definition array_index :: "string \<Rightarrow> nat option" where
  "array_index k =
     (if k \<noteq> [] \<and> list_all is_digit k \<and> (k = ''0'' \<or> hd k \<noteq> CHR ''0'')
         \<and> digits_value k < 2 ^ 32 - 1
      then Some (digits_value k) else None)"

fun insert_index :: "nat \<Rightarrow> string \<times> snippet \<Rightarrow> store \<Rightarrow> store" where
  "insert_index n kv [] = [kv]"
| "insert_index n kv (p # ps) =
     (case array_index (fst p) of
        Some m \<Rightarrow> (if m < n then p # insert_index n kv ps else kv # p # ps)
      | None \<Rightarrow> kv # p # ps)"

text \<open>\<open>all[id] = v\<close>.\<close>

definition obj_set :: "store \<Rightarrow> string \<Rightarrow> snippet \<Rightarrow> store" where
  "obj_set all k v =
     (if k \<in> fst ` set all then map (\<lambda>p. if fst p = k then (k, v) else p) all
      else (case array_index k of
              Some n \<Rightarrow> insert_index n (k, v) all
            | None \<Rightarrow> all @ [(k, v)]))"

text \<open>\<open>all[id]\<close>: an own property, else what the object inherits from \<open>Object.prototype\<close>
  (the object comes from \<open>JSON.parse\<close>), else \<open>undefined\<close>.\<close>

definition object_prototype_keys :: "string list" where
  "object_prototype_keys =
     [''constructor'', ''__proto__'', ''hasOwnProperty'', ''isPrototypeOf'',
      ''propertyIsEnumerable'', ''toLocaleString'', ''toString'', ''valueOf'',
      ''__defineGetter__'', ''__defineSetter__'', ''__lookupGetter__'', ''__lookupSetter__'']"

datatype property = Own snippet | Inherited string | Undefined

definition obj_get :: "store \<Rightarrow> string \<Rightarrow> property" where
  "obj_get all k =
     (case map_of all k of
        Some v \<Rightarrow> Own v
      | None \<Rightarrow> (if k \<in> set object_prototype_keys then Inherited k else Undefined))"

datatype body =
    SnippetList "snippet list"
  | SnippetId string
  | SnippetBody snippet
  | ErrorBody string
  | InheritedBody string

record response =
  r_status :: nat
  r_body :: body

definition createdAt_or_0 :: "snippet \<Rightarrow> int" where
  "createdAt_or_0 sn = (case s_createdAt sn of None \<Rightarrow> 0 | Some t \<Rightarrow> t)"

text \<open>\<open>GET /api/snippets\<close>: \<open>sort\<close> is stable, and the comparator orders by
  \<open>createdAt || 0\<close>, larger first.\<close>

definition get_snippets :: "store \<Rightarrow> response" where
  "get_snippets all =
     \<lparr>r_status = 200,
      r_body = SnippetList (take 100 (sort_key (\<lambda>sn. - createdAt_or_0 sn) (map snd all)))\<rparr>"

text \<open>\<open>POST /api/snippets\<close>, with the id \<open>nanoid(10)\<close> returns and the clock.\<close>

definition post_snippet :: "post_body \<Rightarrow> string \<Rightarrow> int \<Rightarrow> store \<Rightarrow> response \<times> store" where
  "post_snippet b new_id now all =
     (let c = default_opt (b_code b) (JStr []);
          l = default_opt (b_language b) (JStr (js_str ''python''));
          m = default_opt (b_meta b) (JObj [])
      in case c of
           JStr cs \<Rightarrow>
             (if length cs > 200000 then
                (\<lparr>r_status = 400, r_body = ErrorBody ''Invalid code''\<rparr>, all)
              else
                (\<lparr>r_status = 200, r_body = SnippetId new_id\<rparr>,
                 obj_set all new_id
                   \<lparr>s_id = new_id, s_code = cs, s_language = l, s_meta = m,
                    s_createdAt = Some now\<rparr>))
         | _ \<Rightarrow> (\<lparr>r_status = 400, r_body = ErrorBody ''Invalid code''\<rparr>, all))"

text \<open>\<open>GET /api/snippets/:id\<close>.\<close>

definition get_snippet :: "store \<Rightarrow> string \<Rightarrow> response" where
  "get_snippet all k =
     (case obj_get all k of
        Undefined \<Rightarrow> \<lparr>r_status = 404, r_body = ErrorBody ''Not found''\<rparr>
      | Own sn \<Rightarrow> \<lparr>r_status = 200, r_body = SnippetBody sn\<rparr>
      | Inherited p \<Rightarrow> \<lparr>r_status = 200, r_body = InheritedBody p\<rparr>)"

section \<open>Notions used in the statements and proofs\<close>

text \<open>What \<open>stop\<close> does to the state of a JavaScript and of a Python run, and what one
  delivery does: the event is recorded and, when the consumer calls \<open>stop\<close>, the run is
  stopped.\<close>

definition js_stopped :: "js_host \<Rightarrow> js_host" where
  "js_stopped h = h\<lparr>js_timer := None, js_listening := False, js_iframe := False\<rparr>"

definition py_stopped :: "py_host \<Rightarrow> py_host" where
  "py_stopped h =
     h\<lparr>rc_timer := None,
       py_terminated := (if py_worker h then py_terminated h + 1 else py_terminated h),
       py_worker := False, py_ready := False, py_listeners := []\<rparr>"

definition reacting ::
  "consumer \<Rightarrow> ('a outer_scheme \<Rightarrow> 'a outer_scheme) \<Rightarrow> event \<Rightarrow> 'a outer_scheme \<Rightarrow> 'a outer_scheme" where
  "reacting consumer stopped ev h =
     (if r_stops (consumer (delivered h) ev) then stopped (h\<lparr>delivered := delivered h @ [ev]\<rparr>)
      else h\<lparr>delivered := delivered h @ [ev]\<rparr>)"

definition emitted ::
  "consumer \<Rightarrow> ('a outer_scheme \<Rightarrow> 'a outer_scheme) \<Rightarrow> run_env \<Rightarrow> string \<Rightarrow> payload \<Rightarrow>
     ('a outer_scheme) stmt" where
  "emitted consumer stopped env type pl h = (None, reacting consumer stopped (mk_event env type pl) h)"

text \<open>Stopping a run touches neither the record of what was delivered nor the budget.\<close>

definition keeps :: "('a outer_scheme \<Rightarrow> 'a outer_scheme) \<Rightarrow> bool" where
  "keeps stopped =
     (\<forall>h. delivered (stopped h) = delivered h \<and> totalLogBytes (stopped h) = totalLogBytes h \<and>
          truncatedNotified (stopped h) = truncatedNotified h)"

text \<open>The consumer that never calls \<open>stop\<close> from inside its callback, and a consumer
  stripped of its exceptions.\<close>

definition patient :: "consumer \<Rightarrow> bool" where
  "patient consumer = (\<forall>h e. \<not> r_stops (consumer h e))"

definition calm :: "consumer \<Rightarrow> consumer" where
  "calm consumer h e = (consumer h e)\<lparr>r_throws := None\<rparr>"

text \<open>A callback that does what \<open>cb\<close> does, but returns where \<open>cb\<close> throws.\<close>

definition hushed :: "('e \<Rightarrow> 's stmt) \<Rightarrow> 'e \<Rightarrow> 's stmt" where
  "hushed cb ev s = (None, snd (cb ev s))"

definition safe :: "'s stmt \<Rightarrow> bool" where
  "safe f = (\<forall>s. fst (f s) = None)"

definition silent :: consumer where
  "silent h e = \<lparr>r_stops = False, r_throws = None\<rparr>"

definition terminal :: "event \<Rightarrow> bool" where
  "terminal e = (ev_type e = ''done'' \<or> ev_type e = ''error'' \<or> ev_type e = ''timeout'')"

definition js_dead :: "js_host \<Rightarrow> bool" where
  "js_dead h = (\<not> js_listening h \<and> js_timer h = None)"

definition js_inv :: "js_host \<Rightarrow> bool" where
  "js_inv h =
     ((js_finished h \<longrightarrow> js_dead h \<and> terminal (last (delivered h))) \<and>
      length (filter terminal (delivered h)) = (if js_finished h then 1 else 0) \<and>
      delivered h \<noteq> [] \<and> ev_type (hd (delivered h)) = ''init'')"

definition budgeted ::
  "consumer \<Rightarrow> ('a outer_scheme \<Rightarrow> 'a outer_scheme) \<Rightarrow> run_env \<Rightarrow> string \<Rightarrow> string option \<Rightarrow>
     string \<Rightarrow> 'a outer_scheme \<Rightarrow> 'a outer_scheme" where
  "budgeted consumer stopped env type text level h =
     (if totalLogBytes h + byteLength (or_else text []) \<le> maxLogBytes env then
        reacting consumer stopped
          (mk_event env type (no_payload\<lparr>p_text := Some (or_else text []), p_level := Some level\<rparr>))
          (h\<lparr>totalLogBytes := totalLogBytes h + byteLength (or_else text [])\<rparr>)
      else if \<not> truncatedNotified h then
        reacting consumer stopped
          (mk_event env ''log''
             (no_payload\<lparr>p_level := Some ''warn'', p_text := Some ''[output truncated]''\<rparr>))
          (h\<lparr>truncatedNotified := True\<rparr>)
      else h)"

definition run_from ::
  "consumer \<Rightarrow> run_env \<Rightarrow> randoms \<Rightarrow> run_state \<Rightarrow> stimulus list \<Rightarrow> run_state" where
  "run_from consumer env rnd st stims =
     foldl (\<lambda>st stim. snd (task consumer env rnd stim st)) st stims"

definition js_ok :: "run_state \<Rightarrow> bool" where
  "js_ok st = (case st of JsRun h \<Rightarrow> js_inv h | _ \<Rightarrow> False)"

definition js_done :: "run_state \<Rightarrow> bool" where
  "js_done st = (case st of JsRun h \<Rightarrow> js_finished h | _ \<Rightarrow> False)"

definition js_alive :: "run_state \<Rightarrow> bool" where
  "js_alive st = (case st of JsRun h \<Rightarrow> js_finished h \<or> js_timer h \<noteq> None | _ \<Rightarrow> False)"

definition is_output :: "event \<Rightarrow> bool" where
  "is_output e = (ev_type e = ''stdout'' \<or> ev_type e = ''stderr'')"

definition text_bytes :: "event \<Rightarrow> nat" where
  "text_bytes e = byteLength (or_else (p_text (ev_payload e)) [])"

definition output_bytes :: "event list \<Rightarrow> nat" where
  "output_bytes evs = sum_list (map text_bytes (filter is_output evs))"

definition is_log :: "event \<Rightarrow> bool" where
  "is_log e = (ev_type e = ''log'')"

definition budget_ok :: "run_env \<Rightarrow> 'a outer_scheme \<Rightarrow> bool" where
  "budget_ok env h = (output_bytes (delivered h) = totalLogBytes h \<and> totalLogBytes h \<le> maxLogBytes env)"

definition warned_once :: "'a outer_scheme \<Rightarrow> bool" where
  "warned_once h =
     ((truncatedNotified h \<longrightarrow> length (filter is_log (delivered h)) = 1) \<and>
      (\<not> truncatedNotified h \<longrightarrow> filter is_log (delivered h) = []))"

text \<open>The warning of the orchestrator's gate, and what the gate adds to a stream \<open>evs\<close>
  when an output arrives: the output while it fits in what is left of the budget, else the
  warning when it was not given before, else nothing.\<close>

definition truncation_warning :: "run_env \<Rightarrow> event" where
  "truncation_warning env =
     mk_event env ''log'' (no_payload\<lparr>p_level := Some ''warn'', p_text := Some ''[output truncated]''\<rparr>)"

definition gated ::
  "run_env \<Rightarrow> event list \<Rightarrow> bool \<Rightarrow> string \<Rightarrow> string option \<Rightarrow> string \<Rightarrow> event list" where
  "gated env evs warned type text level =
     (if output_bytes evs + byteLength (or_else text []) \<le> maxLogBytes env then
        [mk_event env type (no_payload\<lparr>p_text := Some (or_else text []), p_level := Some level\<rparr>)]
      else if warned then []
      else [truncation_warning env])"

definition log_text :: "win_data \<Rightarrow> string" where
  "log_text d = join_space (default_opt (d_args d) [])"

text \<open>Whether the runner takes a \<open>log\<close> message whose text does not fit in what is left
  of its own budget, and whether the runner has given its own warning.\<close>

definition js_overflows :: "run_env \<Rightarrow> randoms \<Rightarrow> win_data \<Rightarrow> run_state \<Rightarrow> bool" where
  "js_overflows env rnd d st =
     (case st of
        JsRun h \<Rightarrow>
          js_listening h \<and> \<not> js_finished h \<and> d_runner d \<and> d_type d = Some ''log'' \<and>
          d_token d = Some (js_token (jenv_of env rnd)) \<and>
          \<not> js_totalLogBytes h + byteLength (log_text d) \<le> js_maxLogBytes (jenv_of env rnd)
      | _ \<Rightarrow> False)"

definition js_warned :: "run_state \<Rightarrow> bool" where
  "js_warned st = (case st of JsRun h \<Rightarrow> js_truncatedNotified h | _ \<Rightarrow> False)"

text \<open>Whether the gate has given its warning (the variable \<open>truncatedNotified\<close> of
  \<open>runCode\<close>), and whether the listener of \<open>runCode\<close> is still registered.\<close>

definition notified :: "run_state \<Rightarrow> bool" where
  "notified st =
     (case st of JsRun h \<Rightarrow> truncatedNotified h | PyRun h \<Rightarrow> truncatedNotified h
      | NoRun h \<Rightarrow> truncatedNotified h)"

definition py_listening :: "run_state \<Rightarrow> bool" where
  "py_listening st = (case st of PyRun h \<Rightarrow> RunnerListener \<in> set (py_listeners h) | _ \<Rightarrow> False)"

text \<open>The text of a \<open>log\<close> message of the iframe, and whether the JavaScript runner
  takes the message and forwards it: the runner listens and has not finished, the message
  is its own, and the text fits in what is left of the runner's own budget.\<close>

definition js_forwards :: "run_env \<Rightarrow> randoms \<Rightarrow> win_data \<Rightarrow> run_state \<Rightarrow> bool" where
  "js_forwards env rnd d st =
     (case st of
        JsRun h \<Rightarrow>
          js_listening h \<and> \<not> js_finished h \<and> d_runner d \<and> d_type d = Some ''log'' \<and>
          d_token d = Some (js_token (jenv_of env rnd)) \<and>
          js_totalLogBytes h + byteLength (log_text d) \<le> js_maxLogBytes (jenv_of env rnd)
      | _ \<Rightarrow> False)"

definition flagged :: "run_env \<Rightarrow> bool \<Rightarrow> 'a outer_scheme \<Rightarrow> bool" where
  "flagged env b h =
     ((b \<longrightarrow> truncatedNotified h) \<and>
      (truncatedNotified h \<longrightarrow> truncation_warning env \<in> set (delivered h)))"

definition flag_kept :: "run_env \<Rightarrow> bool \<Rightarrow> run_state \<Rightarrow> bool" where
  "flag_kept env b st =
     (case st of JsRun h \<Rightarrow> flagged env b h | PyRun h \<Rightarrow> flagged env b h
      | NoRun h \<Rightarrow> flagged env b h)"

definition armed_timer :: "run_state \<Rightarrow> nat option" where
  "armed_timer st = (case st of JsRun h \<Rightarrow> js_timer h | PyRun h \<Rightarrow> rc_timer h | NoRun _ \<Rightarrow> None)"

definition unsupported_events :: "run_env \<Rightarrow> event list" where
  "unsupported_events env =
     [mk_event env ''init'' no_payload,
      mk_event env ''error''
        (no_payload\<lparr>p_message := Some (''Unsupported language: '' @ language env)\<rparr>),
      mk_event env ''done'' no_payload]"

text \<open>Concrete inputs for the examples below.\<close>

definition rnd0 :: randoms where
  "rnd0 = \<lparr>rnd_run = ''r1'', rnd_js_run = ''j1'', rnd_js_token = ''T1'', rnd_py_token = ''P1'',
           rnd_py_run = ''q1''\<rparr>"

definition opts0 :: "string \<Rightarrow> run_options" where
  "opts0 l = \<lparr>o_language = Some l, o_code = Some ''x'', o_timeoutMs = None,
              o_maxLogBytes = None, o_indexURL = None\<rparr>"

definition throwing :: consumer where
  "throwing h e = \<lparr>r_stops = False, r_throws = Some (Exn ''boom'')\<rparr>"

definition stops_on :: "string \<Rightarrow> consumer" where
  "stops_on t h e = \<lparr>r_stops = (ev_type e = t), r_throws = None\<rparr>"

text \<open>Whether, among the deliveries from the \<open>n\<close>-th on, there is one in which the
  consumer called \<open>stop\<close>; and what the run owes to such a call once the host task is
  over.\<close>

definition requested :: "consumer \<Rightarrow> nat \<Rightarrow> event list \<Rightarrow> bool" where
  "requested consumer n evs =
     list_ex (\<lambda>i. r_stops (consumer (take i evs) (evs ! i))) [n..<length evs]"

definition js_heeds :: "consumer \<Rightarrow> nat \<Rightarrow> js_host \<Rightarrow> bool" where
  "js_heeds consumer n h =
     (n \<le> length (delivered h) \<and>
      (\<not> requested consumer n (delivered h) \<or> (\<not> js_listening h \<and> js_timer h = None)))"

definition py_heeds :: "consumer \<Rightarrow> nat \<Rightarrow> py_host \<Rightarrow> bool" where
  "py_heeds consumer n h =
     (n \<le> length (delivered h) \<and>
      (\<not> requested consumer n (delivered h) \<or> (py_listeners h = [] \<and> rc_timer h = None)))"

definition py_prompt :: "consumer \<Rightarrow> nat \<Rightarrow> py_host \<Rightarrow> bool" where
  "py_prompt consumer n h =
     (py_heeds consumer n h \<and> \<not> requested consumer n (butlast (delivered h)))"

definition py_dispatching :: "consumer \<Rightarrow> nat \<Rightarrow> wmsg \<Rightarrow> py_host \<Rightarrow> bool" where
  "py_dispatching consumer n msg h =
     (py_prompt consumer n h \<and>
      (rc_run h \<noteq> Resumed \<or>
       (m_type msg = Some ''ready'' \<and> \<not> requested consumer n (delivered h))))"

definition prompt :: "consumer \<Rightarrow> nat \<Rightarrow> run_state \<Rightarrow> bool" where
  "prompt consumer n st =
     (case st of PyRun h \<Rightarrow> py_prompt consumer n h \<and> rc_run h \<noteq> Resumed | _ \<Rightarrow> False)"

definition heeds :: "consumer \<Rightarrow> nat \<Rightarrow> run_state \<Rightarrow> bool" where
  "heeds consumer n st =
     (case st of JsRun h \<Rightarrow> js_heeds consumer n h | PyRun h \<Rightarrow> py_heeds consumer n h
      | NoRun _ \<Rightarrow> True)"

text \<open>An executor with two listeners of some other owner: the first throws on every
  message, the second answers the worker.\<close>

definition rowdy :: "nat \<Rightarrow> wmsg \<Rightarrow> nat py_executor stmt" where
  "rowdy l m =
     (if l = 1 then js_throw (Exn ''boom'')
      else postMessage_py \<lparr>h_type = Some ''ack'', h_token = m_token m, h_runId = m_runId m,
                           h_code = None, h_indexURL = None\<rparr>)"

definition crowded :: "nat py_executor" where
  "crowded =
     \<lparr>delivered = [], totalLogBytes = 0, truncatedNotified = False,
      py_worker = True, py_listeners = [1, 2], py_ready = True, py_posted = [],
      py_terminated = 0, rc_finished = False, rc_timer = None, rc_run = Completed\<rparr>"

definition py_dead :: "py_host \<Rightarrow> bool" where
  "py_dead h = (py_listeners h = [] \<and> rc_timer h = None \<and> rc_run h \<noteq> Resumed)"

definition dead :: "run_state \<Rightarrow> bool" where
  "dead st = (case st of JsRun h \<Rightarrow> js_dead h | PyRun h \<Rightarrow> py_dead h | NoRun _ \<Rightarrow> True)"

definition settled :: "run_state \<Rightarrow> bool" where
  "settled st = (case st of PyRun h \<Rightarrow> rc_run h \<noteq> Resumed | _ \<Rightarrow> True)"

definition starts :: "event list \<Rightarrow> nat" where
  "starts evs = length (filter (\<lambda>e. ev_type e = ''start'') evs)"

definition start_message :: "stimulus \<Rightarrow> bool" where
  "start_message stim =
     (case stim of
        WindowMessage (Some d) \<Rightarrow> d_type d = Some ''start''
      | WorkerMessage (Some m) \<Rightarrow> m_type m = Some ''start''
      | _ \<Rightarrow> False)"

definition begun :: "run_state \<Rightarrow> bool" where
  "begun st = (events st \<noteq> [] \<and> ev_type (hd (events st)) = ''init'')"

definition tidy :: "run_state \<Rightarrow> bool" where
  "tidy st = (case st of PyRun h \<Rightarrow> distinct (py_listeners h) | _ \<Rightarrow> True)"

definition listener_call :: "py_host callback \<Rightarrow> run_env \<Rightarrow> wmsg \<Rightarrow> listener \<Rightarrow> py_host stmt" where
  "listener_call onEvent env msg cb = js_try (call_listener onEvent env cb msg) (\<lambda>_. js_skip)"

definition resumed :: "consumer \<Rightarrow> run_env \<Rightarrow> randoms \<Rightarrow> py_host \<Rightarrow> py_host" where
  "resumed consumer env rnd h =
     (let h1 = (if py_worker h then
                  h\<lparr>rc_run := Completed,
                    py_posted := py_posted h @
                      [\<lparr>h_type = Some ''run'', h_token = Some (rnd_py_token rnd),
                        h_runId = Some (''py_'' @ rnd_py_run rnd), h_code = Some (code env),
                        h_indexURL = None\<rparr>]\<rparr>
                else h\<lparr>rc_run := Completed\<rparr>)
      in if rc_finished h1 then h1
         else reacting consumer py_stopped (mk_event env ''done'' no_payload)
                (h1\<lparr>rc_finished := True, rc_timer := None\<rparr>))"

definition claimed_shape :: "event list \<Rightarrow> bool" where
  "claimed_shape evs =
     (length (filter (\<lambda>e. ev_type e = ''init'') evs) = 1 \<and> starts evs \<le> 1 \<and>
      length (filter terminal evs) = 1 \<and> evs \<noteq> [] \<and> ev_type (hd evs) = ''init'' \<and>
      terminal (last evs))"

text \<open>The stream of a run in which nothing is delivered after a delivery, from the
  \<open>n\<close>-th on, in which the consumer called \<open>stop\<close>.\<close>

definition claimed_stop :: "consumer \<Rightarrow> nat \<Rightarrow> event list \<Rightarrow> bool" where
  "claimed_stop consumer n evs = (\<not> requested consumer n (butlast evs))"

definition js_msg :: "string \<Rightarrow> string list \<Rightarrow> stimulus" where
  "js_msg t args =
     WindowMessage (Some \<lparr>d_runner = True, d_token = Some ''T1'', d_type = Some t,
       d_args = Some args, d_level = None, d_message = None, d_stack = None\<rparr>)"

definition py_msg :: "string \<Rightarrow> string option \<Rightarrow> stimulus" where
  "py_msg t x =
     WorkerMessage (Some \<lparr>m_type = Some t, m_token = Some ''P1'', m_runId = Some ''py_q1'',
       m_text = x, m_value = x, m_message = x\<rparr>)"

definition lifecycle :: "event \<Rightarrow> bool" where
  "lifecycle e = (\<not> is_output e \<and> \<not> is_log e)"

definition js_sim :: "js_host \<Rightarrow> js_host \<Rightarrow> bool" where
  "js_sim h h' =
     (js_finished h = js_finished h' \<and> js_listening h = js_listening h' \<and>
      js_timer h = js_timer h' \<and>
      filter lifecycle (delivered h) = filter lifecycle (delivered h'))"

definition py_sim :: "py_host \<Rightarrow> py_host \<Rightarrow> bool" where
  "py_sim h h' =
     (py_listeners h = py_listeners h' \<and> rc_finished h = rc_finished h' \<and>
      rc_timer h = rc_timer h' \<and> rc_run h = rc_run h' \<and> py_worker h = py_worker h' \<and>
      filter lifecycle (delivered h) = filter lifecycle (delivered h'))"

definition sim :: "run_state \<Rightarrow> run_state \<Rightarrow> bool" where
  "sim st st' =
     (case (st, st') of
        (JsRun h, JsRun h') \<Rightarrow> js_sim h h'
      | (PyRun h, PyRun h') \<Rightarrow> py_sim h h'
      | (NoRun h, NoRun h') \<Rightarrow> filter lifecycle (delivered h) = filter lifecycle (delivered h')
      | _ \<Rightarrow> False)"

definition py_budget :: "run_env \<Rightarrow> py_host \<Rightarrow> bool" where
  "py_budget env h = (budget_ok env h \<and> warned_once h)"

definition within_budget :: "run_env \<Rightarrow> run_state \<Rightarrow> bool" where
  "within_budget env st =
     (case st of JsRun h \<Rightarrow> budget_ok env h | PyRun h \<Rightarrow> py_budget env h
      | NoRun h \<Rightarrow> budget_ok env h)"

definition suppressed_after_warning :: "event list \<Rightarrow> bool" where
  "suppressed_after_warning evs =
     (case dropWhile (\<lambda>e. \<not> is_log e) evs of
        [] \<Rightarrow> True
      | w # rest \<Rightarrow> filter (\<lambda>e. is_output e \<or> is_log e) rest = [])"

definition claimed_budget :: "nat \<Rightarrow> event list \<Rightarrow> bool" where
  "claimed_budget limit evs = (output_bytes evs \<le> limit \<and> suppressed_after_warning evs)"

definition small_budget :: "string \<Rightarrow> run_options" where
  "small_budget l = (opts0 l)\<lparr>o_maxLogBytes := Some 10\<rparr>"

text \<open>The variables of the gate when 8 bytes were forwarded, with the warning given or
  not.\<close>

definition nearly_full :: "bool \<Rightarrow> outer" where
  "nearly_full warned = \<lparr>delivered = [], totalLogBytes = 8, truncatedNotified = warned\<rparr>"

definition looping :: pyodide where
  "looping = \<lparr>py_load = Loaded, py_install = None, py_run = (\<lambda>src. Diverges [])\<rparr>"

definition loop_options :: run_options where
  "loop_options = \<lparr>o_language = Some ''python'', o_code = Some ''while True: pass'',
                    o_timeoutMs = None, o_maxLogBytes = None, o_indexURL = None\<rparr>"

definition init_msg :: hmsg where
  "init_msg = \<lparr>h_type = Some ''init'', h_token = Some ''P1'', h_runId = None, h_code = None,
               h_indexURL = None\<rparr>"

definition run_msg :: hmsg where
  "run_msg = \<lparr>h_type = Some ''run'', h_token = Some ''P1'', h_runId = Some ''py_q1'',
              h_code = Some ''while True: pass'', h_indexURL = None\<rparr>"

definition posted :: "run_state \<Rightarrow> hmsg list" where
  "posted st = (case st of PyRun h \<Rightarrow> py_posted h | _ \<Rightarrow> [])"

definition disposals :: "run_state \<Rightarrow> nat" where
  "disposals st = (case st of PyRun h \<Rightarrow> py_terminated h | _ \<Rightarrow> 0)"

definition py_over :: "run_state \<Rightarrow> bool" where
  "py_over st =
     (case st of
        PyRun h \<Rightarrow> rc_finished h \<and> filter (\<lambda>e. ev_type e = ''timeout'') (delivered h) = []
      | _ \<Rightarrow> False)"

definition py_done :: "py_host \<Rightarrow> bool" where
  "py_done h = (rc_finished h \<and> filter (\<lambda>e. ev_type e = ''timeout'') (delivered h) = [])"

definition foreign :: "randoms \<Rightarrow> wmsg \<Rightarrow> bool" where
  "foreign rnd m = (truthy (m_token m) \<and> m_token m \<noteq> Some (rnd_py_token rnd))"

definition forged :: wmsg where
  "forged = \<lparr>m_type = Some ''stdout'', m_token = None, m_runId = None, m_text = Some ''forged'',
             m_value = None, m_message = None\<rparr>"

definition stale :: wmsg where
  "stale = \<lparr>m_type = Some ''stdout'', m_token = Some ''OLD'', m_runId = None, m_text = Some ''stale'',
            m_value = None, m_message = None\<rparr>"

definition keyed :: worker where
  "keyed = \<lparr>initialized = True, w_indexURL = ''https://cdn.jsdelivr.net/pyodide/v0.24.1/full/'',
            currentToken = Some ''P1''\<rparr>"

definition is_answer :: "wmsg \<Rightarrow> bool" where
  "is_answer m = (m_type m = Some ''result'' \<or> m_type m = Some ''error'')"

definition writes_of :: "py_outcome \<Rightarrow> (std \<times> string) list" where
  "writes_of out = (case out of Returns ws _ \<Rightarrow> ws | Raises ws _ \<Rightarrow> ws | Diverges ws \<Rightarrow> ws)"

definition terminates :: "py_outcome \<Rightarrow> bool" where
  "terminates out = (case out of Diverges _ \<Rightarrow> False | _ \<Rightarrow> True)"

definition answer_of :: "worker \<Rightarrow> string option \<Rightarrow> py_outcome \<Rightarrow> wmsg list" where
  "answer_of w rid out =
     (case out of
        Returns _ v \<Rightarrow>
          [(wpost ''result'' (currentToken w) rid)\<lparr>m_value := Some (default_opt v [])\<rparr>]
      | Raises _ err \<Rightarrow>
          [(wpost ''error'' (currentToken w) rid)\<lparr>m_message := Some (error_text err)\<rparr>]
      | Diverges _ \<Rightarrow> [])"

definition start_after_redirection :: "action list \<Rightarrow> bool" where
  "start_after_redirection tr =
     (InstallRedirection \<in> set (takeWhile (\<lambda>a. case a of Post m \<Rightarrow> m_type m \<noteq> Some ''start'' | _ \<Rightarrow> True) tr))"

definition claimed_run :: "action list \<Rightarrow> bool" where
  "claimed_run tr = (start_after_redirection tr \<and> length (filter is_answer (posts tr)) = 1)"

definition listed :: "store \<Rightarrow> snippet list" where
  "listed all = (case r_body (get_snippets all) of SnippetList sns \<Rightarrow> sns | _ \<Rightarrow> [])"

section \<open>No exception leaves a host task\<close>

lemmas stmt_defs = js_skip_def js_throw_def js_assign_def js_seq_def js_try_def js_when_def
  js_cond_def js_finally_def

lemma js_stop_stopped: "js_stop h = (None, js_stopped h)"
  by (simp add: js_stop_def clearTimeout_js_def cleanup_def js_stopped_def stmt_defs)

lemma py_stop_stopped: "py_stop h = (None, py_stopped h)"
  by (simp add: py_stop_def off_def dispose_def py_stopped_def stmt_defs)

lemma emit_stopping:
  assumes "\<And>s. stop s = (None, stopped s)"
  shows "emit (call_consumer consumer stop) env = emitted consumer stopped env"
  by (intro ext)
     (simp add: emit_def emitted_def reacting_def call_consumer_def assms stmt_defs Let_def
        split: option.splits)

lemma emit_js: "emit (call_consumer consumer js_stop) env = emitted consumer js_stopped env"
  by (rule emit_stopping) (rule js_stop_stopped)

lemma emit_py: "emit (call_consumer consumer py_stop) env = emitted consumer py_stopped env"
  by (rule emit_stopping) (rule py_stop_stopped)

lemma emit_skip: "emit (call_consumer consumer js_skip) env = emitted consumer (\<lambda>h. h) env"
  by (rule emit_stopping) (simp add: js_skip_def)

lemmas emit_emitted = emit_js emit_py emit_skip

lemma reacting_skip [simp]:
  "reacting consumer (\<lambda>h. h) ev h = h\<lparr>delivered := delivered h @ [ev]\<rparr>"
  by (simp add: reacting_def)

lemma reacting_patient:
  "patient consumer \<Longrightarrow> reacting consumer stopped ev h = h\<lparr>delivered := delivered h @ [ev]\<rparr>"
  by (simp add: reacting_def patient_def)

lemma reacting_calm [simp]: "reacting (calm consumer) stopped = reacting consumer stopped"
  by (intro ext) (simp add: reacting_def calm_def)

lemma emitted_calm [simp]: "emitted (calm consumer) stopped = emitted consumer stopped"
  by (intro ext) (simp add: emitted_def)

lemma safeD: "safe f \<Longrightarrow> f s = (r, s') \<Longrightarrow> r = None"
  unfolding safe_def by (metis fst_conv)

lemma safe_skip: "safe js_skip" by (simp add: safe_def js_skip_def)

lemma safe_assign: "safe (js_assign f)" by (simp add: safe_def js_assign_def)

lemma safe_seq: "safe a \<Longrightarrow> safe b \<Longrightarrow> safe (js_seq a b)"
  unfolding safe_def js_seq_def by (auto split: prod.splits option.splits) (metis fst_conv option.distinct(1))

lemma safe_block_Nil: "safe (js_block [])" by (simp add: safe_skip)

lemma safe_block_Cons: "safe a \<Longrightarrow> safe (js_block as) \<Longrightarrow> safe (js_block (a # as))" by (simp add: safe_seq)

lemma safe_try: "safe (js_try a (\<lambda>_. js_skip))"
  by (auto simp: safe_def js_try_def js_skip_def split: prod.splits option.splits)

lemma safe_when: "safe a \<Longrightarrow> safe (js_when c a)" by (simp add: js_when_def safe_skip)

lemma safe_cond: "safe a \<Longrightarrow> safe b \<Longrightarrow> safe (js_cond c a b)" by (simp add: safe_def js_cond_def)

lemma safe_emit: "safe (emit onEvent env type pl)" by (simp add: emit_def safe_try)

lemmas safe_intros = safe_skip safe_assign safe_seq safe_block_Nil safe_block_Cons safe_try safe_when safe_cond safe_emit

lemma safe_budgetedEmit: "safe (budgetedEmit onEvent env type text level)"
  unfolding budgetedEmit_def Let_def by (intro safe_intros)

lemma safe_js_emit: "safe (js_emit cb jenv type pl)"
  unfolding js_emit_def by (rule safe_try)

lemma safe_cleanup: "safe cleanup"
  unfolding cleanup_def by (intro safe_intros)

lemma safe_handleMsg: "safe (handleMsg cb jenv e)"
  unfolding handleMsg_def Let_def clearTimeout_js_def
  by (cases e) (auto intro!: safe_intros safe_js_emit safe_cleanup)

lemma safe_js_task: "safe (js_task consumer env rnd stim)"
  unfolding js_task_def js_timer_callback_def js_stop_def execute_def clearTimeout_js_def
  by (cases stim) (auto intro!: safe_intros safe_js_emit safe_cleanup safe_handleMsg)

lemma safe_forEach: "safe (forEach (\<lambda>cb. js_try (f cb) (\<lambda>_. js_skip)) cbs)"
  by (induction cbs) (auto intro!: safe_intros)

lemma safe_dispose: "safe dispose"
  unfolding dispose_def by (intro safe_intros)

lemma safe_worker_onmessage: "safe (worker_onmessage call rnd e)"
proof -
  let ?msg = "default_opt e empty_wmsg"
  have "safe (\<lambda>st. forEach (\<lambda>cb. js_try (call cb ?msg) (\<lambda>_. js_skip))
                 (py_listeners st) st)"
    by (simp add: safe_def safe_forEach[unfolded safe_def, rule_format])
  then show ?thesis
    unfolding worker_onmessage_def Let_def by (auto intro!: safe_intros)
qed

lemma safe_microtasks: "safe (microtasks onEvent env rnd)"
  unfolding microtasks_def by (intro safe_intros)

lemma safe_py_task: "safe (py_task consumer env rnd stim)"
  unfolding py_task_def py_timer_callback_def py_stop_def
  by (cases stim) (auto intro!: safe_intros safe_worker_onmessage safe_microtasks safe_dispose)

lemma task_no_throw: "fst (task consumer env rnd stim st) = None"
  using safe_js_task[of consumer env rnd stim] safe_py_task[of consumer env rnd stim]
  by (cases st) (auto simp: task_def in_js_def in_py_def split: prod.splits dest: safeD)

lemma task_no_throw_pair: "task consumer env rnd stim st = (Some e, st') \<Longrightarrow> False"
  using task_no_throw[of consumer env rnd stim st] by simp

lemma safe_runJavaScript: "safe (runJavaScript cb jenv)"
  unfolding runJavaScript_def by (intro safe_intros safe_js_emit)

lemma runPython_no_throw: "runPython onEvent env rnd (py_host_of h) = (r, s) \<Longrightarrow> r = None"
  by (simp add: runPython_def run_begin_def ensureWorker_def postMessage_py_def onMessage_def
       microtasks_def stmt_defs py_host_of_def split: prod.splits)

lemma runCode_no_throw: "fst (runCode consumer env rnd) = None"
  using safe_runJavaScript[of "js_onEvent (call_consumer consumer js_skip) env" "jenv_of env rnd"]
  by (auto simp: runCode_def emit_emitted emitted_def in_js_def in_py_def in_none_def stmt_defs
      split: prod.splits dest: safeD runPython_no_throw)

lemma tasks_no_throw: "fst (tasks consumer env rnd stims (es, st)) = es"
  by (induction stims arbitrary: st) (auto split: prod.splits option.splits dest: task_no_throw_pair)

lemma execution_no_throw: "fst (execution consumer options rnd stims) = []"
  using runCode_no_throw[of consumer "resolve_options options rnd" rnd]
  by (auto simp: execution_def Let_def tasks_no_throw split: prod.splits option.splits)

section \<open>What the consumer throws has no influence on the run\<close>

lemma emit_calm: "emit (call_consumer (calm consumer) stop) = emit (call_consumer consumer stop)"
  by (intro ext)
     (simp add: emit_def call_consumer_def calm_def stmt_defs Let_def
        split: prod.splits option.splits)

lemma budgetedEmit_calm:
  "budgetedEmit (call_consumer (calm consumer) stop) = budgetedEmit (call_consumer consumer stop)"
  by (intro ext) (simp add: budgetedEmit_def emit_calm)

lemma js_onEvent_calm:
  "js_onEvent (call_consumer (calm consumer) stop) = js_onEvent (call_consumer consumer stop)"
  by (intro ext) (simp add: js_onEvent_def budgetedEmit_calm emit_calm)

lemma runner_listener_calm:
  "runner_listener (call_consumer (calm consumer) stop) = runner_listener (call_consumer consumer stop)"
  by (intro ext) (simp add: runner_listener_def budgetedEmit_calm emit_calm)

lemma call_listener_calm:
  "call_listener (call_consumer (calm consumer) stop) = call_listener (call_consumer consumer stop)"
  by (intro ext) (simp add: call_listener_def runner_listener_calm split: listener.splits)

lemma worker_onmessage_calm:
  "worker_onmessage (call_listener (call_consumer (calm consumer) stop) env) =
     worker_onmessage (call_listener (call_consumer consumer stop) env)"
  by (simp add: call_listener_calm)

lemma microtasks_calm:
  "microtasks (call_consumer (calm consumer) stop) = microtasks (call_consumer consumer stop)"
  by (intro ext) (simp add: microtasks_def run_finally_def emit_calm)

lemma py_timer_callback_calm:
  "py_timer_callback (call_consumer (calm consumer) stop) =
     py_timer_callback (call_consumer consumer stop)"
  by (intro ext) (simp add: py_timer_callback_def emit_calm)

lemma runPython_calm:
  "runPython (call_consumer (calm consumer) stop) = runPython (call_consumer consumer stop)"
  by (intro ext) (simp add: runPython_def microtasks_calm)

lemma js_task_calm: "js_task (calm consumer) env rnd stim = js_task consumer env rnd stim"
  by (cases stim) (simp_all add: js_task_def js_onEvent_calm)

lemma py_task_calm: "py_task (calm consumer) env rnd stim = py_task consumer env rnd stim"
  by (cases stim)
     (simp_all add: py_task_def worker_onmessage_calm microtasks_calm py_timer_callback_calm)

lemma task_calm: "task (calm consumer) env rnd stim = task consumer env rnd stim"
  by (intro ext) (simp add: task_def js_task_calm py_task_calm split: run_state.splits)

lemma tasks_calm: "tasks (calm consumer) env rnd stims acc = tasks consumer env rnd stims acc"
proof (induction stims arbitrary: acc)
  case Nil
  show ?case by simp
next
  case (Cons stim stims)
  obtain es st where acc: "acc = (es, st)" by (cases acc)
  show ?case using Cons.IH
    by (simp add: acc task_calm split: prod.splits option.splits)
qed

lemma runCode_calm: "runCode (calm consumer) env rnd = runCode consumer env rnd"
  by (simp add: runCode_def runPython_calm js_onEvent_calm emit_calm
        split: prod.splits option.splits)

lemma execution_calm: "execution (calm consumer) options rnd stims = execution consumer options rnd stims"
  by (simp add: execution_def Let_def tasks_calm runCode_calm
        split: prod.splits option.splits)

section \<open>The JavaScript run: one terminal event at most\<close>

lemma budgetedEmit_stopping:
  assumes "\<And>s. stop s = (None, stopped s)"
  shows "budgetedEmit (call_consumer consumer stop) env type text level h =
           (None, budgeted consumer stopped env type text level h)"
  by (simp add: budgetedEmit_def budgeted_def emit_stopping[OF assms] emitted_def stmt_defs Let_def)

lemma js_skip_stopped: "js_skip h = (None, (\<lambda>h. h) h)"
  by (simp add: js_skip_def)

lemmas budgetedEmit_budgeted =
  budgetedEmit_stopping[OF js_stop_stopped] budgetedEmit_stopping[OF py_stop_stopped]
  budgetedEmit_stopping[OF js_skip_stopped]

lemma terminal_mk [simp]:
  "terminal (mk_event env t pl) = (t = ''done'' \<or> t = ''error'' \<or> t = ''timeout'')"
  by (simp add: terminal_def mk_event_def)

lemma ev_type_mk [simp]: "ev_type (mk_event env t pl) = t"
  by (simp add: mk_event_def)

lemma js_emit_init:
  assumes "\<And>s. stop s = (None, stopped s)"
  shows "js_emit (js_onEvent (call_consumer consumer stop) env) jenv ''init'' pl h =
     (None, reacting consumer stopped (mk_event env ''init'' no_payload) h)"
  by (simp add: js_emit_def js_onEvent_def emit_stopping[OF assms] emitted_def stmt_defs)

lemma js_emit_start:
  assumes "\<And>s. stop s = (None, stopped s)"
  shows "js_emit (js_onEvent (call_consumer consumer stop) env) jenv ''start'' pl h =
     (None, reacting consumer stopped (mk_event env ''start'' no_payload) h)"
  by (simp add: js_emit_def js_onEvent_def emit_stopping[OF assms] emitted_def stmt_defs)

lemma js_emit_done:
  assumes "\<And>s. stop s = (None, stopped s)"
  shows "js_emit (js_onEvent (call_consumer consumer stop) env) jenv ''done'' pl h =
     (None, reacting consumer stopped (mk_event env ''done'' no_payload) h)"
  by (simp add: js_emit_def js_onEvent_def emit_stopping[OF assms] emitted_def stmt_defs)

lemma js_emit_error:
  assumes "\<And>s. stop s = (None, stopped s)"
  shows "js_emit (js_onEvent (call_consumer consumer stop) env) jenv ''error'' pl h =
     (None, reacting consumer stopped
        (mk_event env ''error'' (no_payload\<lparr>p_message := p_message pl, p_stack := p_stack pl\<rparr>)) h)"
  by (simp add: js_emit_def js_onEvent_def emit_stopping[OF assms] emitted_def stmt_defs)

lemma js_emit_timeout:
  assumes "\<And>s. stop s = (None, stopped s)"
  shows "js_emit (js_onEvent (call_consumer consumer stop) env) jenv ''timeout'' pl h =
     (None, reacting consumer stopped
        (mk_event env ''timeout'' (no_payload\<lparr>p_message := p_message pl\<rparr>)) h)"
  by (simp add: js_emit_def js_onEvent_def emit_stopping[OF assms] emitted_def stmt_defs)

lemma js_emit_log:
  assumes "\<And>s. stop s = (None, stopped s)"
  shows "js_emit (js_onEvent (call_consumer consumer stop) env) jenv ''log'' pl h =
     (None, reacting consumer stopped
        (mk_event env ''log''
           (no_payload\<lparr>p_level := Some (or_else (p_level pl) ''log''), p_text := p_text pl\<rparr>))
        (budgeted consumer stopped env ''stdout'' (p_text pl) (or_else (p_level pl) ''log'') h))"
  by (simp add: js_emit_def js_onEvent_def budgetedEmit_stopping[OF assms]
      emit_stopping[OF assms] emitted_def stmt_defs)

lemmas js_emits =
  js_emit_init[OF js_stop_stopped] js_emit_start[OF js_stop_stopped]
  js_emit_done[OF js_stop_stopped] js_emit_error[OF js_stop_stopped]
  js_emit_timeout[OF js_stop_stopped] js_emit_log[OF js_stop_stopped]

lemma js_stopped_fields [simp]:
  "delivered (js_stopped h) = delivered h"
  "totalLogBytes (js_stopped h) = totalLogBytes h"
  "truncatedNotified (js_stopped h) = truncatedNotified h"
  "js_finished (js_stopped h) = js_finished h"
  "js_totalLogBytes (js_stopped h) = js_totalLogBytes h"
  "js_truncatedNotified (js_stopped h) = js_truncatedNotified h"
  "js_posted (js_stopped h) = js_posted h"
  "js_listening (js_stopped h) = False"
  "js_timer (js_stopped h) = None"
  "js_iframe (js_stopped h) = False"
  by (simp_all add: js_stopped_def)

lemmas js_emits_sync = js_emit_init[OF js_skip_stopped]

lemmas js_defs = js_task_def handleMsg_def js_timer_callback_def js_stop_stopped
  execute_def cleanup_def clearTimeout_js_def js_emits

text \<open>What a delivery, and an output that goes through the budget, leave unchanged.\<close>

lemma py_stopped_fields [simp]:
  "delivered (py_stopped h) = delivered h"
  "totalLogBytes (py_stopped h) = totalLogBytes h"
  "truncatedNotified (py_stopped h) = truncatedNotified h"
  "py_listeners (py_stopped h) = []"
  "rc_timer (py_stopped h) = None"
  "rc_run (py_stopped h) = rc_run h"
  "rc_finished (py_stopped h) = rc_finished h"
  "py_worker (py_stopped h) = False"
  "py_ready (py_stopped h) = False"
  "py_posted (py_stopped h) = py_posted h"
  "py_terminated (py_stopped h) = (if py_worker h then py_terminated h + 1 else py_terminated h)"
  by (simp_all add: py_stopped_def)

lemma keeps_stopped [simp]: "keeps js_stopped" "keeps py_stopped" "keeps (\<lambda>h. h)"
  by (simp_all add: keeps_def)

lemma reacting_outer [simp]:
  assumes "keeps stopped"
  shows "delivered (reacting consumer stopped ev h) = delivered h @ [ev]"
    and "totalLogBytes (reacting consumer stopped ev h) = totalLogBytes h"
    and "truncatedNotified (reacting consumer stopped ev h) = truncatedNotified h"
  using assms by (simp_all add: reacting_def keeps_def)

lemma reacting_js_fields [simp]:
  "js_finished (reacting consumer js_stopped ev h) = js_finished h"
  "js_totalLogBytes (reacting consumer js_stopped ev h) = js_totalLogBytes h"
  "js_truncatedNotified (reacting consumer js_stopped ev h) = js_truncatedNotified h"
  "js_posted (reacting consumer js_stopped ev h) = js_posted h"
  by (simp_all add: reacting_def)

lemma reacting_js_stop:
  "js_listening (reacting consumer js_stopped ev h) =
     (js_listening h \<and> \<not> r_stops (consumer (delivered h) ev))"
  "js_timer (reacting consumer js_stopped ev h) =
     (if r_stops (consumer (delivered h) ev) then None else js_timer h)"
  "js_iframe (reacting consumer js_stopped ev h) =
     (js_iframe h \<and> \<not> r_stops (consumer (delivered h) ev))"
  by (simp_all add: reacting_def)

lemma reacting_js_dead [simp]:
  "\<not> js_listening h \<Longrightarrow> \<not> js_listening (reacting consumer js_stopped ev h)"
  "js_timer h = None \<Longrightarrow> js_timer (reacting consumer js_stopped ev h) = None"
  by (simp_all add: reacting_js_stop)

lemma budgeted_js_fields [simp]:
  "js_finished (budgeted consumer js_stopped env t x l h) = js_finished h"
  "js_totalLogBytes (budgeted consumer js_stopped env t x l h) = js_totalLogBytes h"
  "js_truncatedNotified (budgeted consumer js_stopped env t x l h) = js_truncatedNotified h"
  "js_posted (budgeted consumer js_stopped env t x l h) = js_posted h"
  by (simp_all add: budgeted_def)

lemma budgeted_js_dead [simp]:
  "\<not> js_listening h \<Longrightarrow> \<not> js_listening (budgeted consumer js_stopped env t x l h)"
  "js_timer h = None \<Longrightarrow> js_timer (budgeted consumer js_stopped env t x l h) = None"
  by (simp_all add: budgeted_def)

lemma budgeted_patient_js:
  assumes "patient consumer"
  shows "js_listening (budgeted consumer js_stopped env t x l h) = js_listening h"
    and "js_timer (budgeted consumer js_stopped env t x l h) = js_timer h"
    and "js_iframe (budgeted consumer js_stopped env t x l h) = js_iframe h"
  using assms by (simp_all add: budgeted_def reacting_patient)

lemma budgeted_terminal [simp]:
  "keeps stopped \<Longrightarrow> \<not> terminal (mk_event env t no_payload) \<Longrightarrow>
     filter terminal (delivered (budgeted consumer stopped env t x l h)) =
       filter terminal (delivered h)"
  by (simp add: budgeted_def)

lemma budgeted_hd [simp]:
  "keeps stopped \<Longrightarrow> delivered h \<noteq> [] \<Longrightarrow>
     delivered (budgeted consumer stopped env t x l h) \<noteq> [] \<and>
     hd (delivered (budgeted consumer stopped env t x l h)) = hd (delivered h)"
  by (simp add: budgeted_def)

lemma js_inv_task: "js_inv h \<Longrightarrow> js_inv (snd (js_task consumer env rnd stim h))"
proof (cases stim)
  case (WindowMessage e)
  assume "js_inv h"
  then show ?thesis unfolding WindowMessage
    by (auto simp: js_inv_def js_dead_def js_defs stmt_defs Let_def split: option.splits)
next
  case TimerFire
  assume "js_inv h"
  then show ?thesis unfolding TimerFire
    by (auto simp: js_inv_def js_dead_def js_defs stmt_defs Let_def split: option.splits)
qed (auto simp: js_inv_def js_dead_def js_defs stmt_defs)

lemma tasks_run_from:
  "snd (tasks consumer env rnd stims (es, st)) = run_from consumer env rnd st stims"
  unfolding run_from_def
  by (induction stims arbitrary: es st) (auto split: prod.splits option.splits)

lemma stream_run_from:
  "stream consumer options rnd stims =
     events (run_from consumer (resolve_options options rnd) rnd
               (snd (runCode consumer (resolve_options options rnd) rnd)) stims)"
  by (simp add: stream_def execution_def Let_def tasks_run_from split: prod.splits option.splits)

lemma run_from_append:
  "run_from consumer env rnd st (xs @ ys) =
     run_from consumer env rnd (run_from consumer env rnd st xs) ys"
  by (simp add: run_from_def)

lemma run_from_invariant:
  assumes "P st" and "\<And>st stim. stim \<in> set stims \<Longrightarrow> P st \<Longrightarrow> P (snd (task consumer env rnd stim st))"
  shows "P (run_from consumer env rnd st stims)"
  using assms unfolding run_from_def
  by (induction stims arbitrary: st) auto

lemma task_JsRun: "task consumer env rnd stim (JsRun h) = (fst (js_task consumer env rnd stim h), JsRun (snd (js_task consumer env rnd stim h)))"
  by (simp add: task_def in_js_def split: prod.splits)

lemma js_ok_task: "js_ok st \<Longrightarrow> js_ok (snd (task consumer env rnd stim st))"
  by (cases st) (simp_all add: js_ok_def task_JsRun js_inv_task)

lemma js_done_task: "js_done st \<Longrightarrow> js_done (snd (task consumer env rnd stim st))"
  by (cases st; cases stim)
     (auto simp: js_done_def task_JsRun js_defs stmt_defs Let_def split: option.splits)

lemma js_alive_task:
  "patient consumer \<Longrightarrow> js_alive st \<Longrightarrow> stim \<noteq> StopCall \<Longrightarrow>
     js_alive (snd (task consumer env rnd stim st))"
  by (cases st; cases stim)
     (auto simp: js_alive_def task_JsRun js_defs stmt_defs Let_def budgeted_patient_js
        reacting_patient split: option.splits)

lemma js_alive_timer: "js_alive st \<Longrightarrow> js_done (snd (task consumer env rnd TimerFire st))"
  by (cases st) (auto simp: js_alive_def js_done_def task_JsRun js_defs stmt_defs)

lemma js_deadline:
  "patient consumer \<Longrightarrow> js_alive st \<Longrightarrow> StopCall \<notin> set stims \<Longrightarrow> TimerFire \<in> set stims \<Longrightarrow>
     js_done (run_from consumer env rnd st stims)"
proof (induction stims arbitrary: st)
  case Nil
  then show ?case by simp
next
  case (Cons stim stims)
  show ?case
  proof (cases "stim = TimerFire")
    case True
    have "js_done (snd (task consumer env rnd TimerFire st))"
      using Cons.prems(2) by (rule js_alive_timer)
    then have "js_done (run_from consumer env rnd (snd (task consumer env rnd TimerFire st)) stims)"
      by (rule run_from_invariant) (rule js_done_task)
    then show ?thesis by (simp add: True run_from_def)
  next
    case False
    have "js_alive (snd (task consumer env rnd stim st))"
      using Cons.prems by (intro js_alive_task) auto
    moreover have "StopCall \<notin> set stims" "TimerFire \<in> set stims"
      using Cons.prems False by auto
    ultimately have "js_done (run_from consumer env rnd (snd (task consumer env rnd stim st)) stims)"
      using Cons.prems(1) by (intro Cons.IH)
    then show ?thesis by (simp add: run_from_def)
  qed
qed

section \<open>The output budget\<close>

lemma is_output_mk [simp]: "is_output (mk_event env t pl) = (t = ''stdout'' \<or> t = ''stderr'')"
  by (simp add: is_output_def)

lemma is_log_mk [simp]: "is_log (mk_event env t pl) = (t = ''log'')"
  by (simp add: is_log_def)

lemma text_bytes_mk [simp]: "text_bytes (mk_event env t pl) = byteLength (or_else (p_text pl) [])"
  by (simp add: text_bytes_def mk_event_def)

lemma output_bytes_snoc [simp]:
  "output_bytes (evs @ [e]) = output_bytes evs + (if is_output e then text_bytes e else 0)"
  by (simp add: output_bytes_def)

lemma or_else_idem [simp]: "or_else (Some (or_else x [])) [] = or_else x []"
  by (simp add: or_else_def split: option.splits)

lemma warned_once_budgeted:
  "keeps stopped \<Longrightarrow> warned_once h \<Longrightarrow> t \<noteq> ''log'' \<Longrightarrow>
     warned_once (budgeted consumer stopped env t x l h)"
  by (auto simp: warned_once_def budgeted_def)

lemma budget_ok_reacting [simp]:
  "keeps stopped \<Longrightarrow>
     budget_ok env (reacting consumer stopped (mk_event env t pl) h) =
       (if t = ''stdout'' \<or> t = ''stderr'' then
          output_bytes (delivered h) + byteLength (or_else (p_text pl) []) = totalLogBytes h \<and>
          totalLogBytes h \<le> maxLogBytes env
        else budget_ok env h)"
  by (simp add: budget_ok_def)

lemma budget_ok_stopped [simp]:
  "budget_ok env (js_stopped h) = budget_ok env h" "budget_ok env (py_stopped g) = budget_ok env g"
  by (simp_all add: budget_ok_def)

lemma warned_once_reacting [simp]:
  "keeps stopped \<Longrightarrow> t \<noteq> ''log'' \<Longrightarrow>
     warned_once (reacting consumer stopped (mk_event env t pl) h) = warned_once h"
  by (simp add: warned_once_def)

lemma warned_once_stopped [simp]:
  "warned_once (js_stopped h) = warned_once h" "warned_once (py_stopped g) = warned_once g"
  by (simp_all add: warned_once_def)

lemma forEach_invariant:
  assumes "\<And>cb s. P s \<Longrightarrow> P (snd (f cb s))" and "P s"
  shows "P (snd (forEach f cbs s))"
  using assms(2)
proof (induction cbs arbitrary: s)
  case Nil
  then show ?case by (simp add: js_skip_def)
next
  case (Cons cb cbs)
  have "P (snd (js_cond (\<lambda>st. cb \<in> set (py_listeners st)) (f cb) js_skip s))"
    using Cons.prems assms(1) by (simp add: js_cond_def js_skip_def)
  then show ?case using Cons.IH
    by (auto simp: js_seq_def split: prod.splits option.splits)
qed

section \<open>After stop nothing is delivered\<close>

lemma reacting_py_fields [simp]:
  "rc_run (reacting consumer py_stopped ev h) = rc_run h"
  "rc_finished (reacting consumer py_stopped ev h) = rc_finished h"
  "py_posted (reacting consumer py_stopped ev h) = py_posted h"
  by (simp_all add: reacting_def)

lemma reacting_py_stop:
  "py_listeners (reacting consumer py_stopped ev h) =
     (if r_stops (consumer (delivered h) ev) then [] else py_listeners h)"
  "rc_timer (reacting consumer py_stopped ev h) =
     (if r_stops (consumer (delivered h) ev) then None else rc_timer h)"
  "py_worker (reacting consumer py_stopped ev h) =
     (py_worker h \<and> \<not> r_stops (consumer (delivered h) ev))"
  "py_ready (reacting consumer py_stopped ev h) =
     (py_ready h \<and> \<not> r_stops (consumer (delivered h) ev))"
  by (simp_all add: reacting_def)

lemma reacting_py_dead [simp]:
  "py_listeners h = [] \<Longrightarrow> py_listeners (reacting consumer py_stopped ev h) = []"
  "rc_timer h = None \<Longrightarrow> rc_timer (reacting consumer py_stopped ev h) = None"
  "distinct (py_listeners h) \<Longrightarrow> distinct (py_listeners (reacting consumer py_stopped ev h))"
  by (simp_all add: reacting_py_stop)

lemma budgeted_py_fields [simp]:
  "rc_run (budgeted consumer py_stopped env t x l h) = rc_run h"
  "rc_finished (budgeted consumer py_stopped env t x l h) = rc_finished h"
  "py_posted (budgeted consumer py_stopped env t x l h) = py_posted h"
  by (simp_all add: budgeted_def)

lemma budgeted_py_dead [simp]:
  "py_listeners h = [] \<Longrightarrow> py_listeners (budgeted consumer py_stopped env t x l h) = []"
  "rc_timer h = None \<Longrightarrow> rc_timer (budgeted consumer py_stopped env t x l h) = None"
  "distinct (py_listeners h) \<Longrightarrow> distinct (py_listeners (budgeted consumer py_stopped env t x l h))"
  by (simp_all add: budgeted_def)

lemma dispose_effect:
  "dispose h =
     (None, h\<lparr>py_terminated := (if py_worker h then py_terminated h + 1 else py_terminated h),
               py_worker := False, py_ready := False, py_listeners := []\<rparr>)"
  by (simp add: dispose_def stmt_defs)

lemmas py_defs = py_task_def worker_onmessage_def microtasks_def py_stop_stopped py_timer_callback_def
  run_finally_def run_continue_def postMessage_py_def dispose_def off_def call_listener_def
  runner_listener_def ready_waiter_def budgetedEmit_budgeted emit_emitted emitted_def

lemma js_dead_task:
  "js_dead h \<Longrightarrow> js_dead (snd (js_task consumer env rnd stim h)) \<and>
     delivered (snd (js_task consumer env rnd stim h)) = delivered h"
  by (cases stim)
     (auto simp: js_dead_def js_defs stmt_defs Let_def split: option.splits)

lemma js_stop_dead: "js_dead (snd (js_task consumer env rnd StopCall h))"
  by (simp add: js_dead_def js_defs stmt_defs)

lemma task_NoRun: "task consumer env rnd stim (NoRun h) = (None, NoRun h)"
  by (simp add: task_def)

lemma task_PyRun:
  "task consumer env rnd stim (PyRun h) =
     (fst (py_task consumer env rnd stim h), PyRun (snd (py_task consumer env rnd stim h)))"
  by (simp add: task_def in_py_def split: prod.splits)

lemma seq_safe: "safe a \<Longrightarrow> js_seq a b s = b (snd (a s))"
  by (auto simp: js_seq_def split: prod.splits option.splits dest: safeD)

lemma py_message_task:
  "py_task consumer env rnd (WorkerMessage e) h =
     microtasks (call_consumer consumer py_stop) env rnd (snd (worker_onmessage (call_listener (call_consumer consumer py_stop) env) rnd e h))"
proof -
  have "safe (microtasks (call_consumer consumer py_stop) env rnd)" by (rule safe_microtasks)
  then have "js_seq (microtasks (call_consumer consumer py_stop) env rnd) js_skip s = microtasks (call_consumer consumer py_stop) env rnd s" for s
    by (cases "microtasks (call_consumer consumer py_stop) env rnd s") (auto simp: js_seq_def js_skip_def dest: safeD)
  then show ?thesis
    by (simp add: py_task_def seq_safe[OF safe_worker_onmessage])
qed

lemma microtasks_settled: "rc_run (snd (microtasks (call_consumer consumer py_stop) env rnd h)) \<noteq> Resumed"
  by (auto simp: py_defs stmt_defs split: prod.splits option.splits)

lemma py_settled_task:
  "rc_run h \<noteq> Resumed \<Longrightarrow> rc_run (snd (py_task consumer env rnd stim h)) \<noteq> Resumed"
proof (cases stim)
  case (WorkerMessage e)
  show ?thesis unfolding WorkerMessage py_message_task by (rule microtasks_settled)
qed (auto simp: py_defs stmt_defs split: prod.splits option.splits)

lemma py_dead_task:
  "py_dead h \<Longrightarrow> py_dead (snd (py_task consumer env rnd stim h)) \<and>
     delivered (snd (py_task consumer env rnd stim h)) = delivered h"
  by (cases stim)
     (auto simp: py_dead_def py_message_task py_defs stmt_defs Let_def split: prod.splits option.splits)

lemma py_stop_dead:
  "rc_run h \<noteq> Resumed \<Longrightarrow> py_dead (snd (py_task consumer env rnd StopCall h)) \<and>
     delivered (snd (py_task consumer env rnd StopCall h)) = delivered h"
  by (auto simp: py_dead_def py_defs stmt_defs)

lemma js_stop_silent: "delivered (snd (js_task consumer env rnd StopCall h)) = delivered h"
  by (simp add: js_defs stmt_defs)

lemma settled_task: "settled st \<Longrightarrow> settled (snd (task consumer env rnd stim st))"
  by (cases st) (simp_all add: settled_def task_JsRun task_PyRun py_settled_task task_NoRun)

lemma dead_task:
  "dead st \<Longrightarrow> dead (snd (task consumer env rnd stim st)) \<and>
     events (snd (task consumer env rnd stim st)) = events st"
  by (cases st) (simp_all add: dead_def events_def task_JsRun task_PyRun js_dead_task py_dead_task task_NoRun)

lemma stop_task:
  "settled st \<Longrightarrow> dead (snd (task consumer env rnd StopCall st)) \<and>
     events (snd (task consumer env rnd StopCall st)) = events st"
  by (cases st)
     (simp_all add: settled_def dead_def events_def task_JsRun task_PyRun js_stop_dead js_stop_silent
        py_stop_dead task_NoRun)

lemma settled_runCode: "settled (snd (runCode consumer env rnd))"
  by (simp add: runCode_def emit_emitted emitted_def in_js_def in_py_def in_none_def settled_def
      runPython_def run_begin_def ensureWorker_def postMessage_py_def onMessage_def microtasks_def
      stmt_defs py_host_of_def split: prod.splits)

lemma dead_run_from:
  "dead st \<Longrightarrow> dead (run_from consumer env rnd st stims) \<and>
     events (run_from consumer env rnd st stims) = events st"
  unfolding run_from_def
  by (induction stims arbitrary: st) (auto simp: dead_task)

lemma stop_silences:
  "stream consumer options rnd (pre @ StopCall # post) = stream consumer options rnd pre"
proof -
  let ?env = "resolve_options options rnd"
  let ?st = "run_from consumer ?env rnd (snd (runCode consumer ?env rnd)) pre"
  have "settled ?st"
    by (rule run_from_invariant) (simp_all add: settled_runCode settled_task)
  then have s: "dead (snd (task consumer ?env rnd StopCall ?st))"
    "events (snd (task consumer ?env rnd StopCall ?st)) = events ?st"
    by (simp_all add: stop_task)
  have "run_from consumer ?env rnd (snd (runCode consumer ?env rnd)) (pre @ StopCall # post) =
        run_from consumer ?env rnd (snd (task consumer ?env rnd StopCall ?st)) post"
    by (simp add: run_from_def)
  then show ?thesis
    using dead_run_from[OF s(1), of consumer ?env rnd post] s(2)
    by (simp add: stream_run_from)
qed

section \<open>The Python run: listeners, start events and growth of the stream\<close>

lemma starts_snoc [simp]: "starts (evs @ [e]) = starts evs + (if ev_type e = ''start'' then 1 else 0)"
  by (simp add: starts_def)

lemma starts_budgeted [simp]:
  "keeps stopped \<Longrightarrow> t \<noteq> ''start'' \<Longrightarrow>
     starts (delivered (budgeted consumer stopped env t x l h)) = starts (delivered h)"
  by (simp add: budgeted_def)

lemma js_task_starts:
  "starts (delivered (snd (js_task consumer env rnd stim h))) \<le>
     starts (delivered h) + (if start_message stim then 1 else 0)"
  by (cases stim)
     (auto simp: start_message_def js_defs stmt_defs Let_def split: option.splits)

lemma js_task_grows:
  "\<exists>new. delivered (snd (js_task consumer env rnd stim h)) = delivered h @ new"
  by (cases stim)
     (auto simp: js_defs budgeted_def stmt_defs Let_def split: option.splits)

lemma listener_call_fun:
  "(\<lambda>cb. js_try (call_listener (call_consumer consumer py_stop) env cb msg) (\<lambda>_. js_skip)) = listener_call (call_consumer consumer py_stop) env msg"
  by (intro ext) (simp add: listener_call_def)

lemma worker_onmessage_listener_call:
  "worker_onmessage (call_listener (call_consumer consumer py_stop) env) rnd e =
     (let msg = default_opt e empty_wmsg in
      if truthy (m_token msg) \<and> m_token msg \<noteq> Some (rnd_py_token rnd) then js_skip
      else js_block [
        js_when (m_type msg = Some ''ready'') (js_assign (\<lambda>st. st\<lparr>py_ready := True\<rparr>)),
        (\<lambda>st. forEach (listener_call (call_consumer consumer py_stop) env msg) (py_listeners st) st)])"
  by (simp add: worker_onmessage_def listener_call_fun Let_def)

lemma listener_call_runner:
  "listener_call (call_consumer consumer py_stop) env msg RunnerListener h =
     (None,
      if m_type msg = Some ''start'' then
        reacting consumer py_stopped (mk_event env ''start'' no_payload) h
      else if m_type msg = Some ''stdout'' then
        budgeted consumer py_stopped env ''stdout'' (m_text msg) ''info'' h
      else if m_type msg = Some ''stderr'' then
        budgeted consumer py_stopped env ''stderr'' (m_text msg) ''warn'' h
      else if m_type msg = Some ''result'' then
        reacting consumer py_stopped (mk_event env ''result'' (no_payload\<lparr>p_value := m_value msg\<rparr>)) h
      else if m_type msg = Some ''error'' then
        reacting consumer py_stopped
          (mk_event env ''error'' (no_payload\<lparr>p_message := m_message msg\<rparr>)) h
      else h)"
  by (simp add: listener_call_def call_listener_def runner_listener_def budgetedEmit_budgeted
      emit_emitted emitted_def stmt_defs)

lemma listener_call_waiter:
  "listener_call (call_consumer consumer py_stop) env msg ReadyWaiter h =
     (None,
      if m_type msg = Some ''ready'' then
        (if rc_run h = AwaitingReady
         then h\<lparr>py_listeners := removeAll ReadyWaiter (py_listeners h), rc_run := Resumed\<rparr>
         else h\<lparr>py_listeners := removeAll ReadyWaiter (py_listeners h)\<rparr>)
      else h)"
  by (simp add: listener_call_def call_listener_def ready_waiter_def off_def stmt_defs)

lemma listener_call_starts:
  "starts (delivered (snd (listener_call (call_consumer consumer py_stop) env msg cb h))) \<le>
     starts (delivered h) + (if cb = RunnerListener \<and> m_type msg = Some ''start'' then 1 else 0)"
  by (cases cb) (simp_all add: listener_call_runner listener_call_waiter)

lemma forEach_step:
  "forEach (listener_call (call_consumer consumer py_stop) env msg) (cb # cbs) h =
     forEach (listener_call (call_consumer consumer py_stop) env msg) cbs
       (if cb \<in> set (py_listeners h) then snd (listener_call (call_consumer consumer py_stop) env msg cb h) else h)"
  by (cases cb)
     (simp_all add: js_seq_def js_cond_def js_skip_def listener_call_runner listener_call_waiter)

lemma forEach_starts:
  "distinct cbs \<Longrightarrow>
     starts (delivered (snd (forEach (listener_call (call_consumer consumer py_stop) env msg) cbs h))) \<le>
       starts (delivered h) +
         (if RunnerListener \<in> set cbs \<and> m_type msg = Some ''start'' then 1 else 0)"
proof (induction cbs arbitrary: h)
  case Nil
  then show ?case by (simp add: js_skip_def)
next
  case (Cons cb cbs)
  let ?h = "if cb \<in> set (py_listeners h) then snd (listener_call (call_consumer consumer py_stop) env msg cb h) else h"
  have 1: "starts (delivered ?h) \<le>
      starts (delivered h) + (if cb = RunnerListener \<and> m_type msg = Some ''start'' then 1 else 0)"
  proof (cases "cb \<in> set (py_listeners h)")
    case True
    then show ?thesis using listener_call_starts[of consumer env msg cb h] by simp
  next
    case False
    then show ?thesis by simp
  qed
  have 2: "starts (delivered (snd (forEach (listener_call (call_consumer consumer py_stop) env msg) cbs ?h))) \<le>
      starts (delivered ?h) + (if RunnerListener \<in> set cbs \<and> m_type msg = Some ''start'' then 1 else 0)"
    using Cons.prems by (intro Cons.IH) simp
  have 3: "\<not> (cb = RunnerListener \<and> RunnerListener \<in> set cbs)"
    using Cons.prems by auto
  show ?case unfolding forEach_step using 1 2 3 by (auto split: if_splits)
qed

lemma seq_skip: "js_seq a js_skip = a"
  by (intro ext) (simp add: js_seq_def js_skip_def split: prod.splits option.splits)

lemma worker_onmessage_effect:
  "worker_onmessage (call_listener (call_consumer consumer py_stop) env) rnd e h =
     (if truthy (m_token (default_opt e empty_wmsg)) \<and>
         m_token (default_opt e empty_wmsg) \<noteq> Some (rnd_py_token rnd)
      then (None, h)
      else forEach (listener_call (call_consumer consumer py_stop) env (default_opt e empty_wmsg)) (py_listeners h)
             (if m_type (default_opt e empty_wmsg) = Some ''ready'' then h\<lparr>py_ready := True\<rparr> else h))"
  by (simp add: worker_onmessage_listener_call Let_def seq_skip js_skip_def js_when_def
      js_seq_def js_assign_def)

lemma microtasks_effect:
  "microtasks (call_consumer consumer py_stop) env rnd h =
     (None, if rc_run h = Resumed then resumed consumer env rnd h else h)"
  by (simp add: microtasks_def run_continue_def run_finally_def postMessage_py_def emit_emitted
      emitted_def resumed_def stmt_defs Let_def)

lemma py_message_effect:
  "snd (py_task consumer env rnd (WorkerMessage e) h) =
     (let h' = snd (worker_onmessage (call_listener (call_consumer consumer py_stop) env) rnd e h)
      in if rc_run h' = Resumed then resumed consumer env rnd h' else h')"
  by (simp add: py_message_task microtasks_effect Let_def)

lemma listener_call_distinct:
  "distinct (py_listeners h) \<Longrightarrow> distinct (py_listeners (snd (listener_call (call_consumer consumer py_stop) env msg cb h)))"
  by (cases cb) (simp_all add: listener_call_runner listener_call_waiter distinct_removeAll)

lemma listener_call_grows:
  "\<exists>new. delivered (snd (listener_call (call_consumer consumer py_stop) env msg cb h)) = delivered h @ new"
  by (cases cb) (simp_all add: listener_call_runner listener_call_waiter budgeted_def)

lemma grows_trans:
  "\<exists>new. delivered h1 = d @ new \<Longrightarrow> \<exists>new. delivered h2 = delivered h1 @ new \<Longrightarrow>
     \<exists>new. delivered h2 = d @ new"
  by auto

lemma worker_onmessage_distinct:
  "distinct (py_listeners h) \<Longrightarrow>
     distinct (py_listeners (snd (worker_onmessage (call_listener (call_consumer consumer py_stop) env) rnd e h)))"
  unfolding worker_onmessage_effect
  by (auto intro!: forEach_invariant[where P = "\<lambda>h. distinct (py_listeners h)"]
        listener_call_distinct)

lemma worker_onmessage_grows:
  "\<exists>new. delivered (snd (worker_onmessage (call_listener (call_consumer consumer py_stop) env) rnd e h)) = delivered h @ new"
proof -
  have "\<exists>new. delivered (snd (forEach (listener_call (call_consumer consumer py_stop) env msg) cbs h')) = delivered h @ new"
    if "delivered h' = delivered h" for msg cbs h'
  proof (rule forEach_invariant[where P = "\<lambda>x::py_host. \<exists>new. delivered x = delivered h @ new"])
    show "\<exists>new. delivered h' = delivered h @ new" using that by simp
  next
    fix cb and s :: py_host assume "\<exists>new. delivered s = delivered h @ new"
    then show "\<exists>new. delivered (snd (listener_call (call_consumer consumer py_stop) env msg cb s)) = delivered h @ new"
      using listener_call_grows[of consumer env msg cb s] by (rule grows_trans)
  qed
  then show ?thesis unfolding worker_onmessage_effect by simp
qed

lemma worker_onmessage_starts:
  "distinct (py_listeners h) \<Longrightarrow>
     starts (delivered (snd (worker_onmessage (call_listener (call_consumer consumer py_stop) env) rnd e h))) \<le>
       starts (delivered h) + (if start_message (WorkerMessage e) then 1 else 0)"
proof -
  assume d: "distinct (py_listeners h)"
  let ?msg = "default_opt e empty_wmsg"
  have m: "m_type ?msg = Some ''start'' \<Longrightarrow> start_message (WorkerMessage e)"
    by (cases e) (simp_all add: start_message_def default_opt_def empty_wmsg_def)
  have "starts (delivered (snd (forEach (listener_call (call_consumer consumer py_stop) env ?msg) (py_listeners h) h'))) \<le>
      starts (delivered h) + (if start_message (WorkerMessage e) then 1 else 0)"
    if "delivered h' = delivered h" for h'
    using forEach_starts[OF d, of consumer env ?msg h'] m that by (auto split: if_splits)
  from this[of h] this[of "h\<lparr>py_ready := True\<rparr>"]
  show ?thesis unfolding worker_onmessage_effect by (auto split: if_splits)
qed

lemma resumed_fields [simp]:
  "distinct (py_listeners h) \<Longrightarrow> distinct (py_listeners (resumed consumer env rnd h))"
  "starts (delivered (resumed consumer env rnd h)) = starts (delivered h)"
  "\<exists>new. delivered (resumed consumer env rnd h) = delivered h @ new"
  by (simp_all add: resumed_def Let_def)

lemma py_task_distinct:
  "distinct (py_listeners h) \<Longrightarrow> distinct (py_listeners (snd (py_task consumer env rnd stim h)))"
proof (cases stim)
  case (WorkerMessage e)
  assume "distinct (py_listeners h)"
  then show ?thesis unfolding WorkerMessage py_message_effect
    by (simp add: Let_def worker_onmessage_distinct)
qed (auto simp: py_defs stmt_defs)

lemma py_task_starts:
  "distinct (py_listeners h) \<Longrightarrow>
     starts (delivered (snd (py_task consumer env rnd stim h))) \<le>
       starts (delivered h) + (if start_message stim then 1 else 0)"
proof (cases stim)
  case (WorkerMessage e)
  assume "distinct (py_listeners h)"
  then show ?thesis unfolding WorkerMessage py_message_effect
    using worker_onmessage_starts[of h consumer env rnd e] by (auto simp: Let_def split: if_splits)
qed (auto simp: py_defs stmt_defs start_message_def)

lemma py_task_grows:
  "\<exists>new. delivered (snd (py_task consumer env rnd stim h)) = delivered h @ new"
proof (cases stim)
  case (WorkerMessage e)
  show ?thesis unfolding WorkerMessage py_message_effect Let_def
    using worker_onmessage_grows[of consumer env rnd e h]
      resumed_fields(3)[of consumer env rnd "snd (worker_onmessage (call_listener (call_consumer consumer py_stop) env) rnd e h)"]
    by (auto simp del: resumed_fields)
qed (auto simp: py_defs stmt_defs)

section \<open>The budget over a run, and runs that differ in the budget only\<close>

lemma lifecycle_mk [simp]:
  "lifecycle (mk_event env t pl) = (t \<noteq> ''stdout'' \<and> t \<noteq> ''stderr'' \<and> t \<noteq> ''log'')"
  by (simp add: lifecycle_def)

lemma mk_event_budget [simp]: "mk_event (env\<lparr>maxLogBytes := b\<rparr>) t pl = mk_event env t pl"
  by (simp add: mk_event_def)

lemma lifecycle_budgeted [simp]:
  "keeps stopped \<Longrightarrow> t = ''stdout'' \<or> t = ''stderr'' \<Longrightarrow>
     filter lifecycle (delivered (budgeted consumer stopped env t x l h)) =
       filter lifecycle (delivered h)"
  by (auto simp: budgeted_def)

lemma budgeted_output_bytes:
  "keeps stopped \<Longrightarrow> t = ''stdout'' \<or> t = ''stderr'' \<Longrightarrow>
     output_bytes (delivered h) = totalLogBytes h \<Longrightarrow>
     output_bytes (delivered (budgeted consumer stopped env t x l h)) =
       totalLogBytes (budgeted consumer stopped env t x l h)"
  by (auto simp: budgeted_def no_payload_def)

lemma budgeted_within:
  "keeps stopped \<Longrightarrow> totalLogBytes h \<le> maxLogBytes env \<Longrightarrow>
     totalLogBytes (budgeted consumer stopped env t x l h) \<le> maxLogBytes env"
  by (simp add: budgeted_def)

lemma budgeted_patient_py:
  assumes "patient consumer"
  shows "py_listeners (budgeted consumer py_stopped env t x l h) = py_listeners h"
    and "rc_timer (budgeted consumer py_stopped env t x l h) = rc_timer h"
    and "py_worker (budgeted consumer py_stopped env t x l h) = py_worker h"
  using assms by (simp_all add: budgeted_def reacting_patient)

lemma js_budget_task:
  "budget_ok env h \<Longrightarrow> budget_ok env (snd (js_task consumer env rnd stim h))"
  by (cases stim)
     (auto simp: budget_ok_def js_defs stmt_defs Let_def budgeted_output_bytes budgeted_within
        split: option.splits)

lemma js_sim_task:
  "patient consumer \<Longrightarrow> js_sim h h' \<Longrightarrow>
     js_sim (snd (js_task consumer env rnd stim h))
            (snd (js_task consumer (env\<lparr>maxLogBytes := b\<rparr>) rnd stim h'))"
  by (cases stim)
     (auto simp: js_sim_def js_defs stmt_defs Let_def jenv_of_def js_resolve_def default_opt_def
        reacting_patient budgeted_patient_js split: option.splits)

lemma listener_call_budget:
  "py_budget env h \<Longrightarrow> py_budget env (snd (listener_call (call_consumer consumer py_stop) env msg cb h))"
  by (cases cb)
     (auto simp: py_budget_def budget_ok_def listener_call_runner warned_once_budgeted
        listener_call_waiter budgeted_output_bytes budgeted_within, auto simp: warned_once_def)

lemma worker_onmessage_budget:
  "py_budget env h \<Longrightarrow> py_budget env (snd (worker_onmessage (call_listener (call_consumer consumer py_stop) env) rnd e h))"
proof -
  assume b: "py_budget env h"
  have "py_budget env (snd (forEach (listener_call (call_consumer consumer py_stop) env msg) cbs h'))"
    if "py_budget env h'" for msg cbs h'
    using that by (intro forEach_invariant[where P = "py_budget env"] listener_call_budget)
  moreover have "py_budget env (h\<lparr>py_ready := True\<rparr>)"
    using b by (simp add: py_budget_def budget_ok_def warned_once_def)
  ultimately show ?thesis
    unfolding worker_onmessage_effect using b by simp
qed

lemma resumed_budget: "py_budget env h \<Longrightarrow> py_budget env (resumed consumer env rnd h)"
  by (simp add: py_budget_def resumed_def Let_def) (simp add: budget_ok_def warned_once_def)

lemma py_budget_task:
  "py_budget env h \<Longrightarrow> py_budget env (snd (py_task consumer env rnd stim h))"
proof (cases stim)
  case (WorkerMessage e)
  assume "py_budget env h"
  then show ?thesis unfolding WorkerMessage py_message_effect
    by (simp add: Let_def worker_onmessage_budget resumed_budget)
qed (auto simp: py_budget_def budget_ok_def warned_once_def py_task_def py_timer_callback_def
      py_stop_stopped emit_emitted emitted_def dispose_effect stmt_defs)

lemma listener_call_sim:
  "patient consumer \<Longrightarrow> py_sim h h' \<Longrightarrow>
     py_sim (snd (listener_call (call_consumer consumer py_stop) env msg cb h))
            (snd (listener_call (call_consumer consumer py_stop) (env\<lparr>maxLogBytes := b\<rparr>) msg cb h'))"
  by (cases cb)
     (auto simp: py_sim_def listener_call_runner listener_call_waiter reacting_patient
        budgeted_patient_py)

lemma forEach_sim:
  "patient consumer \<Longrightarrow> py_sim h h' \<Longrightarrow>
     py_sim (snd (forEach (listener_call (call_consumer consumer py_stop) env msg) cbs h))
            (snd (forEach (listener_call (call_consumer consumer py_stop) (env\<lparr>maxLogBytes := b\<rparr>) msg) cbs h'))"
proof (induction cbs arbitrary: h h')
  case Nil
  then show ?case by (simp add: js_skip_def)
next
  case (Cons cb cbs)
  have m: "cb \<in> set (py_listeners h) \<longleftrightarrow> cb \<in> set (py_listeners h')"
    using Cons.prems(2) by (simp add: py_sim_def)
  show ?case unfolding forEach_step
    using Cons.prems m by (auto intro!: Cons.IH listener_call_sim)
qed

lemma worker_onmessage_sim:
  "patient consumer \<Longrightarrow> py_sim h h' \<Longrightarrow>
     py_sim (snd (worker_onmessage (call_listener (call_consumer consumer py_stop) env) rnd e h))
            (snd (worker_onmessage (call_listener (call_consumer consumer py_stop) (env\<lparr>maxLogBytes := b\<rparr>)) rnd e h'))"
proof -
  assume p: "patient consumer" and s: "py_sim h h'"
  then have l: "py_listeners h = py_listeners h'" by (simp add: py_sim_def)
  have "py_sim (h\<lparr>py_ready := True\<rparr>) (h'\<lparr>py_ready := True\<rparr>)"
    using s by (simp add: py_sim_def)
  then show ?thesis
    unfolding worker_onmessage_effect l using s p by (auto intro!: forEach_sim)
qed

lemma resumed_sim:
  "patient consumer \<Longrightarrow> py_sim h h' \<Longrightarrow> py_sim (resumed consumer env rnd h) (resumed consumer (env\<lparr>maxLogBytes := b\<rparr>) rnd h')"
  by (auto simp: py_sim_def resumed_def Let_def reacting_patient)

lemma py_sim_task:
  "patient consumer \<Longrightarrow> py_sim h h' \<Longrightarrow>
     py_sim (snd (py_task consumer env rnd stim h))
            (snd (py_task consumer (env\<lparr>maxLogBytes := b\<rparr>) rnd stim h'))"
proof (cases stim)
  case (WorkerMessage e)
  assume p: "patient consumer" and s: "py_sim h h'"
  let ?g = "snd (worker_onmessage (call_listener (call_consumer consumer py_stop) env) rnd e h)"
  let ?g' = "snd (worker_onmessage (call_listener (call_consumer consumer py_stop) (env\<lparr>maxLogBytes := b\<rparr>)) rnd e h')"
  have w: "py_sim ?g ?g'" using p s by (rule worker_onmessage_sim)
  then have "rc_run ?g = rc_run ?g'" by (simp add: py_sim_def)
  then show ?thesis unfolding WorkerMessage py_message_effect Let_def
    using w p by (simp add: resumed_sim)
qed (auto simp: py_sim_def py_defs stmt_defs reacting_patient)

section \<open>A call of stop from inside the callback\<close>

lemma requested_snoc:
  "n \<le> length evs \<Longrightarrow>
     requested consumer n (evs @ [e]) = (requested consumer n evs \<or> r_stops (consumer evs e))"
proof -
  assume n: "n \<le> length evs"
  have "[n..<length (evs @ [e])] = [n..<length evs] @ [length evs]"
    using n by simp
  moreover have "list_ex (\<lambda>i. r_stops (consumer (take i (evs @ [e])) ((evs @ [e]) ! i))) [n..<length evs] =
      list_ex (\<lambda>i. r_stops (consumer (take i evs) (evs ! i))) [n..<length evs]"
    by (simp add: list_ex_iff nth_append)
  ultimately show ?thesis
    by (simp add: requested_def)
qed

lemma requested_none [simp]: "\<not> requested consumer (length evs) evs"
  by (simp add: requested_def)

lemma js_heeds_reacting:
  "js_heeds consumer n h \<Longrightarrow> js_heeds consumer n (reacting consumer js_stopped ev h)"
  by (auto simp: js_heeds_def requested_snoc reacting_js_stop)

lemma js_heeds_budgeted:
  "js_heeds consumer n h \<Longrightarrow> js_heeds consumer n (budgeted consumer js_stopped env t x l h)"
proof -
  assume h: "js_heeds consumer n h"
  have "js_heeds consumer n (h\<lparr>totalLogBytes := a\<rparr>)" "js_heeds consumer n (h\<lparr>truncatedNotified := b\<rparr>)"
    for a b
    using h by (simp_all add: js_heeds_def)
  then show ?thesis
    using h by (simp add: budgeted_def js_heeds_reacting)
qed

lemma js_heeds_fields [simp]:
  "js_heeds consumer n (h\<lparr>js_finished := a\<rparr>) = js_heeds consumer n h"
  "js_heeds consumer n (h\<lparr>js_totalLogBytes := b\<rparr>) = js_heeds consumer n h"
  "js_heeds consumer n (h\<lparr>js_truncatedNotified := c\<rparr>) = js_heeds consumer n h"
  "js_heeds consumer n (h\<lparr>js_posted := d\<rparr>) = js_heeds consumer n h"
  "js_heeds consumer n (h\<lparr>js_iframe := f\<rparr>) = js_heeds consumer n h"
  by (simp_all add: js_heeds_def)

lemma js_heeds_quiet:
  "js_heeds consumer n h \<Longrightarrow> js_heeds consumer n (h\<lparr>js_timer := None\<rparr>)"
  "js_heeds consumer n h \<Longrightarrow> js_heeds consumer n (h\<lparr>js_listening := False\<rparr>)"
  "js_heeds consumer n h \<Longrightarrow> js_heeds consumer n (js_stopped h)"
  by (auto simp: js_heeds_def)

lemmas js_heeds_intros = js_heeds_reacting js_heeds_budgeted js_heeds_quiet

lemma js_heeds_task:
  "js_heeds consumer n h \<Longrightarrow> js_heeds consumer n (snd (js_task consumer env rnd stim h))"
  by (cases stim)
     (auto simp: js_defs stmt_defs Let_def split: option.splits intro!: js_heeds_intros)

lemma py_heeds_reacting:
  "py_heeds consumer n h \<Longrightarrow> py_heeds consumer n (reacting consumer py_stopped ev h)"
  by (auto simp: py_heeds_def requested_snoc reacting_py_stop)

lemma py_heeds_budgeted:
  "py_heeds consumer n h \<Longrightarrow> py_heeds consumer n (budgeted consumer py_stopped env t x l h)"
proof -
  assume h: "py_heeds consumer n h"
  have "py_heeds consumer n (h\<lparr>totalLogBytes := a\<rparr>)" "py_heeds consumer n (h\<lparr>truncatedNotified := b\<rparr>)"
    for a b
    using h by (simp_all add: py_heeds_def)
  then show ?thesis
    using h by (simp add: budgeted_def py_heeds_reacting)
qed

lemma py_heeds_fields [simp]:
  "py_heeds consumer n (h\<lparr>rc_run := a\<rparr>) = py_heeds consumer n h"
  "py_heeds consumer n (h\<lparr>rc_finished := b\<rparr>) = py_heeds consumer n h"
  "py_heeds consumer n (h\<lparr>py_posted := c\<rparr>) = py_heeds consumer n h"
  "py_heeds consumer n (h\<lparr>py_ready := d\<rparr>) = py_heeds consumer n h"
  "py_heeds consumer n (h\<lparr>py_worker := f\<rparr>) = py_heeds consumer n h"
  "py_heeds consumer n (h\<lparr>py_terminated := g\<rparr>) = py_heeds consumer n h"
  by (simp_all add: py_heeds_def)

lemma py_heeds_quiet:
  "py_heeds consumer n h \<Longrightarrow> py_heeds consumer n (h\<lparr>rc_timer := None\<rparr>)"
  "py_heeds consumer n h \<Longrightarrow> py_heeds consumer n (h\<lparr>py_listeners := []\<rparr>)"
  "py_heeds consumer n h \<Longrightarrow> py_heeds consumer n (h\<lparr>py_listeners := removeAll cb (py_listeners h)\<rparr>)"
  "py_heeds consumer n h \<Longrightarrow> py_heeds consumer n (py_stopped h)"
  by (auto simp: py_heeds_def)

lemmas py_heeds_intros = py_heeds_reacting py_heeds_budgeted py_heeds_quiet

lemma listener_call_heeds:
  "py_heeds consumer n h \<Longrightarrow>
     py_heeds consumer n (snd (listener_call (call_consumer consumer py_stop) env msg cb h))"
  by (cases cb)
     (auto simp: listener_call_runner listener_call_waiter intro!: py_heeds_intros)

lemma worker_onmessage_heeds:
  "py_heeds consumer n h \<Longrightarrow>
     py_heeds consumer n (snd (worker_onmessage (call_listener (call_consumer consumer py_stop) env) rnd e h))"
proof -
  assume h: "py_heeds consumer n h"
  have "py_heeds consumer n
      (snd (forEach (listener_call (call_consumer consumer py_stop) env msg) cbs h'))"
    if "py_heeds consumer n h'" for msg cbs h'
    using that by (intro forEach_invariant[where P = "py_heeds consumer n"] listener_call_heeds)
  then show ?thesis
    unfolding worker_onmessage_effect using h by simp
qed

lemma resumed_heeds: "py_heeds consumer n h \<Longrightarrow> py_heeds consumer n (resumed consumer env rnd h)"
  by (auto simp: resumed_def Let_def intro!: py_heeds_intros)

lemma py_heeds_task:
  "py_heeds consumer n h \<Longrightarrow> py_heeds consumer n (snd (py_task consumer env rnd stim h))"
proof (cases stim)
  case (WorkerMessage e)
  assume "py_heeds consumer n h"
  then show ?thesis unfolding WorkerMessage py_message_effect
    by (simp add: Let_def worker_onmessage_heeds resumed_heeds)
next
  case TimerFire
  assume "py_heeds consumer n h"
  then show ?thesis unfolding TimerFire
    by (auto simp: py_task_def py_timer_callback_def emit_emitted emitted_def dispose_effect
        stmt_defs intro!: py_heeds_intros)
next
  case StopCall
  assume "py_heeds consumer n h"
  then show ?thesis unfolding StopCall
    by (simp add: py_task_def py_stop_stopped py_heeds_quiet)
qed (simp_all add: py_task_def js_skip_def)

lemma heeds_task: "heeds consumer n st \<Longrightarrow> heeds consumer n (snd (task consumer env rnd stim st))"
  by (cases st) (simp_all add: heeds_def task_JsRun task_PyRun task_NoRun js_heeds_task py_heeds_task)

lemma heeds_dead:
  "heeds consumer n st \<Longrightarrow> settled st \<Longrightarrow> requested consumer n (events st) \<Longrightarrow> dead st"
  by (cases st)
     (auto simp: heeds_def settled_def dead_def events_def js_heeds_def py_heeds_def js_dead_def
        py_dead_def)

lemma callback_stop_silences:
  assumes "requested consumer (length (stream consumer options rnd []))
             (stream consumer options rnd pre)"
  shows "stream consumer options rnd (pre @ post) = stream consumer options rnd pre"
proof -
  let ?env = "resolve_options options rnd"
  let ?start = "snd (runCode consumer ?env rnd)"
  let ?st = "run_from consumer ?env rnd ?start pre"
  let ?n = "length (events ?start)"
  have n: "stream consumer options rnd [] = events ?start"
    by (simp add: stream_run_from run_from_def)
  have "heeds consumer ?n ?start"
    by (cases ?start) (simp_all add: heeds_def js_heeds_def py_heeds_def events_def)
  then have "heeds consumer ?n ?st"
    by (rule run_from_invariant) (rule heeds_task)
  moreover have "settled ?st"
    by (rule run_from_invariant) (simp_all add: settled_runCode settled_task)
  moreover have "requested consumer ?n (events ?st)"
    using assms unfolding n by (simp add: stream_run_from)
  ultimately have "dead ?st"
    by (rule heeds_dead)
  then have "events (run_from consumer ?env rnd ?st post) = events ?st"
    by (simp add: dead_run_from)
  then show ?thesis
    by (simp add: stream_run_from run_from_append)
qed

section \<open>In a Python run, a delivery in which stop is called is the last one\<close>

lemma forEach_invariant_member:
  assumes "\<And>cb s. P s \<Longrightarrow> cb \<in> set (py_listeners s) \<Longrightarrow> P (snd (f cb s))" and "P s"
  shows "P (snd (forEach f cbs s))"
  using assms(2)
proof (induction cbs arbitrary: s)
  case Nil
  then show ?case by (simp add: js_skip_def)
next
  case (Cons cb cbs)
  have "P (snd (js_cond (\<lambda>st. cb \<in> set (py_listeners st)) (f cb) js_skip s))"
    using Cons.prems assms(1) by (simp add: js_cond_def js_skip_def)
  then show ?case using Cons.IH
    by (auto simp: js_seq_def split: prod.splits option.splits)
qed

lemma py_prompt_reacting:
  "py_prompt consumer n h \<Longrightarrow> \<not> requested consumer n (delivered h) \<Longrightarrow>
     py_prompt consumer n (reacting consumer py_stopped ev h)"
  by (simp add: py_prompt_def py_heeds_reacting)

lemma py_prompt_budgeted:
  "py_prompt consumer n h \<Longrightarrow> \<not> requested consumer n (delivered h) \<Longrightarrow>
     py_prompt consumer n (budgeted consumer py_stopped env t x l h)"
  by (simp add: py_prompt_def py_heeds_budgeted) (simp add: budgeted_def)

lemma py_prompt_fields [simp]:
  "py_prompt consumer n (h\<lparr>rc_run := a\<rparr>) = py_prompt consumer n h"
  "py_prompt consumer n (h\<lparr>rc_finished := b\<rparr>) = py_prompt consumer n h"
  "py_prompt consumer n (h\<lparr>py_posted := c\<rparr>) = py_prompt consumer n h"
  "py_prompt consumer n (h\<lparr>py_ready := d\<rparr>) = py_prompt consumer n h"
  "py_prompt consumer n (h\<lparr>py_worker := f\<rparr>) = py_prompt consumer n h"
  "py_prompt consumer n (h\<lparr>py_terminated := g\<rparr>) = py_prompt consumer n h"
  by (simp_all add: py_prompt_def)

lemma py_prompt_quiet:
  "py_prompt consumer n h \<Longrightarrow> py_prompt consumer n (h\<lparr>rc_timer := None\<rparr>)"
  "py_prompt consumer n h \<Longrightarrow> py_prompt consumer n (h\<lparr>py_listeners := []\<rparr>)"
  "py_prompt consumer n h \<Longrightarrow>
     py_prompt consumer n (h\<lparr>py_listeners := removeAll cb (py_listeners h)\<rparr>)"
  "py_prompt consumer n h \<Longrightarrow> py_prompt consumer n (py_stopped h)"
  by (simp_all add: py_prompt_def py_heeds_quiet)

lemma py_prompt_listening:
  "py_prompt consumer n h \<Longrightarrow> cb \<in> set (py_listeners h) \<Longrightarrow>
     \<not> requested consumer n (delivered h)"
  by (auto simp: py_prompt_def py_heeds_def)

lemma py_prompt_armed:
  "py_prompt consumer n h \<Longrightarrow> rc_timer h \<noteq> None \<Longrightarrow> \<not> requested consumer n (delivered h)"
  by (auto simp: py_prompt_def py_heeds_def)

lemma listener_call_dispatching:
  assumes "py_dispatching consumer n msg h" and "cb \<in> set (py_listeners h)"
  shows "py_dispatching consumer n msg
           (snd (listener_call (call_consumer consumer py_stop) env msg cb h))"
proof -
  have p: "py_prompt consumer n h" and
    r: "rc_run h \<noteq> Resumed \<or> (m_type msg = Some ''ready'' \<and> \<not> requested consumer n (delivered h))"
    using assms(1) by (simp_all add: py_dispatching_def)
  have q: "\<not> requested consumer n (delivered h)"
    using p assms(2) by (rule py_prompt_listening)
  show ?thesis
  proof (cases cb)
    case RunnerListener
    show ?thesis
    proof (cases "m_type msg = Some ''ready''")
      case True
      then show ?thesis
        using assms(1) by (simp add: RunnerListener listener_call_runner)
    next
      case False
      then have "rc_run h \<noteq> Resumed" using r by simp
      then show ?thesis
        using p q
        by (simp add: RunnerListener listener_call_runner py_dispatching_def py_prompt_reacting
            py_prompt_budgeted)
    qed
  next
    case ReadyWaiter
    show ?thesis
      using p q r
      by (simp add: ReadyWaiter listener_call_waiter py_dispatching_def py_prompt_quiet)
  qed
qed

lemma worker_onmessage_dispatching:
  assumes "py_prompt consumer n h" and "rc_run h \<noteq> Resumed"
  shows "py_dispatching consumer n (default_opt e empty_wmsg)
           (snd (worker_onmessage (call_listener (call_consumer consumer py_stop) env) rnd e h))"
proof -
  let ?msg = "default_opt e empty_wmsg"
  have "py_dispatching consumer n ?msg
      (snd (forEach (listener_call (call_consumer consumer py_stop) env ?msg) cbs h'))"
    if "py_dispatching consumer n ?msg h'" for cbs h'
    using that
    by (intro forEach_invariant_member[where P = "py_dispatching consumer n ?msg"]
          listener_call_dispatching)
  moreover have "py_dispatching consumer n ?msg h"
    "py_dispatching consumer n ?msg (h\<lparr>py_ready := True\<rparr>)"
    using assms by (simp_all add: py_dispatching_def)
  ultimately show ?thesis
    unfolding worker_onmessage_effect by simp
qed

lemma resumed_prompt:
  "py_prompt consumer n h \<Longrightarrow> \<not> requested consumer n (delivered h) \<Longrightarrow>
     py_prompt consumer n (resumed consumer env rnd h)"
  by (auto simp: resumed_def Let_def intro!: py_prompt_reacting py_prompt_quiet)

lemma py_prompt_task:
  assumes "py_prompt consumer n h" and "rc_run h \<noteq> Resumed"
  shows "py_prompt consumer n (snd (py_task consumer env rnd stim h))"
proof (cases stim)
  case (WorkerMessage e)
  let ?g = "snd (worker_onmessage (call_listener (call_consumer consumer py_stop) env) rnd e h)"
  have "py_dispatching consumer n (default_opt e empty_wmsg) ?g"
    using assms by (rule worker_onmessage_dispatching)
  then show ?thesis unfolding WorkerMessage py_message_effect
    by (auto simp: Let_def py_dispatching_def resumed_prompt)
next
  case TimerFire
  show ?thesis
  proof (cases "rc_timer h = None")
    case True
    then show ?thesis using assms(1) by (simp add: TimerFire py_task_def stmt_defs)
  next
    case False
    then have "\<not> requested consumer n (delivered h)"
      using assms(1) by (intro py_prompt_armed)
    then have "py_prompt consumer n
        (reacting consumer py_stopped ev (h\<lparr>rc_timer := None\<rparr>))" for ev
      using assms(1) by (intro py_prompt_reacting py_prompt_quiet) simp_all
    then show ?thesis
      using assms(1)
      by (auto simp: TimerFire py_task_def py_timer_callback_def emit_emitted emitted_def
          dispose_effect stmt_defs intro!: py_prompt_quiet)
  qed
next
  case StopCall
  show ?thesis using assms(1)
    by (simp add: StopCall py_task_def py_stop_stopped py_prompt_quiet)
qed (simp_all add: py_task_def js_skip_def assms(1))

lemma prompt_task: "prompt consumer n st \<Longrightarrow> prompt consumer n (snd (task consumer env rnd stim st))"
  by (cases st) (simp_all add: prompt_def task_PyRun py_prompt_task py_settled_task)

lemma prompt_runCode:
  "py_family (language env) \<Longrightarrow> \<not> js_family (language env) \<Longrightarrow>
     prompt consumer (length (events (snd (runCode consumer env rnd)))) (snd (runCode consumer env rnd))"
  by (simp add: runCode_def emit_emitted emitted_def in_py_def runPython_def run_begin_def
      ensureWorker_def postMessage_py_def onMessage_def microtasks_def py_host_of_def
      prompt_def py_prompt_def py_heeds_def events_def requested_def stmt_defs
      split: prod.splits)

lemma python_stop_is_last:
  assumes "py_family (language (resolve_options options rnd))"
    and "\<not> js_family (language (resolve_options options rnd))"
  shows "claimed_stop consumer (length (stream consumer options rnd []))
           (stream consumer options rnd stims)"
proof -
  let ?env = "resolve_options options rnd"
  let ?start = "snd (runCode consumer ?env rnd)"
  let ?st = "run_from consumer ?env rnd ?start stims"
  let ?n = "length (events ?start)"
  have n: "stream consumer options rnd [] = events ?start"
    by (simp add: stream_run_from run_from_def)
  have "prompt consumer ?n ?start"
    using assms by (rule prompt_runCode)
  then have "prompt consumer ?n ?st"
    by (rule run_from_invariant) (rule prompt_task)
  then have "\<not> requested consumer ?n (butlast (events ?st))"
    by (cases ?st) (simp_all add: prompt_def py_prompt_def events_def)
  then show ?thesis
    unfolding n claimed_stop_def by (simp add: stream_run_from)
qed

section \<open>Defaults, unsupported languages and throwing callbacks\<close>

lemma runCode_js_timer:
  "js_family (language env) \<Longrightarrow> armed_timer (snd (runCode consumer env rnd)) = Some (timeoutMs env)"
  by (simp add: runCode_def emit_emitted emitted_def in_js_def runJavaScript_def js_emits_sync
      stmt_defs jenv_of_def js_resolve_def default_opt_def armed_timer_def js_host_of_def
      split: prod.splits)

lemma runCode_py_timer:
  "\<not> js_family (language env) \<Longrightarrow> py_family (language env) \<Longrightarrow>
     armed_timer (snd (runCode consumer env rnd)) = Some (timeoutMs env)"
  by (simp add: runCode_def emit_emitted emitted_def in_py_def runPython_def run_begin_def
      ensureWorker_def postMessage_py_def onMessage_def microtasks_def stmt_defs armed_timer_def
      py_host_of_def split: prod.splits)

lemma runCode_unsupported:
  "\<not> js_family (language env) \<Longrightarrow> \<not> py_family (language env) \<Longrightarrow>
     runCode consumer env rnd =
       (None, NoRun \<lparr>delivered = unsupported_events env, totalLogBytes = 0,
                     truncatedNotified = False\<rparr>)"
  by (simp add: runCode_def emit_emitted emitted_def in_none_def stmt_defs unsupported_events_def)

lemma tasks_NoRun: "tasks consumer env rnd stims (es, NoRun h) = (es, NoRun h)"
  by (induction stims) (simp_all add: task_def)

text \<open>
  C9. When \<open>timeoutMs\<close> is not given (or no options object at all), the resolved timeout is
  5000 ms and it is the delay the timer of a JavaScript or Python run is armed with
  (\<open>runJavaScript\<close>'s own default of 3000 ms is overridden); when \<open>maxLogBytes\<close> is not
  given, the budget \<open>budgetedEmit\<close> compares against is 65536 bytes.
\<close>

theorem runCode_defaults:
  "(o_timeoutMs opts = None \<longrightarrow>
      timeoutMs (resolve_options (Some opts) rnd) = 5000 \<and>
      (js_family (language (resolve_options (Some opts) rnd)) \<or>
       py_family (language (resolve_options (Some opts) rnd)) \<longrightarrow>
         armed_timer (snd (runCode consumer (resolve_options (Some opts) rnd) rnd)) = Some 5000)) \<and>
   (o_maxLogBytes opts = None \<longrightarrow> maxLogBytes (resolve_options (Some opts) rnd) = 65536) \<and>
   timeoutMs (resolve_options None rnd) = 5000 \<and>
   maxLogBytes (resolve_options None rnd) = 65536 \<and>
   armed_timer (snd (runCode consumer (resolve_options None rnd) rnd)) = Some 5000"
proof -
  let ?env = "resolve_options (Some opts) rnd"
  have t: "timeoutMs ?env = 5000" if "o_timeoutMs opts = None"
    using that by (simp add: resolve_options_def default_opt_def Let_def)
  have a: "armed_timer (snd (runCode consumer ?env rnd)) = Some (timeoutMs ?env)"
    if "js_family (language ?env) \<or> py_family (language ?env)"
    using that runCode_js_timer[of ?env consumer rnd] runCode_py_timer[of ?env consumer rnd]
    by blast
  have m: "maxLogBytes ?env = 65536" if "o_maxLogBytes opts = None"
    using that by (simp add: resolve_options_def default_opt_def Let_def)
  have n: "timeoutMs (resolve_options None rnd) = 5000"
    "maxLogBytes (resolve_options None rnd) = 65536"
    "js_family (language (resolve_options None rnd))"
    by (simp_all add: resolve_options_def default_opt_def Let_def js_family_def)
  have "armed_timer (snd (runCode consumer (resolve_options None rnd) rnd)) = Some 5000"
    using runCode_js_timer[OF n(3), of consumer rnd] n(1) by simp
  with t a m n show ?thesis by simp
qed

theorem runCode_defaults_witness:
  "timeoutMs (resolve_options (Some (opts0 ''python'')) rnd0) = 5000 \<and>
   armed_timer (snd (runCode silent (resolve_options (Some (opts0 ''python'')) rnd0) rnd0)) = Some 5000 \<and>
   maxLogBytes (resolve_options (Some (opts0 ''python'')) rnd0) = 65536"
proof -
  have l: "language (resolve_options (Some (opts0 ''python'')) rnd0) = ''python''"
    by (simp add: resolve_options_def opts0_def default_opt_def Let_def)
  have "o_timeoutMs (opts0 ''python'') = None" "o_maxLogBytes (opts0 ''python'') = None"
    "py_family ''python''"
    by (simp_all add: opts0_def py_family_def)
  then show ?thesis
    using runCode_defaults[of "opts0 ''python''" rnd0 silent] l by simp
qed

text \<open>
  C6. For a language that is none of javascript, js, typescript, ts, python, py, the whole
  run is: \<open>init\<close>, then \<open>error\<close> with the message \<open>Unsupported language: \<close> followed by
  the language, then \<open>done\<close>. No exception escapes, no isolation context exists
  (the state is \<open>NoRun\<close>), and whatever happens afterwards, a call of the returned \<open>stop\<close>
  included, changes nothing.
\<close>

theorem unsupported_language:
  assumes "\<not> js_family (language (resolve_options options rnd))"
    and "\<not> py_family (language (resolve_options options rnd))"
  shows "execution consumer options rnd stims =
           ([], NoRun \<lparr>delivered = unsupported_events (resolve_options options rnd),
                       totalLogBytes = 0, truncatedNotified = False\<rparr>)"
  using assms by (simp add: execution_def Let_def runCode_unsupported tasks_NoRun)

theorem unsupported_language_witness:
  "map (\<lambda>e. (ev_type e, p_message (ev_payload e)))
     (stream throwing (Some (opts0 ''ruby'')) rnd0 [StopCall, TimerFire]) =
     [(''init'', None), (''error'', Some ''Unsupported language: ruby''), (''done'', None)]"
proof -
  have l: "language (resolve_options (Some (opts0 ''ruby'')) rnd0) = ''ruby''"
    by (simp add: resolve_options_def opts0_def default_opt_def Let_def)
  have "\<not> js_family ''ruby''" "\<not> py_family ''ruby''"
    by (simp_all add: js_family_def py_family_def)
  then show ?thesis
    using unsupported_language[of "Some (opts0 ''ruby'')" rnd0 throwing "[StopCall, TimerFire]"] l
    by (simp add: stream_def events_def unsupported_events_def mk_event_def no_payload_def)
qed

lemma js_emit_hushed: "js_emit (hushed cb) jenv = js_emit cb jenv"
  by (intro ext)
     (simp add: js_emit_def hushed_def js_try_def js_skip_def split: prod.splits option.splits)

lemma emit_hushed: "emit (hushed cb) env = emit cb env"
  by (intro ext)
     (simp add: emit_def hushed_def js_try_def js_skip_def split: prod.splits option.splits)

lemma handleMsg_hushed: "handleMsg (hushed cb) jenv = handleMsg cb jenv"
  by (intro ext) (simp add: handleMsg_def js_emit_hushed Let_def split: option.splits)

lemma js_timer_callback_hushed: "js_timer_callback (hushed cb) jenv = js_timer_callback cb jenv"
  by (simp add: js_timer_callback_def js_emit_hushed)

lemma runJavaScript_hushed: "runJavaScript (hushed cb) jenv = runJavaScript cb jenv"
  by (simp add: runJavaScript_def js_emit_hushed)

lemma safe_js_timer_callback: "safe (js_timer_callback cb jenv)"
  unfolding js_timer_callback_def by (intro safe_intros safe_js_emit safe_cleanup)

lemma budgetedEmit_hushed: "budgetedEmit (hushed cb) env = budgetedEmit cb env"
  by (intro ext) (simp add: budgetedEmit_def emit_hushed)

lemma js_onEvent_hushed: "js_onEvent (hushed cb) env = js_onEvent cb env"
  by (intro ext) (simp add: js_onEvent_def budgetedEmit_hushed emit_hushed)

lemma runner_listener_hushed: "runner_listener (hushed cb) env = runner_listener cb env"
  by (intro ext) (simp add: runner_listener_def budgetedEmit_hushed emit_hushed)

lemma py_timer_callback_hushed: "py_timer_callback (hushed cb) env = py_timer_callback cb env"
  by (simp add: py_timer_callback_def emit_hushed)

lemma microtasks_hushed: "microtasks (hushed cb) env rnd = microtasks cb env rnd"
  by (simp add: microtasks_def run_finally_def emit_hushed)

lemma safe_js_onEvent: "safe (js_onEvent cb env evt)"
  unfolding js_onEvent_def by (intro safe_intros safe_budgetedEmit)

lemma safe_runner_listener: "safe (runner_listener cb env msg)"
  unfolding runner_listener_def by (auto intro!: safe_intros safe_budgetedEmit)

lemma safe_py_timer_callback: "safe (py_timer_callback cb env)"
  unfolding py_timer_callback_def by (intro safe_intros safe_dispose)

lemma worker_onmessage_hushed:
  "worker_onmessage (\<lambda>l. hushed (call l)) rnd e = worker_onmessage call rnd e"
proof -
  have eq: "js_try (hushed (call l) m) (\<lambda>_. js_skip) = js_try (call l m) (\<lambda>_. js_skip)"
    for l m
    by (intro ext)
       (simp add: hushed_def js_try_def js_skip_def split: prod.splits option.splits)
  show ?thesis
    by (simp add: worker_onmessage_def eq Let_def)
qed

lemma forEach_caught:
  "forEach (\<lambda>l. js_try (f l) (\<lambda>_. js_skip)) (l # ls) g =
     forEach (\<lambda>l. js_try (f l) (\<lambda>_. js_skip)) ls
       (if l \<in> set (py_listeners g) then snd (f l g) else g)"
  by (simp add: js_seq_def js_cond_def js_try_def js_skip_def split: prod.splits option.splits)

lemma safeE: "safe f \<Longrightarrow> fst (f s) = None"
  by (simp add: safe_def)

text \<open>
  C10. No exception of a callback leaves the code that calls it, and what the callback
  throws has no influence on what happens next. For the consumer of \<open>runCode\<close>, whatever
  it does with an event: no exception leaves \<open>runCode\<close>, a host task or \<open>stop\<close>, and the
  run is the one of the consumer that does the same but returns where it would throw. For
  any callback handed to \<open>runJavaScript\<close>: no exception leaves its synchronous part, its
  message handler or its timer callback, and each of them goes on as with the callback
  that returns instead; the same holds of the orchestrator's own handlers (\<open>js_onEvent\<close>,
  \<open>runner_listener\<close>, the Python timer callback and the \<open>finally\<close> handler). For any
  listeners registered on an executor, whatever they do: no exception leaves
  \<open>worker.onmessage\<close>, it goes on as with listeners that return instead, and after a
  listener has been called, throwing or not, the loop goes on with the next one from the
  state that listener left.
\<close>

theorem callback_exceptions_contained:
  "fst (execution consumer options rnd stims) = [] \<and>
   execution consumer options rnd stims = execution (calm consumer) options rnd stims \<and>
   fst (runJavaScript cb jenv h) = None \<and>
   fst (handleMsg cb jenv d h) = None \<and>
   fst (js_timer_callback cb jenv h) = None \<and>
   runJavaScript cb jenv = runJavaScript (hushed cb) jenv \<and>
   handleMsg cb jenv d = handleMsg (hushed cb) jenv d \<and>
   js_timer_callback cb jenv = js_timer_callback (hushed cb) jenv \<and>
   fst (js_onEvent onEvent env evt k) = None \<and>
   js_onEvent onEvent env = js_onEvent (hushed onEvent) env \<and>
   fst (runner_listener onEvent env msg k) = None \<and>
   runner_listener onEvent env = runner_listener (hushed onEvent) env \<and>
   fst (py_timer_callback onEvent' env p) = None \<and>
   py_timer_callback onEvent' env = py_timer_callback (hushed onEvent') env \<and>
   fst (microtasks onEvent' env rnd p) = None \<and>
   microtasks onEvent' env rnd = microtasks (hushed onEvent') env rnd \<and>
   fst (worker_onmessage call rnd e g) = None \<and>
   worker_onmessage call rnd e = worker_onmessage (\<lambda>l. hushed (call l)) rnd e \<and>
   forEach (\<lambda>l. js_try (call l m) (\<lambda>_. js_skip)) (l # ls) g =
     forEach (\<lambda>l. js_try (call l m) (\<lambda>_. js_skip)) ls
       (if l \<in> set (py_listeners g) then snd (call l m g) else g)"
proof -
  have 1: "fst (execution consumer options rnd stims) = []"
    by (rule execution_no_throw)
  have 2: "execution consumer options rnd stims = execution (calm consumer) options rnd stims"
    by (simp add: execution_calm)
  have 3: "fst (runJavaScript cb jenv h) = None" "fst (handleMsg cb jenv d h) = None"
    "fst (js_timer_callback cb jenv h) = None"
    by (simp_all add: safeE safe_runJavaScript safe_handleMsg safe_js_timer_callback)
  have 4: "fst (js_onEvent onEvent env evt k) = None"
    "fst (runner_listener onEvent env msg k) = None"
    "fst (py_timer_callback onEvent' env p) = None"
    "fst (microtasks onEvent' env rnd p) = None"
    "fst (worker_onmessage call rnd e g) = None"
    by (simp_all add: safeE safe_js_onEvent safe_runner_listener safe_py_timer_callback
        safe_microtasks safe_worker_onmessage)
  show ?thesis
    using 1 2 3 4 forEach_caught[of "\<lambda>l. call l m" l ls g]
    by (simp add: runJavaScript_hushed handleMsg_hushed js_timer_callback_hushed
        js_onEvent_hushed runner_listener_hushed py_timer_callback_hushed microtasks_hushed
        worker_onmessage_hushed)
qed

theorem callback_exceptions_contained_witness:
  "fst (execution throwing (Some (opts0 ''js'')) rnd0 [IframeLoad, TimerFire]) = [] \<and>
   execution throwing (Some (opts0 ''js'')) rnd0 [IframeLoad, TimerFire] =
   execution silent (Some (opts0 ''js'')) rnd0 [IframeLoad, TimerFire] \<and>
   fst (worker_onmessage rowdy rnd0 (Some forged) crowded) = None \<and>
   map h_type (py_posted (snd (worker_onmessage rowdy rnd0 (Some forged) crowded))) =
     [Some ''ack'']"
proof -
  have c: "calm throwing = silent"
    by (intro ext) (simp add: calm_def throwing_def silent_def)
  have p: "map h_type (py_posted (snd (worker_onmessage rowdy rnd0 (Some forged) crowded))) =
      [Some ''ack'']"
    by (simp add: worker_onmessage_def default_opt_def forged_def truthy_def crowded_def
        rowdy_def postMessage_py_def stmt_defs Let_def)
  note contained = callback_exceptions_contained[where consumer = throwing
      and options = "Some (opts0 ''js'')" and rnd = rnd0 and stims = "[IframeLoad, TimerFire]"
      and call = rowdy and e = "Some forged" and g = crowded]
  have "fst (execution throwing (Some (opts0 ''js'')) rnd0 [IframeLoad, TimerFire]) = []"
    by (rule contained[THEN conjunct1])
  moreover have "execution throwing (Some (opts0 ''js'')) rnd0 [IframeLoad, TimerFire] =
      execution silent (Some (opts0 ''js'')) rnd0 [IframeLoad, TimerFire]"
    using contained[THEN conjunct2, THEN conjunct1] c by simp
  moreover have "fst (worker_onmessage rowdy rnd0 (Some forged) crowded) = None"
    by (rule contained[THEN conjunct2, THEN conjunct2, THEN conjunct2, THEN conjunct2, THEN conjunct2, THEN conjunct2, THEN conjunct2, THEN conjunct2, THEN conjunct2, THEN conjunct2, THEN conjunct2, THEN conjunct2, THEN conjunct2, THEN conjunct2, THEN conjunct2, THEN conjunct2, THEN conjunct1])
  ultimately show ?thesis
    using p by simp
qed

section \<open>The shape of the event stream, and stop\<close>

lemmas eval_defs = stream_run_from run_from_def task_JsRun task_PyRun task_NoRun events_def
  resolve_options_def opts0_def rnd0_def default_opt_def js_family_def py_family_def
  runCode_def in_js_def in_py_def in_none_def runJavaScript_def runPython_def run_begin_def
  ensureWorker_def onMessage_def js_host_of_def py_host_of_def jenv_of_def js_resolve_def
  js_defs js_emits_sync py_message_effect worker_onmessage_effect listener_call_runner
  listener_call_waiter forEach_step resumed_def py_defs budgeted_def reacting_def js_stopped_def
  py_stopped_def silent_def throwing_def stops_on_def stmt_defs Let_def truthy_def or_else_def
  byteLength_def mk_event_def no_payload_def empty_wmsg_def js_msg_def py_msg_def

lemma task_grows: "\<exists>new. events (snd (task consumer env rnd stim st)) = events st @ new"
  by (cases st) (simp_all add: events_def task_JsRun task_PyRun task_NoRun js_task_grows py_task_grows)

lemma begun_task: "begun st \<Longrightarrow> begun (snd (task consumer env rnd stim st))"
  using task_grows[of consumer env rnd stim st] by (auto simp: begun_def)

lemma tidy_task: "tidy st \<Longrightarrow> tidy (snd (task consumer env rnd stim st))"
  by (cases st) (simp_all add: tidy_def task_JsRun task_PyRun task_NoRun py_task_distinct)

lemma task_starts:
  "tidy st \<Longrightarrow> starts (events (snd (task consumer env rnd stim st))) \<le>
     starts (events st) + (if start_message stim then 1 else 0)"
  by (cases st)
     (simp_all add: tidy_def events_def task_JsRun task_PyRun task_NoRun js_task_starts
        py_task_starts)

lemma run_from_starts:
  "tidy st \<Longrightarrow> starts (events (run_from consumer env rnd st stims)) \<le>
     starts (events st) + length (filter start_message stims)"
proof (induction stims arbitrary: st)
  case Nil
  then show ?case by (simp add: run_from_def)
next
  case (Cons stim stims)
  let ?st = "snd (task consumer env rnd stim st)"
  have "starts (events (run_from consumer env rnd ?st stims)) \<le>
      starts (events ?st) + length (filter start_message stims)"
    using Cons.prems by (intro Cons.IH tidy_task)
  moreover have "starts (events ?st) \<le> starts (events st) + (if start_message stim then 1 else 0)"
    using Cons.prems by (rule task_starts)
  ultimately show ?case by (auto simp: run_from_def split: if_splits)
qed

lemma runCode_js:
  "js_family (language env) \<Longrightarrow>
     js_ok (snd (runCode consumer env rnd)) \<and> js_alive (snd (runCode consumer env rnd))"
  by (simp add: runCode_def emit_emitted emitted_def in_js_def js_ok_def js_alive_def js_inv_def
      runJavaScript_def js_host_of_def js_emits_sync stmt_defs split: prod.splits)

lemma runCode_begun:
  "begun (snd (runCode consumer env rnd)) \<and> tidy (snd (runCode consumer env rnd)) \<and>
     starts (events (snd (runCode consumer env rnd))) = 0"
  by (simp add: runCode_def emit_emitted emitted_def in_js_def in_py_def in_none_def begun_def
      tidy_def events_def starts_def runJavaScript_def js_host_of_def js_emits_sync runPython_def
      run_begin_def ensureWorker_def postMessage_py_def onMessage_def microtasks_def
      py_host_of_def stmt_defs split: prod.splits)

lemma js_ok_shape:
  assumes "js_ok st"
  shows "length (filter terminal (events st)) \<le> 1"
    and "filter terminal (events st) \<noteq> [] \<Longrightarrow> terminal (last (events st))"
    and "js_done st \<Longrightarrow> length (filter terminal (events st)) = 1"
  using assms
  by (cases st; auto simp: js_ok_def js_done_def js_inv_def events_def split: if_splits)+




text \<open>
  C4, as the code has it. When \<open>stop\<close> is called as a host task of its own (from a button
  handler, say), whatever the run did before (\<open>pre\<close>) and whatever arrives afterwards
  (\<open>post\<close>: messages of the iframe or the worker, the expiry of the timer, further calls
  of \<open>stop\<close>), the events delivered in all are those delivered before the call. When the
  consumer calls \<open>stop\<close> from inside its callback, nothing is delivered by any host task
  after the one in which it did so (\<open>pre\<close> ends with that task or later); what that task
  itself still emits is delivered. In a Python run it emits nothing more: there, a delivery
  in which \<open>stop\<close> is called is the last one.
\<close>

theorem stop_ends_delivery:
  "stream consumer options rnd (pre @ StopCall # post) = stream consumer options rnd pre \<and>
   (requested consumer (length (stream consumer options rnd [])) (stream consumer options rnd pre) \<longrightarrow>
      stream consumer options rnd (pre @ post) = stream consumer options rnd pre) \<and>
   (py_family (language (resolve_options options rnd)) \<and>
    \<not> js_family (language (resolve_options options rnd)) \<longrightarrow>
      claimed_stop consumer (length (stream consumer options rnd []))
        (stream consumer options rnd stims))"
  using stop_silences[of consumer options rnd pre post]
    callback_stop_silences[of consumer options rnd pre post]
    python_stop_is_last[of options rnd consumer stims]
  by blast

theorem stop_ends_delivery_witness:
  "map ev_type (stream silent (Some (opts0 ''python'')) rnd0
     ([py_msg ''ready'' None, py_msg ''start'' None] @ StopCall #
      [py_msg ''stdout'' (Some ''late''), py_msg ''error'' (Some ''late''), TimerFire])) =
   [''init'', ''done'', ''start''] \<and>
   requested (stops_on ''stdout'') (length (stream (stops_on ''stdout'') (Some (opts0 ''js'')) rnd0 []))
     (stream (stops_on ''stdout'') (Some (opts0 ''js'')) rnd0
        [IframeLoad, js_msg ''start'' [], js_msg ''log'' [''a'']]) \<and>
   map ev_type (stream (stops_on ''stdout'') (Some (opts0 ''js'')) rnd0
     ([IframeLoad, js_msg ''start'' [], js_msg ''log'' [''a'']] @
      [js_msg ''log'' [''b''], js_msg ''done'' [], TimerFire])) =
   [''init'', ''init'', ''start'', ''stdout'', ''log''] \<and>
   map ev_type (stream (stops_on ''start'') (Some (opts0 ''python'')) rnd0
     [py_msg ''ready'' None, py_msg ''start'' None, py_msg ''stdout'' (Some ''late'')]) =
   [''init'', ''done'', ''start''] \<and>
   claimed_stop (stops_on ''start'')
     (length (stream (stops_on ''start'') (Some (opts0 ''python'')) rnd0 []))
     (stream (stops_on ''start'') (Some (opts0 ''python'')) rnd0
        [py_msg ''ready'' None, py_msg ''start'' None, py_msg ''stdout'' (Some ''late'')])"
proof -
  let ?pre = "[IframeLoad, js_msg ''start'' [], js_msg ''log'' [''a'']]"
  let ?post = "[js_msg ''log'' [''b''], js_msg ''done'' [], TimerFire]"
  have 1: "map ev_type (stream silent (Some (opts0 ''python'')) rnd0
          [py_msg ''ready'' None, py_msg ''start'' None]) = [''init'', ''done'', ''start'']"
    by (simp add: eval_defs)
  have 2: "map ev_type (stream (stops_on ''stdout'') (Some (opts0 ''js'')) rnd0 []) =
      [''init'', ''init'']"
    by (simp add: eval_defs)
  have 3: "stream (stops_on ''stdout'') (Some (opts0 ''js'')) rnd0 ?pre =
      [mk_event (resolve_options (Some (opts0 ''js'')) rnd0) ''init'' no_payload,
       mk_event (resolve_options (Some (opts0 ''js'')) rnd0) ''init'' no_payload,
       mk_event (resolve_options (Some (opts0 ''js'')) rnd0) ''start'' no_payload,
       mk_event (resolve_options (Some (opts0 ''js'')) rnd0) ''stdout''
         (no_payload\<lparr>p_text := Some ''a'', p_level := Some ''log''\<rparr>),
       mk_event (resolve_options (Some (opts0 ''js'')) rnd0) ''log''
         (no_payload\<lparr>p_level := Some ''log'', p_text := Some ''a''\<rparr>)]"
    by (simp add: eval_defs)
  have "length (stream (stops_on ''stdout'') (Some (opts0 ''js'')) rnd0 []) = 2"
    using arg_cong[OF 2, of length] by simp
  then have 4: "requested (stops_on ''stdout'')
      (length (stream (stops_on ''stdout'') (Some (opts0 ''js'')) rnd0 []))
      (stream (stops_on ''stdout'') (Some (opts0 ''js'')) rnd0 ?pre)"
    unfolding 3 by (simp add: requested_def stops_on_def upt_rec)
  have 5: "map ev_type (stream (stops_on ''stdout'') (Some (opts0 ''js'')) rnd0 ?pre) =
      [''init'', ''init'', ''start'', ''stdout'', ''log'']"
    unfolding 3 by simp
  have 6: "map ev_type (stream (stops_on ''start'') (Some (opts0 ''python'')) rnd0
      [py_msg ''ready'' None, py_msg ''start'' None, py_msg ''stdout'' (Some ''late'')]) =
      [''init'', ''done'', ''start'']"
    by (simp add: eval_defs)
  have 7: "py_family (language (resolve_options (Some (opts0 ''python'')) rnd0)) \<and>
      \<not> js_family (language (resolve_options (Some (opts0 ''python'')) rnd0))"
    by (simp add: resolve_options_def opts0_def default_opt_def js_family_def py_family_def Let_def)
  show ?thesis
    using stop_ends_delivery[of silent "Some (opts0 ''python'')" rnd0
        "[py_msg ''ready'' None, py_msg ''start'' None]"
        "[py_msg ''stdout'' (Some ''late''), py_msg ''error'' (Some ''late''), TimerFire]"]
      stop_ends_delivery[of "stops_on ''stdout''" "Some (opts0 ''js'')" rnd0 ?pre ?post]
      stop_ends_delivery[of "stops_on ''start''" "Some (opts0 ''python'')" rnd0 "[]" "[]"
        "[py_msg ''ready'' None, py_msg ''start'' None, py_msg ''stdout'' (Some ''late'')]"]
      1 4 5 6 7
    by simp
qed

theorem stop_in_callback_counterexample:
  "map ev_type (stream (stops_on ''stdout'') (Some (opts0 ''js'')) rnd0
      [IframeLoad, js_msg ''start'' [], js_msg ''log'' [''a'']]) =
     [''init'', ''init'', ''start'', ''stdout'', ''log''] \<and>
   \<not> claimed_stop (stops_on ''stdout'') 2
       (stream (stops_on ''stdout'') (Some (opts0 ''js'')) rnd0
          [IframeLoad, js_msg ''start'' [], js_msg ''log'' [''a'']])"
proof -
  have "stream (stops_on ''stdout'') (Some (opts0 ''js'')) rnd0
          [IframeLoad, js_msg ''start'' [], js_msg ''log'' [''a'']] =
      [mk_event (resolve_options (Some (opts0 ''js'')) rnd0) ''init'' no_payload,
       mk_event (resolve_options (Some (opts0 ''js'')) rnd0) ''init'' no_payload,
       mk_event (resolve_options (Some (opts0 ''js'')) rnd0) ''start'' no_payload,
       mk_event (resolve_options (Some (opts0 ''js'')) rnd0) ''stdout''
         (no_payload\<lparr>p_text := Some ''a'', p_level := Some ''log''\<rparr>),
       mk_event (resolve_options (Some (opts0 ''js'')) rnd0) ''log''
         (no_payload\<lparr>p_level := Some ''log'', p_text := Some ''a''\<rparr>)]"
    by (simp add: eval_defs)
  then show ?thesis
    by (simp add: claimed_stop_def requested_def stops_on_def upt_rec)
qed

section \<open>The output budget of a run\<close>

lemma within_budget_task:
  "within_budget env st \<Longrightarrow> within_budget env (snd (task consumer env rnd stim st))"
  by (cases st)
     (simp_all add: within_budget_def task_JsRun task_PyRun task_NoRun js_budget_task py_budget_task)

lemma within_budget_runCode: "within_budget env (snd (runCode consumer env rnd))"
  by (simp add: runCode_def emit_emitted emitted_def in_js_def in_py_def in_none_def
      within_budget_def py_budget_def budget_ok_def warned_once_def output_bytes_def
      runJavaScript_def js_host_of_def js_emits_sync runPython_def run_begin_def ensureWorker_def
      postMessage_py_def onMessage_def microtasks_def py_host_of_def stmt_defs
      split: prod.splits)

lemma sim_task:
  "patient consumer \<Longrightarrow> sim st st' \<Longrightarrow>
     sim (snd (task consumer env rnd stim st)) (snd (task consumer (env\<lparr>maxLogBytes := b\<rparr>) rnd stim st'))"
  by (cases st; cases st')
     (simp_all add: sim_def task_JsRun task_PyRun task_NoRun js_sim_task py_sim_task)

lemma sim_run_from:
  "patient consumer \<Longrightarrow> sim st st' \<Longrightarrow>
     sim (run_from consumer env rnd st stims) (run_from consumer (env\<lparr>maxLogBytes := b\<rparr>) rnd st' stims)"
  unfolding run_from_def
  by (induction stims arbitrary: st st') (simp_all add: sim_task)

lemma sim_runCode:
  "sim (snd (runCode consumer env rnd)) (snd (runCode consumer (env\<lparr>maxLogBytes := b\<rparr>) rnd))"
  by (simp add: runCode_def emit_emitted emitted_def in_js_def in_py_def in_none_def
      sim_def js_sim_def py_sim_def jenv_of_def js_resolve_def default_opt_def
      runJavaScript_def js_host_of_def js_emits_sync runPython_def run_begin_def ensureWorker_def
      postMessage_py_def onMessage_def microtasks_def py_host_of_def stmt_defs
      split: prod.splits)

lemma sim_events: "sim st st' \<Longrightarrow> filter lifecycle (events st) = filter lifecycle (events st')"
  by (cases st; cases st') (simp_all add: sim_def events_def js_sim_def py_sim_def)

lemma resolve_budget:
  "resolve_options (Some (opts\<lparr>o_maxLogBytes := Some b\<rparr>)) rnd =
     (resolve_options (Some opts) rnd)\<lparr>maxLogBytes := b\<rparr>"
  by (simp add: resolve_options_def default_opt_def Let_def)

text \<open>The warning of the gate.\<close>

lemma flagged_reacting:
  "keeps stopped \<Longrightarrow> flagged env b h \<Longrightarrow> flagged env b (reacting consumer stopped ev h)"
  by (auto simp: flagged_def)

lemma flagged_budgeted:
  "keeps stopped \<Longrightarrow> flagged env b h \<Longrightarrow> flagged env b (budgeted consumer stopped env t x l h)"
  by (auto simp: flagged_def budgeted_def truncation_warning_def)

lemma flagged_stopped:
  "flagged env b h \<Longrightarrow> flagged env b (js_stopped h)"
  "flagged env b g \<Longrightarrow> flagged env b (py_stopped g)"
  by (simp_all add: flagged_def)

lemma flagged_js_fields [simp]:
  "flagged env b (h\<lparr>js_finished := a1\<rparr>) = flagged env b h"
  "flagged env b (h\<lparr>js_totalLogBytes := a2\<rparr>) = flagged env b h"
  "flagged env b (h\<lparr>js_truncatedNotified := a3\<rparr>) = flagged env b h"
  "flagged env b (h\<lparr>js_posted := a4\<rparr>) = flagged env b h"
  "flagged env b (h\<lparr>js_iframe := a5\<rparr>) = flagged env b h"
  "flagged env b (h\<lparr>js_timer := a6\<rparr>) = flagged env b h"
  "flagged env b (h\<lparr>js_listening := a7\<rparr>) = flagged env b h"
  by (simp_all add: flagged_def)

lemma flagged_py_fields [simp]:
  "flagged env b (g\<lparr>rc_run := c1\<rparr>) = flagged env b g"
  "flagged env b (g\<lparr>rc_finished := c2\<rparr>) = flagged env b g"
  "flagged env b (g\<lparr>rc_timer := c3\<rparr>) = flagged env b g"
  "flagged env b (g\<lparr>py_posted := c4\<rparr>) = flagged env b g"
  "flagged env b (g\<lparr>py_ready := c5\<rparr>) = flagged env b g"
  "flagged env b (g\<lparr>py_worker := c6\<rparr>) = flagged env b g"
  "flagged env b (g\<lparr>py_terminated := c7\<rparr>) = flagged env b g"
  "flagged env b (g\<lparr>py_listeners := c8\<rparr>) = flagged env b g"
  by (simp_all add: flagged_def)

lemmas flagged_intros = flagged_reacting flagged_budgeted flagged_stopped keeps_stopped

lemma js_flagged_task: "flagged env b h \<Longrightarrow> flagged env b (snd (js_task consumer env rnd stim h))"
  by (cases stim)
     (auto simp: js_defs stmt_defs Let_def split: option.splits intro!: flagged_intros)

lemma listener_call_flagged:
  "flagged env b h \<Longrightarrow>
     flagged env b (snd (listener_call (call_consumer consumer py_stop) env msg cb h))"
  by (cases cb)
     (auto simp: listener_call_runner listener_call_waiter intro!: flagged_intros)

lemma worker_onmessage_flagged:
  "flagged env b h \<Longrightarrow>
     flagged env b
       (snd (worker_onmessage (call_listener (call_consumer consumer py_stop) env) rnd e h))"
proof -
  assume h: "flagged env b h"
  have "flagged env b
      (snd (forEach (listener_call (call_consumer consumer py_stop) env msg) cbs h'))"
    if "flagged env b h'" for msg cbs h'
    using that by (intro forEach_invariant[where P = "flagged env b"] listener_call_flagged)
  then show ?thesis
    unfolding worker_onmessage_effect using h by simp
qed

lemma resumed_flagged: "flagged env b h \<Longrightarrow> flagged env b (resumed consumer env rnd h)"
  by (auto simp: resumed_def Let_def intro!: flagged_intros)

lemma py_flagged_task: "flagged env b h \<Longrightarrow> flagged env b (snd (py_task consumer env rnd stim h))"
proof (cases stim)
  case (WorkerMessage e)
  assume "flagged env b h"
  then show ?thesis unfolding WorkerMessage py_message_effect
    by (simp add: Let_def worker_onmessage_flagged resumed_flagged)
next
  case TimerFire
  assume "flagged env b h"
  then show ?thesis unfolding TimerFire
    by (auto simp: py_task_def py_timer_callback_def emit_emitted emitted_def dispose_effect
        stmt_defs intro!: flagged_intros)
next
  case StopCall
  assume "flagged env b h"
  then show ?thesis unfolding StopCall
    by (simp add: py_task_def py_stop_stopped flagged_stopped)
qed (simp_all add: py_task_def js_skip_def)

lemma flag_kept_task:
  "flag_kept env b st \<Longrightarrow> flag_kept env b (snd (task consumer env rnd stim st))"
  by (cases st)
     (simp_all add: flag_kept_def task_JsRun task_PyRun task_NoRun js_flagged_task py_flagged_task)

lemma flag_kept_runCode: "flag_kept env False (snd (runCode consumer env rnd))"
  by (simp add: runCode_def emit_emitted emitted_def in_js_def in_py_def in_none_def
      flag_kept_def flagged_def runJavaScript_def js_host_of_def js_emits_sync runPython_def
      run_begin_def ensureWorker_def postMessage_py_def onMessage_def microtasks_def
      py_host_of_def stmt_defs split: prod.splits)

lemma flag_kept_notified: "flag_kept env b st \<Longrightarrow> b \<Longrightarrow> notified st"
  by (cases st) (simp_all add: flag_kept_def flagged_def notified_def)

lemma flag_kept_weaken: "flag_kept env b st \<Longrightarrow> flag_kept env (notified st) st"
  by (cases st) (simp_all add: flag_kept_def flagged_def notified_def)

lemma flag_kept_warning:
  "flag_kept env b st \<Longrightarrow> notified st \<Longrightarrow> truncation_warning env \<in> set (events st)"
  by (cases st) (simp_all add: flag_kept_def flagged_def notified_def events_def)

lemma execution_run_from:
  "snd (execution consumer options rnd stims) =
     run_from consumer (resolve_options options rnd) rnd
       (snd (runCode consumer (resolve_options options rnd) rnd)) stims"
  by (simp add: execution_def Let_def tasks_run_from split: prod.splits option.splits)

lemma flag_kept_run:
  "flag_kept (resolve_options options rnd) False (snd (execution consumer options rnd stims))"
  unfolding execution_run_from
  by (rule run_from_invariant) (simp_all add: flag_kept_runCode flag_kept_task)

lemma warning_persists:
  assumes "notified (snd (execution consumer options rnd pre))"
  shows "notified (snd (execution consumer options rnd (pre @ post)))"
proof -
  let ?env = "resolve_options options rnd"
  let ?st = "snd (execution consumer options rnd pre)"
  have "flag_kept ?env (notified ?st) ?st"
    using flag_kept_run by (rule flag_kept_weaken)
  then have "flag_kept ?env True ?st"
    using assms by simp
  then have "flag_kept ?env True (run_from consumer ?env rnd ?st post)"
    by (rule run_from_invariant) (rule flag_kept_task)
  then have "notified (run_from consumer ?env rnd ?st post)"
    by (rule flag_kept_notified) simp
  then show ?thesis
    by (simp add: execution_run_from run_from_append)
qed

lemma warning_delivered:
  assumes "notified (snd (execution consumer options rnd stims))"
  shows "truncation_warning (resolve_options options rnd) \<in> set (stream consumer options rnd stims)"
  using flag_kept_warning[OF flag_kept_run assms] by (simp add: stream_def)

text \<open>One output message of the worker in a Python run.\<close>

lemma budgeted_gated:
  assumes "keeps stopped" "budget_ok env h"
  shows "delivered (budgeted consumer stopped env t x l h) =
     delivered h @ gated env (delivered h) (truncatedNotified h) t x l"
  using assms
  by (auto simp: budgeted_def gated_def budget_ok_def truncation_warning_def)

lemma forEach_output:
  assumes "m_type msg \<noteq> Some ''ready''" and "distinct cbs"
  shows "snd (forEach (listener_call (call_consumer consumer py_stop) env msg) cbs h) =
     (if RunnerListener \<in> set cbs \<and> RunnerListener \<in> set (py_listeners h)
      then snd (listener_call (call_consumer consumer py_stop) env msg RunnerListener h) else h)"
  using assms(2)
proof (induction cbs arbitrary: h)
  case Nil
  show ?case by (simp add: js_skip_def)
next
  case (Cons cb cbs)
  have d: "distinct cbs" "cb \<notin> set cbs" using Cons.prems by simp_all
  show ?case
  proof (cases cb)
    case RunnerListener
    then have "RunnerListener \<notin> set cbs" using d by simp
    then show ?thesis
      unfolding forEach_step by (simp add: RunnerListener Cons.IH[OF d(1)])
  next
    case ReadyWaiter
    have "snd (listener_call (call_consumer consumer py_stop) env msg ReadyWaiter h) = h"
      using assms(1) by (simp add: listener_call_waiter)
    then show ?thesis
      unfolding forEach_step by (simp add: ReadyWaiter Cons.IH[OF d(1)])
  qed
qed

lemma py_output_task:
  assumes "RunnerListener \<in> set (py_listeners h)" "distinct (py_listeners h)"
    and "rc_run h \<noteq> Resumed" "\<not> foreign rnd m"
    and "m_type m = Some t" "t = ''stdout'' \<or> t = ''stderr''"
  shows "snd (py_task consumer env rnd (WorkerMessage (Some m)) h) =
     budgeted consumer py_stopped env t (m_text m) (if t = ''stdout'' then ''info'' else ''warn'') h"
proof -
  have r: "m_type m \<noteq> Some ''ready''" using assms(5,6) by auto
  have "snd (worker_onmessage (call_listener (call_consumer consumer py_stop) env) rnd (Some m) h) =
      snd (listener_call (call_consumer consumer py_stop) env m RunnerListener h)"
    using assms(1,4) r
    by (auto simp: worker_onmessage_effect default_opt_def foreign_def
        forEach_output[OF r assms(2)])
  also have "\<dots> = budgeted consumer py_stopped env t (m_text m)
      (if t = ''stdout'' then ''info'' else ''warn'') h"
    using assms(5,6) by (auto simp: listener_call_runner)
  finally show ?thesis
    using assms(3) by (simp add: py_message_effect Let_def)
qed

lemma run_from_single:
  "run_from consumer env rnd st [stim] = snd (task consumer env rnd stim st)"
  by (simp add: run_from_def)

lemma python_output_step:
  assumes "py_listening (snd (execution consumer options rnd pre))" "\<not> foreign rnd m"
    and "m_type m = Some t" "t = ''stdout'' \<or> t = ''stderr''"
  shows "stream consumer options rnd (pre @ [WorkerMessage (Some m)]) =
     stream consumer options rnd pre @
       gated (resolve_options options rnd) (stream consumer options rnd pre)
         (notified (snd (execution consumer options rnd pre))) t (m_text m)
         (if t = ''stdout'' then ''info'' else ''warn'')"
proof -
  let ?env = "resolve_options options rnd"
  let ?start = "snd (runCode consumer ?env rnd)"
  let ?st = "run_from consumer ?env rnd ?start pre"
  obtain h where st: "?st = PyRun h" and l: "RunnerListener \<in> set (py_listeners h)"
    using assms(1) unfolding execution_run_from py_listening_def
    by (cases ?st) simp_all
  have "tidy ?st"
    by (rule run_from_invariant) (simp_all add: runCode_begun tidy_task)
  then have d: "distinct (py_listeners h)" by (simp add: st tidy_def)
  have "settled ?st"
    by (rule run_from_invariant) (simp_all add: settled_runCode settled_task)
  then have s: "rc_run h \<noteq> Resumed" by (simp add: st settled_def)
  have "within_budget ?env ?st"
    by (rule run_from_invariant) (simp_all add: within_budget_runCode within_budget_task)
  then have b: "budget_ok ?env h"
    by (simp_all add: st within_budget_def py_budget_def)
  have "events (snd (task consumer ?env rnd (WorkerMessage (Some m)) ?st)) =
      delivered h @ gated ?env (delivered h) (truncatedNotified h) t (m_text m)
        (if t = ''stdout'' then ''info'' else ''warn'')"
    by (simp add: st task_PyRun events_def py_output_task[OF l d s assms(2,3,4)]
        budgeted_gated[OF _ b])
  moreover have "notified (snd (execution consumer options rnd pre)) = truncatedNotified h"
    by (simp add: execution_run_from st notified_def)
  moreover have "stream consumer options rnd pre = delivered h"
    by (simp add: stream_run_from st events_def)
  moreover have "stream consumer options rnd (pre @ [WorkerMessage (Some m)]) =
      events (snd (task consumer ?env rnd (WorkerMessage (Some m)) ?st))"
    by (simp add: stream_run_from run_from_append run_from_single)
  ultimately show ?thesis
    by simp
qed

text \<open>One \<open>log\<close> message of the iframe in a JavaScript run.\<close>

lemma or_else_or_else [simp]: "d \<noteq> [] \<Longrightarrow> or_else (Some (or_else x d)) d = or_else x d"
  by (simp add: or_else_def split: option.splits)

lemma js_log_task:
  assumes "js_forwards env rnd d (JsRun h)" and "budget_ok env h"
  shows "delivered (snd (js_task consumer env rnd (WindowMessage (Some d)) h)) =
     delivered h @
       gated env (delivered h) (truncatedNotified h) ''stdout'' (Some (log_text d))
         (or_else (d_level d) ''log'') @
       [mk_event env ''log''
          (no_payload\<lparr>p_level := Some (or_else (d_level d) ''log''), p_text := Some (log_text d)\<rparr>)]"
proof -
  have b: "budget_ok env (h\<lparr>js_totalLogBytes := n\<rparr>)" for n
    using assms(2) by (simp add: budget_ok_def)
  show ?thesis
    using assms(1)
    by (simp add: js_forwards_def log_text_def js_defs stmt_defs Let_def budgeted_gated[OF _ b])
qed

lemma js_overflow_task:
  assumes "js_overflows env rnd d (JsRun h)" and "budget_ok env h"
  shows "delivered (snd (js_task consumer env rnd (WindowMessage (Some d)) h)) =
     delivered h @
       (if js_truncatedNotified h then []
        else gated env (delivered h) (truncatedNotified h) ''stdout'' (Some ''[output truncated]'')
               ''warn'' @ [truncation_warning env])"
proof -
  have b: "budget_ok env (h\<lparr>js_truncatedNotified := x\<rparr>)" for x
    using assms(2) by (simp add: budget_ok_def)
  show ?thesis
    using assms(1)
    by (simp add: js_overflows_def log_text_def js_defs stmt_defs Let_def budgeted_gated[OF _ b]
        truncation_warning_def or_else_def)
qed

lemma javascript_overflow_step:
  assumes "js_overflows (resolve_options options rnd) rnd d (snd (execution consumer options rnd pre))"
  shows "stream consumer options rnd (pre @ [WindowMessage (Some d)]) =
     stream consumer options rnd pre @
       (if js_warned (snd (execution consumer options rnd pre)) then []
        else gated (resolve_options options rnd) (stream consumer options rnd pre)
               (notified (snd (execution consumer options rnd pre))) ''stdout''
               (Some ''[output truncated]'') ''warn'' @
             [truncation_warning (resolve_options options rnd)])"
proof -
  let ?env = "resolve_options options rnd"
  let ?start = "snd (runCode consumer ?env rnd)"
  let ?st = "run_from consumer ?env rnd ?start pre"
  obtain h where st: "?st = JsRun h"
    using assms unfolding execution_run_from js_overflows_def
    by (cases ?st) simp_all
  have f: "js_overflows ?env rnd d (JsRun h)"
    using assms by (simp add: execution_run_from st)
  have "within_budget ?env ?st"
    by (rule run_from_invariant) (simp_all add: within_budget_runCode within_budget_task)
  then have b: "budget_ok ?env h"
    by (simp add: st within_budget_def)
  have "events (snd (task consumer ?env rnd (WindowMessage (Some d)) ?st)) =
      delivered h @
       (if js_truncatedNotified h then []
        else gated ?env (delivered h) (truncatedNotified h) ''stdout'' (Some ''[output truncated]'')
               ''warn'' @ [truncation_warning ?env])"
    by (simp add: st task_JsRun events_def js_overflow_task[OF f b])
  moreover have "notified (snd (execution consumer options rnd pre)) = truncatedNotified h"
    "js_warned (snd (execution consumer options rnd pre)) = js_truncatedNotified h"
    by (simp_all add: execution_run_from st notified_def js_warned_def)
  moreover have "stream consumer options rnd pre = delivered h"
    by (simp add: stream_run_from st events_def)
  moreover have "stream consumer options rnd (pre @ [WindowMessage (Some d)]) =
      events (snd (task consumer ?env rnd (WindowMessage (Some d)) ?st))"
    by (simp add: stream_run_from run_from_append run_from_single)
  ultimately show ?thesis
    by simp
qed

lemma javascript_log_step:
  assumes "js_forwards (resolve_options options rnd) rnd d (snd (execution consumer options rnd pre))"
  shows "stream consumer options rnd (pre @ [WindowMessage (Some d)]) =
     stream consumer options rnd pre @
       gated (resolve_options options rnd) (stream consumer options rnd pre)
         (notified (snd (execution consumer options rnd pre))) ''stdout'' (Some (log_text d))
         (or_else (d_level d) ''log'') @
       [mk_event (resolve_options options rnd) ''log''
          (no_payload\<lparr>p_level := Some (or_else (d_level d) ''log''), p_text := Some (log_text d)\<rparr>)]"
proof -
  let ?env = "resolve_options options rnd"
  let ?start = "snd (runCode consumer ?env rnd)"
  let ?st = "run_from consumer ?env rnd ?start pre"
  obtain h where st: "?st = JsRun h"
    using assms unfolding execution_run_from js_forwards_def
    by (cases ?st) simp_all
  have f: "js_forwards ?env rnd d (JsRun h)"
    using assms by (simp add: execution_run_from st)
  have "within_budget ?env ?st"
    by (rule run_from_invariant) (simp_all add: within_budget_runCode within_budget_task)
  then have b: "budget_ok ?env h"
    by (simp add: st within_budget_def)
  have "events (snd (task consumer ?env rnd (WindowMessage (Some d)) ?st)) =
      delivered h @
       gated ?env (delivered h) (truncatedNotified h) ''stdout'' (Some (log_text d))
         (or_else (d_level d) ''log'') @
       [mk_event ?env ''log''
          (no_payload\<lparr>p_level := Some (or_else (d_level d) ''log''), p_text := Some (log_text d)\<rparr>)]"
    by (simp add: st task_JsRun events_def js_log_task[OF f b])
  moreover have "notified (snd (execution consumer options rnd pre)) = truncatedNotified h"
    by (simp add: execution_run_from st notified_def)
  moreover have "stream consumer options rnd pre = delivered h"
    by (simp add: stream_run_from st events_def)
  moreover have "stream consumer options rnd (pre @ [WindowMessage (Some d)]) =
      events (snd (task consumer ?env rnd (WindowMessage (Some d)) ?st))"
    by (simp add: stream_run_from run_from_append run_from_single)
  ultimately show ?thesis
    by simp
qed

lemma python_warning_count:
  assumes "py_family (language (resolve_options options rnd))"
    and "\<not> js_family (language (resolve_options options rnd))"
  shows "filter is_log (stream consumer options rnd stims) =
     (if notified (snd (execution consumer options rnd stims))
      then [truncation_warning (resolve_options options rnd)] else [])"
proof -
  let ?env = "resolve_options options rnd"
  let ?st = "snd (execution consumer options rnd stims)"
  have "\<exists>h. snd (runCode consumer ?env rnd) = PyRun h"
    using assms
    by (simp add: runCode_def emit_emitted emitted_def in_py_def split: prod.splits)
  moreover have "\<exists>h'. run_from consumer ?env rnd (PyRun h) stims = PyRun h'" for h
    by (rule run_from_invariant[where P = "\<lambda>st. \<exists>h'. st = PyRun h'"])
       (auto simp: task_PyRun)
  ultimately obtain h where st: "?st = PyRun h"
    unfolding execution_run_from by metis
  have "within_budget ?env ?st"
    unfolding execution_run_from
    by (rule run_from_invariant) (simp_all add: within_budget_runCode within_budget_task)
  then have w: "warned_once h"
    by (simp add: st within_budget_def py_budget_def)
  have ev: "stream consumer options rnd stims = delivered h"
    by (simp add: stream_def st events_def)
  show ?thesis
  proof (cases "truncatedNotified h")
    case True
    then obtain x where x: "filter is_log (delivered h) = [x]"
      using w by (auto simp: warned_once_def length_Suc_conv)
    have "truncation_warning ?env \<in> set (delivered h)"
      using warning_delivered[of consumer options rnd stims] True
      by (simp add: st notified_def ev)
    moreover have "is_log (truncation_warning ?env)"
      by (simp add: truncation_warning_def)
    ultimately have "truncation_warning ?env \<in> set (filter is_log (delivered h))"
      by simp
    then show ?thesis
      using True by (simp add: x ev st notified_def)
  next
    case False
    then show ?thesis
      using w by (simp add: warned_once_def ev st notified_def)
  qed
qed




section \<open>A Python run and its timer\<close>

lemmas worker_defs = self_onmessage_def loadPyodideIfNeeded_def outer_catch_def postStd_def
  wpost_def posts_def worker0_def default_opt_def truthy_def or_else_def std_name_def
  endsWith_slash_def error_text_def empty_wmsg_def Let_def

lemma budgeted_no_timeout:
  "keeps stopped \<Longrightarrow> t \<noteq> ''timeout'' \<Longrightarrow>
     filter (\<lambda>e. ev_type e = ''timeout'') (delivered (budgeted consumer stopped env t x l h)) =
     filter (\<lambda>e. ev_type e = ''timeout'') (delivered h)"
  by (simp add: budgeted_def)

lemma listener_call_done:
  "py_done h \<Longrightarrow> py_done (snd (listener_call (call_consumer consumer py_stop) env msg cb h))"
  by (cases cb)
     (auto simp: py_done_def listener_call_runner listener_call_waiter budgeted_no_timeout)

lemma worker_onmessage_done:
  "py_done h \<Longrightarrow> py_done (snd (worker_onmessage (call_listener (call_consumer consumer py_stop) env) rnd e h))"
proof -
  assume d: "py_done h"
  have "py_done (snd (forEach (listener_call (call_consumer consumer py_stop) env msg) cbs h'))"
    if "py_done h'" for msg cbs h'
    using that by (intro forEach_invariant[where P = py_done] listener_call_done)
  moreover have "py_done (h\<lparr>py_ready := True\<rparr>)"
    using d by (simp add: py_done_def)
  ultimately show ?thesis
    unfolding worker_onmessage_effect using d by simp
qed

lemma py_done_task: "py_done h \<Longrightarrow> py_done (snd (py_task consumer env rnd stim h))"
proof (cases stim)
  case (WorkerMessage e)
  assume "py_done h"
  then have "py_done (snd (worker_onmessage (call_listener (call_consumer consumer py_stop) env) rnd e h))"
    by (rule worker_onmessage_done)
  then show ?thesis unfolding WorkerMessage py_message_effect
    by (auto simp: Let_def py_done_def resumed_def)
qed (auto simp: py_done_def py_defs stmt_defs)

lemma py_over_task: "py_over st \<Longrightarrow> py_over (snd (task consumer env rnd stim st))"
  using py_done_task
  by (cases st) (simp_all add: py_over_def py_done_def task_PyRun)

lemma ready_finishes:
  assumes "py_family (language env)" "\<not> js_family (language env)"
    and "m_type m = Some ''ready''" "\<not> truthy (m_token m) \<or> m_token m = Some (rnd_py_token rnd)"
  shows "py_over (snd (task consumer env rnd (WorkerMessage (Some m)) (snd (runCode consumer env rnd))))"
  using assms
  by (auto simp: runCode_def emit_emitted emitted_def in_py_def runPython_def run_begin_def
      ensureWorker_def postMessage_py_def onMessage_def microtasks_effect py_host_of_def
      task_PyRun py_message_effect worker_onmessage_effect forEach_step listener_call_runner
      listener_call_waiter resumed_def py_over_def default_opt_def stmt_defs Let_def
      split: prod.splits)

lemma python_ready_disarms_timer:
  assumes "py_family (language (resolve_options options rnd))"
    and "\<not> js_family (language (resolve_options options rnd))"
    and "m_type m = Some ''ready''" "\<not> truthy (m_token m) \<or> m_token m = Some (rnd_py_token rnd)"
  shows "\<forall>e \<in> set (stream consumer options rnd (WorkerMessage (Some m) # stims)).
           ev_type e \<noteq> ''timeout''"
proof -
  let ?env = "resolve_options options rnd"
  let ?st = "snd (task consumer ?env rnd (WorkerMessage (Some m)) (snd (runCode consumer ?env rnd)))"
  have "py_over ?st" using assms by (rule ready_finishes)
  then have "py_over (run_from consumer ?env rnd ?st stims)"
    by (rule run_from_invariant) (rule py_over_task)
  moreover have "stream consumer options rnd (WorkerMessage (Some m) # stims) =
      events (run_from consumer ?env rnd ?st stims)"
    by (simp add: stream_run_from run_from_def)
  ultimately show ?thesis
    by (cases "run_from consumer ?env rnd ?st stims")
       (auto simp: py_over_def events_def filter_empty_conv)
qed

lemma w1: "posts (w_trace (self_onmessage looping (Some init_msg) worker0)) =
     [wpost ''ready'' (Some ''P1'') None]"
  by (simp add: worker_defs looping_def init_msg_def)

lemma w2: "posts (w_trace (self_onmessage looping (Some run_msg)
             (w_after (self_onmessage looping (Some init_msg) worker0)))) =
     [wpost ''start'' (Some ''P1'') (Some ''py_q1'')] \<and>
   w_ending (self_onmessage looping (Some run_msg)
             (w_after (self_onmessage looping (Some init_msg) worker0))) = NeverReturns"
  by (simp add: worker_defs looping_def init_msg_def run_msg_def)

lemma h1: "map ev_type (stream silent (Some loop_options) rnd0
     [WorkerMessage (Some (wpost ''ready'' (Some ''P1'') None)),
      WorkerMessage (Some (wpost ''start'' (Some ''P1'') (Some ''py_q1''))),
      TimerFire]) = [''init'', ''done'', ''start'']"
  by (simp add: eval_defs loop_options_def wpost_def)

lemma h2: "posted (snd (execution silent (Some loop_options) rnd0
     [WorkerMessage (Some (wpost ''ready'' (Some ''P1'') None))])) = [init_msg, run_msg]"
  by (simp add: execution_def tasks_run_from eval_defs loop_options_def wpost_def posted_def init_msg_def run_msg_def
       split: prod.splits)

text \<open>
  C2, at the failing input \<open>while True: pass\<close> with the default timeout. The worker
  answers \<open>init\<close> with \<open>ready\<close>; on \<open>ready\<close> the host posts the \<open>run\<close> message,
  \<open>py.run\<close> returns, and \<open>finally\<close> emits \<open>done\<close> and clears the timer. The worker
  posts \<open>start\<close> and never returns from the evaluation. When the deadline elapses there
  is no timer left: no \<open>timeout\<close> is delivered and the executor is not disposed.
\<close>

theorem python_loop_not_timed_out:
  "posts (w_trace (self_onmessage looping (Some init_msg) worker0)) =
     [wpost ''ready'' (Some ''P1'') None] \<and>
   posted (snd (execution silent (Some loop_options) rnd0
     [WorkerMessage (Some (wpost ''ready'' (Some ''P1'') None))])) = [init_msg, run_msg] \<and>
   posts (w_trace (self_onmessage looping (Some run_msg)
            (w_after (self_onmessage looping (Some init_msg) worker0)))) =
     [wpost ''start'' (Some ''P1'') (Some ''py_q1'')] \<and>
   w_ending (self_onmessage looping (Some run_msg)
            (w_after (self_onmessage looping (Some init_msg) worker0))) = NeverReturns \<and>
   map ev_type (stream silent (Some loop_options) rnd0
     [WorkerMessage (Some (wpost ''ready'' (Some ''P1'') None)),
      WorkerMessage (Some (wpost ''start'' (Some ''P1'') (Some ''py_q1''))),
      TimerFire]) = [''init'', ''done'', ''start''] \<and>
   disposals (snd (execution silent (Some loop_options) rnd0
     [WorkerMessage (Some (wpost ''ready'' (Some ''P1'') None)),
      WorkerMessage (Some (wpost ''start'' (Some ''P1'') (Some ''py_q1''))),
      TimerFire])) = 0"
  using w1 w2 h1 h2
  by (simp add: execution_def tasks_run_from eval_defs loop_options_def wpost_def disposals_def
      split: prod.splits)

theorem python_loop_not_timed_out_witness:
  "''timeout'' \<notin> set (map ev_type (stream silent (Some loop_options) rnd0
     [WorkerMessage (Some (wpost ''ready'' (Some ''P1'') None)),
      WorkerMessage (Some (wpost ''start'' (Some ''P1'') (Some ''py_q1''))),
      TimerFire]))"
  using python_loop_not_timed_out by simp

section \<open>Messages of other sessions\<close>

lemma foreign_task:
  "settled st \<Longrightarrow> foreign rnd m \<Longrightarrow> task consumer env rnd (WorkerMessage (Some m)) st = (None, st)"
  by (cases st)
     (simp_all add: settled_def foreign_def task_JsRun task_NoRun task_def in_py_def
        py_message_task worker_onmessage_effect microtasks_effect default_opt_def js_task_def
        js_skip_def in_js_def)

lemma settled_run_from:
  "settled (run_from consumer env rnd (snd (runCode consumer env rnd)) stims)"
  by (rule run_from_invariant) (simp_all add: settled_runCode settled_task)

lemma foreign_dropped:
  assumes "foreign rnd m"
  shows "snd (execution consumer options rnd (pre @ WorkerMessage (Some m) # post)) =
         snd (execution consumer options rnd (pre @ post))"
proof -
  let ?env = "resolve_options options rnd"
  let ?st = "run_from consumer ?env rnd (snd (runCode consumer ?env rnd)) pre"
  have e: "snd (execution consumer options rnd stims) =
      run_from consumer ?env rnd (snd (runCode consumer ?env rnd)) stims" for stims
    by (simp add: execution_def Let_def tasks_run_from split: prod.splits option.splits)
  have "snd (task consumer ?env rnd (WorkerMessage (Some m)) ?st) = ?st"
    using foreign_task[OF settled_run_from assms] by simp
  then show ?thesis
    by (simp add: e run_from_def)
qed

lemma worker_drops_run:
  assumes "h_type msg = Some ''run''" "initialized w"
    and "\<not> truthy (h_token msg) \<or> h_token msg \<noteq> currentToken w"
  shows "self_onmessage py (Some msg) w = \<lparr>w_trace = [], w_after = w, w_ending = Returned\<rparr>"
  using assms
  by (auto simp: self_onmessage_def loadPyodideIfNeeded_def default_opt_def Let_def)

lemma worker_rekeys:
  "truthy tok \<Longrightarrow> initialized w \<Longrightarrow>
     self_onmessage py
       (Some \<lparr>h_type = Some ''init'', h_token = tok, h_runId = None, h_code = None,
              h_indexURL = None\<rparr>) w =
     \<lparr>w_trace = [Post (wpost ''ready'' tok None)], w_after = w\<lparr>currentToken := tok\<rparr>,
      w_ending = Returned\<rparr>"
  by (simp add: self_onmessage_def loadPyodideIfNeeded_def default_opt_def Let_def truthy_def)

text \<open>
  C5, as the code has it. At the host, a worker message that carries a token other than
  the executor's has no effect at all: no listener is called, no event is delivered and
  the state stays as it is, so the run goes on as if the message had never arrived. (A
  message with no token, or an empty one, passes the filter.) At the worker, once the
  interpreter is loaded, a \<open>run\<close> message with no token or with a token other than the
  current one is dropped without a trace. (An \<open>init\<close> message is accepted with any token
  and makes it the current one.)
\<close>

theorem foreign_tokens_dropped:
  "(foreign rnd m \<longrightarrow>
      snd (execution consumer options rnd (pre @ WorkerMessage (Some m) # post)) =
      snd (execution consumer options rnd (pre @ post))) \<and>
   (h_type msg = Some ''run'' \<and> initialized w \<and>
    (\<not> truthy (h_token msg) \<or> h_token msg \<noteq> currentToken w) \<longrightarrow>
      self_onmessage py (Some msg) w = \<lparr>w_trace = [], w_after = w, w_ending = Returned\<rparr>)"
  using foreign_dropped[of rnd m consumer options pre post] worker_drops_run[of msg w py]
  by blast

theorem foreign_tokens_dropped_witness:
  "stream silent (Some (opts0 ''python'')) rnd0
     ([py_msg ''ready'' None] @ WorkerMessage (Some stale) # [py_msg ''start'' None]) =
   stream silent (Some (opts0 ''python'')) rnd0 ([py_msg ''ready'' None] @ [py_msg ''start'' None]) \<and>
   self_onmessage looping (Some (run_msg\<lparr>h_token := Some ''OLD''\<rparr>)) keyed =
     \<lparr>w_trace = [], w_after = keyed, w_ending = Returned\<rparr> \<and>
   self_onmessage looping (Some (run_msg\<lparr>h_token := None\<rparr>)) keyed =
     \<lparr>w_trace = [], w_after = keyed, w_ending = Returned\<rparr>"
proof -
  have f: "foreign rnd0 stale"
    by (simp add: foreign_def stale_def rnd0_def truthy_def)
  have r: "h_type (run_msg\<lparr>h_token := t\<rparr>) = Some ''run''" "initialized keyed" for t
    by (simp_all add: run_msg_def keyed_def)
  have a: "\<not> truthy (h_token (run_msg\<lparr>h_token := Some ''OLD''\<rparr>)) \<or>
        h_token (run_msg\<lparr>h_token := Some ''OLD''\<rparr>) \<noteq> currentToken keyed"
    "\<not> truthy (h_token (run_msg\<lparr>h_token := None\<rparr>)) \<or>
        h_token (run_msg\<lparr>h_token := None\<rparr>) \<noteq> currentToken keyed"
    by (simp_all add: keyed_def truthy_def)
  show ?thesis
    using foreign_tokens_dropped[of rnd0 stale silent "Some (opts0 ''python'')"
        "[py_msg ''ready'' None]" "[py_msg ''start'' None]" "run_msg\<lparr>h_token := Some ''OLD''\<rparr>" keyed looping]
      foreign_tokens_dropped[of rnd0 stale silent "Some (opts0 ''python'')"
        "[py_msg ''ready'' None]" "[py_msg ''start'' None]" "run_msg\<lparr>h_token := None\<rparr>" keyed looping]
      f r a
    by (simp add: stream_def)
qed

theorem tokenless_counterexample:
  "map (\<lambda>e. (ev_type e, p_text (ev_payload e)))
     (stream silent (Some (opts0 ''python'')) rnd0 [WorkerMessage (Some forged)]) =
     [(''init'', None), (''stdout'', Some ''forged'')] \<and>
   stream silent (Some (opts0 ''python'')) rnd0 [WorkerMessage (Some forged)] \<noteq>
   stream silent (Some (opts0 ''python'')) rnd0 [] \<and>
   self_onmessage looping (Some (init_msg\<lparr>h_token := Some ''OTHER''\<rparr>)) keyed =
     \<lparr>w_trace = [Post (wpost ''ready'' (Some ''OTHER'') None)],
      w_after = keyed\<lparr>currentToken := Some ''OTHER''\<rparr>, w_ending = Returned\<rparr>"
proof -
  have a: "map ev_type (stream silent (Some (opts0 ''python'')) rnd0 []) = [''init'']"
    by (simp add: eval_defs)
  have b: "map (\<lambda>e. (ev_type e, p_text (ev_payload e)))
     (stream silent (Some (opts0 ''python'')) rnd0 [WorkerMessage (Some forged)]) =
     [(''init'', None), (''stdout'', Some ''forged'')]"
    by (simp add: eval_defs forged_def)
  have c: "self_onmessage looping (Some (init_msg\<lparr>h_token := Some ''OTHER''\<rparr>)) keyed =
     \<lparr>w_trace = [Post (wpost ''ready'' (Some ''OTHER'') None)],
      w_after = keyed\<lparr>currentToken := Some ''OTHER''\<rparr>, w_ending = Returned\<rparr>"
    by (simp add: worker_defs init_msg_def keyed_def looping_def)
  have "length (stream silent (Some (opts0 ''python'')) rnd0 []) = 1"
    using arg_cong[OF a, of length] by simp
  moreover have "length (stream silent (Some (opts0 ''python'')) rnd0 [WorkerMessage (Some forged)]) = 2"
    using arg_cong[OF b, of length] by simp
  ultimately have "stream silent (Some (opts0 ''python'')) rnd0 [WorkerMessage (Some forged)] \<noteq>
      stream silent (Some (opts0 ''python'')) rnd0 []"
    by auto
  with b c show ?thesis by simp
qed

section \<open>The worker's answer to a run message\<close>

lemma posts_append [simp]: "posts (a @ b) = posts a @ posts b"
  by (simp add: posts_def)

lemma posts_Cons [simp]:
  "posts (Post m # tr) = m # posts tr" "posts (ExposeBridge # tr) = posts tr"
  "posts (InstallRedirection # tr) = posts tr" "posts (Evaluate src # tr) = posts tr"
  "posts (LoadPyodide u # tr) = posts tr" "posts [] = []"
  by (simp_all add: posts_def)

lemma postStd_no_answer: "filter is_answer (posts (concat (map (postStd w rid) ws))) = []"
  by (induction ws) (auto simp: postStd_def is_answer_def wpost_def empty_wmsg_def std_name_def
      split: std.splits)

lemma postStd_kinds:
  "\<forall>m \<in> set (posts (concat (map (postStd w rid) ws))).
     (m_type m = Some ''stdout'' \<or> m_type m = Some ''stderr'') \<and> m_token m = currentToken w \<and>
     m_runId m = rid"
  by (induction ws) (auto simp: postStd_def wpost_def empty_wmsg_def std_name_def split: std.splits)

lemma accepted_run_trace:
  assumes "h_type msg = Some ''run''" "initialized w" "truthy (h_token msg)"
    and "h_token msg = currentToken w" "py_install py = None"
  shows "self_onmessage py (Some msg) w =
     \<lparr>w_trace =
        [ExposeBridge,
         Post (wpost ''start'' (currentToken w) (if truthy (h_runId msg) then h_runId msg else None)),
         InstallRedirection, Evaluate (or_else (h_code msg) [])] @
        concat (map (postStd w (if truthy (h_runId msg) then h_runId msg else None))
                  (writes_of (py_run py (or_else (h_code msg) [])))) @
        map Post (answer_of w (if truthy (h_runId msg) then h_runId msg else None)
                    (py_run py (or_else (h_code msg) []))),
      w_after = w,
      w_ending = (if terminates (py_run py (or_else (h_code msg) [])) then Returned else NeverReturns)\<rparr>"
  using assms
  by (cases "py_run py (or_else (h_code msg) [])")
     (simp_all add: self_onmessage_def loadPyodideIfNeeded_def default_opt_def Let_def
        writes_of_def answer_of_def terminates_def)

text \<open>
  C7, as the code has it. For a \<open>run\<close> message that carries the current token, with the
  interpreter loaded and the redirection script succeeding, the worker in this order
  exposes the bridge \<open>post_std\<close>, posts \<open>start\<close>, installs the redirection of
  \<open>sys.stdout\<close> and \<open>sys.stderr\<close>, and evaluates the code (an empty string when none
  is given), posting a \<open>stdout\<close> or \<open>stderr\<close> message for every non-empty write. When
  the evaluation ends, exactly one of \<open>result\<close> and \<open>error\<close> is posted and it is the last
  message: \<open>result\<close> with the value as text (empty for \<open>null\<close>/\<open>undefined\<close>), or
  \<open>error\<close> with the text of the exception. When the evaluation never returns, neither is
  posted.
\<close>

theorem worker_run_protocol:
  fixes py :: pyodide and msg :: hmsg and w :: worker
  defines "rid \<equiv> (if truthy (h_runId msg) then h_runId msg else None)"
    and "src \<equiv> or_else (h_code msg) []"
    and "r \<equiv> self_onmessage py (Some msg) w"
  assumes "h_type msg = Some ''run''" "initialized w" "truthy (h_token msg)"
    and "h_token msg = currentToken w" "py_install py = None"
  shows "take 4 (w_trace r) =
           [ExposeBridge, Post (wpost ''start'' (currentToken w) rid), InstallRedirection,
            Evaluate src] \<and>
         posts (w_trace r) =
           wpost ''start'' (currentToken w) rid #
           posts (concat (map (postStd w rid) (writes_of (py_run py src)))) @
           answer_of w rid (py_run py src) \<and>
         (terminates (py_run py src) \<longrightarrow>
            w_ending r = Returned \<and> length (filter is_answer (posts (w_trace r))) = 1 \<and>
            is_answer (last (posts (w_trace r)))) \<and>
         (\<forall>ws v. py_run py src = Returns ws v \<longrightarrow>
            last (posts (w_trace r)) =
              (wpost ''result'' (currentToken w) rid)\<lparr>m_value := Some (default_opt v [])\<rparr>) \<and>
         (\<forall>ws err. py_run py src = Raises ws err \<longrightarrow>
            last (posts (w_trace r)) =
              (wpost ''error'' (currentToken w) rid)\<lparr>m_message := Some (error_text err)\<rparr>) \<and>
         (\<not> terminates (py_run py src) \<longrightarrow>
            w_ending r = NeverReturns \<and> filter is_answer (posts (w_trace r)) = [])"
proof -
  have t: "r = \<lparr>w_trace =
        [ExposeBridge, Post (wpost ''start'' (currentToken w) rid), InstallRedirection,
         Evaluate src] @
        concat (map (postStd w rid) (writes_of (py_run py src))) @
        map Post (answer_of w rid (py_run py src)),
      w_after = w,
      w_ending = (if terminates (py_run py src) then Returned else NeverReturns)\<rparr>"
    unfolding r_def rid_def src_def using assms(4-8) by (rule accepted_run_trace)
  have p: "posts (map Post ms) = ms" for ms
    by (induction ms) simp_all
  have s: "\<not> is_answer (wpost ''start'' tok i)" for tok i
    by (simp add: is_answer_def wpost_def empty_wmsg_def)
  show ?thesis
    unfolding t
    by (cases "py_run py src")
       (simp_all add: p s postStd_no_answer answer_of_def terminates_def is_answer_def wpost_def
          empty_wmsg_def)
qed

theorem worker_run_protocol_witness:
  "posts (w_trace (self_onmessage
      \<lparr>py_load = Loaded, py_install = None,
       py_run = (\<lambda>src. Returns [(StdOut, ''x''), (StdOut, [])] (Some ''y''))\<rparr>
      (Some run_msg) keyed)) =
   [wpost ''start'' (Some ''P1'') (Some ''py_q1''),
    (wpost ''stdout'' (Some ''P1'') (Some ''py_q1''))\<lparr>m_text := Some ''x''\<rparr>,
    (wpost ''result'' (Some ''P1'') (Some ''py_q1''))\<lparr>m_value := Some ''y''\<rparr>]"
proof -
  let ?py = "\<lparr>py_load = Loaded, py_install = None,
       py_run = (\<lambda>src. Returns [(StdOut, ''x''), (StdOut, [])] (Some ''y''))\<rparr>"
  have "h_type run_msg = Some ''run''" "initialized keyed" "truthy (h_token run_msg)"
    "h_token run_msg = currentToken keyed" "py_install ?py = None"
    by (simp_all add: run_msg_def keyed_def truthy_def)
  from worker_run_protocol[OF this, THEN conjunct2, THEN conjunct1]
  show ?thesis
    by (simp add: run_msg_def keyed_def truthy_def writes_of_def answer_of_def postStd_def
        std_name_def default_opt_def)
qed

theorem claimed_run_counterexample:
  "w_trace (self_onmessage looping (Some run_msg) keyed) =
     [ExposeBridge, Post (wpost ''start'' (Some ''P1'') (Some ''py_q1'')), InstallRedirection,
      Evaluate ''while True: pass''] \<and>
   w_ending (self_onmessage looping (Some run_msg) keyed) = NeverReturns \<and>
   \<not> start_after_redirection (w_trace (self_onmessage looping (Some run_msg) keyed)) \<and>
   \<not> claimed_run (w_trace (self_onmessage looping (Some run_msg) keyed))"
  by (simp add: worker_defs looping_def run_msg_def keyed_def claimed_run_def
      start_after_redirection_def)

section \<open>The snippet server\<close>

lemma insert_index_map_of:
  "k \<notin> fst ` set all \<Longrightarrow> map_of (insert_index n (k, v) all) = (map_of all)(k \<mapsto> v)"
proof (induction all)
  case Nil
  then show ?case by simp
next
  case (Cons p ps)
  then show ?case
    by (cases p) (auto simp: fun_upd_twist split: option.splits)
qed

lemma replace_map_of:
  "map_of (map (\<lambda>p. if fst p = k then (k, v) else p) all) =
     (if k \<in> fst ` set all then (map_of all)(k \<mapsto> v) else map_of all)"
  by (induction all) (auto simp: fun_upd_twist)

lemma append_map_of:
  "k \<notin> fst ` set all \<Longrightarrow> map_of (all @ [(k, v)]) = (map_of all)(k \<mapsto> v)"
  by (induction all) (auto simp: fun_upd_twist)

lemma obj_set_map_of: "map_of (obj_set all k v) = (map_of all)(k \<mapsto> v)"
  by (simp add: obj_set_def replace_map_of insert_index_map_of append_map_of
      del: map_of_append split: option.splits)

lemma post_rejected:
  assumes "case b_code b of None \<Rightarrow> False | Some (JStr cs) \<Rightarrow> length cs > 200000 | Some _ \<Rightarrow> True"
  shows "post_snippet b new_id now all = (\<lparr>r_status = 400, r_body = ErrorBody ''Invalid code''\<rparr>, all)"
  using assms
  by (auto simp: post_snippet_def default_opt_def Let_def split: option.splits json.splits)

lemma post_accepted:
  assumes "b_code b = None \<and> cs = [] \<or> b_code b = Some (JStr cs) \<and> length cs \<le> 200000"
  shows "fst (post_snippet b new_id now all) = \<lparr>r_status = 200, r_body = SnippetId new_id\<rparr> \<and>
         obj_get (snd (post_snippet b new_id now all)) new_id =
           Own \<lparr>s_id = new_id, s_code = cs,
                s_language = default_opt (b_language b) (JStr (js_str ''python'')),
                s_meta = default_opt (b_meta b) (JObj []), s_createdAt = Some now\<rparr>"
  using assms
  by (auto simp: post_snippet_def default_opt_def Let_def obj_get_def obj_set_map_of)

lemma list_newest_first:
  "length (listed all) \<le> 100 \<and>
   listed all = take 100 (sort_key (\<lambda>sn. - createdAt_or_0 sn) (map snd all)) \<and>
   sorted_wrt (\<lambda>a b. createdAt_or_0 b \<le> createdAt_or_0 a) (listed all) \<and>
   set (listed all) \<subseteq> snd ` set all"
proof -
  let ?s = "sort_key (\<lambda>sn. - createdAt_or_0 sn) (map snd all)"
  have "sorted (map (\<lambda>sn. - createdAt_or_0 sn) ?s)" by (rule sorted_sort_key)
  then have "sorted_wrt (\<lambda>a b. createdAt_or_0 b \<le> createdAt_or_0 a) ?s"
    by (simp add: sorted_wrt_map)
  then have "sorted_wrt (\<lambda>a b. createdAt_or_0 b \<le> createdAt_or_0 a) (take 100 ?s)"
    by (rule sorted_wrt_take)
  moreover have "set (take 100 ?s) \<subseteq> snd ` set all"
    using set_take_subset[of 100 ?s] by auto
  ultimately show ?thesis by (simp add: listed_def get_snippets_def)
qed

lemma get_not_found:
  "map_of all k = None \<Longrightarrow> k \<notin> set object_prototype_keys \<Longrightarrow>
     get_snippet all k = \<lparr>r_status = 404, r_body = ErrorBody ''Not found''\<rparr>"
  by (simp add: get_snippet_def obj_get_def)

lemma get_inherited:
  "map_of all k = None \<Longrightarrow> k \<in> set object_prototype_keys \<Longrightarrow>
     get_snippet all k = \<lparr>r_status = 200, r_body = InheritedBody k\<rparr>"
  by (simp add: get_snippet_def obj_get_def)

text \<open>
  C8, at the failing input \<open>GET /api/snippets/constructor\<close> on an empty store: no snippet
  has this id, yet \<open>all[id]\<close> finds \<open>Object.prototype.constructor\<close>, the \<open>!snip\<close> test
  fails and the answer has status 200, not 404. The same holds for \<open>__proto__\<close>.
\<close>

theorem get_inherited_property:
  "map_of ([] :: store) ''constructor'' = None \<and>
   get_snippet [] ''constructor'' = \<lparr>r_status = 200, r_body = InheritedBody ''constructor''\<rparr> \<and>
   get_snippet [] ''__proto__'' = \<lparr>r_status = 200, r_body = InheritedBody ''__proto__''\<rparr> \<and>
   get_snippet [] ''abcdefghij'' = \<lparr>r_status = 404, r_body = ErrorBody ''Not found''\<rparr>"
  by (simp add: get_snippet_def obj_get_def object_prototype_keys_def)

theorem get_inherited_property_witness:
  "r_status (get_snippet [] ''constructor'') = 200 \<and>
   r_status (get_snippet [] ''constructor'') \<noteq> 404"
  using get_inherited_property by simp

end
